(* ===== verification/OC_Prelude.thy ===== *)
theory OC_Prelude
  imports Main "HOL-Library.Word"
begin

text \<open>
  Shared vocabulary of the development: the machine integer types of the firmware, the
  collections of rewrite rules the component theories extend, and the list and word facts
  that several components need.  C flags that only ever hold 0 or 1 are modelled as
  booleans; every other integer keeps its width, so additions and subtractions wrap exactly
  where the C code wraps.
\<close>

unbundle bit_operations_syntax

type_synonym u8 = "8 word"
type_synonym u16 = "16 word"
type_synonym u32 = "32 word"

named_theorems oc_defs \<open>unfoldings of the small helpers of the firmware\<close>
named_theorems oc_frame \<open>which fields an operation leaves alone\<close>
named_theorems oc_inv \<open>preservation of a component invariant\<close>

section \<open>Lists\<close>

lemma nth_append_last [simp]: "(xs @ [x]) ! length xs = x"
  by simp

lemma map_upt_Suc_shift: "map f [0..<Suc n] = f 0 # map (\<lambda>k. f (Suc k)) [0..<n]"
  by (simp only: map_upt_Suc)

lemma butlast_map_upt: "butlast (map f [0..<n]) = map f [0..<n - 1]"
  by (cases n) simp_all

lemma sum_list_map_upt_snoc: "sum_list (map f [0..<Suc n]) = sum_list (map f [0..<n]) + f n"
  for f :: "nat \<Rightarrow> 'a :: comm_monoid_add"
  by simp

section \<open>Words\<close>

lemma word_sub_self_less: "x < y \<Longrightarrow> x - y \<noteq> 0" for x y :: "'a :: len word"
  by auto

lemma unat_lt_u8: "unat (x :: u8) < 256"
  using unsigned_less [of x, where ?'a = nat] by simp

lemma unat_lt_u16: "unat (x :: u16) < 65536"
  using unsigned_less [of x, where ?'a = nat] by simp

lemma unat_lt_u32: "unat (x :: u32) < 4294967296"
  using unsigned_less [of x, where ?'a = nat] by simp

lemma unat_inc_u8: "unat (x + 1 :: u8) = (unat x + 1) mod 256"
  by (simp add: unat_word_ariths)

lemma unat_diff_inc_right:
  assumes "unat (t - h :: u8) < 255"
  shows "unat (t + 1 - h) = Suc (unat (t - h))"
proof -
  have "t + 1 - h = (t - h) + 1" by simp
  then have "unat (t + 1 - h) = (unat (t - h) + 1) mod 256"
    by (simp only: unat_inc_u8)
  also have "\<dots> = unat (t - h) + 1" using assms by (intro mod_less) simp
  finally show ?thesis by simp
qed

lemma unat_diff_inc_left:
  assumes "t \<noteq> h"
  shows "unat (t - (h + 1) :: u8) = unat (t - h) - 1"
proof -
  have "t - h \<noteq> 0" using assms by simp
  moreover have "t - (h + 1) = (t - h) - 1" by simp
  ultimately show ?thesis by (metis unat_minus_one)
qed

lemma unat_tail_u8: "unat (t :: u8) = (unat h + unat (t - h)) mod 256"
proof -
  have "unat t = unat (h + (t - h))" by simp
  also have "\<dots> = (unat h + unat (t - h)) mod 256"
    by (simp only: unat_word_ariths) simp
  finally show ?thesis .
qed

text \<open>Adding or subtracting without wrapping.\<close>

lemma unat_sub_le: "b \<le> a \<Longrightarrow> unat (a - b) = unat a - unat b" for a b :: "'a :: len word"
  by (simp add: unat_sub)

lemma unat_add_u32: "unat a + unat b < 4294967296 \<Longrightarrow> unat (a + b :: u32) = unat a + unat b"
  by (simp add: unat_word_ariths)

lemma unat_wrap_sub_u32:
  assumes "a < b"
  shows "unat (a - b :: u32) = 4294967296 + unat a - unat b"
proof -
  have lt: "unat a < unat b" using assms by (simp add: word_less_nat_alt)
  have "unat (a - b) = 4294967296 + unat a - unat b"
    using lt unat_lt_u32 [of b] by (simp add: unat_sub_if_size word_size not_le)
  then show ?thesis .
qed

end
