(* ===== verification/Rtc_Time.thy ===== *)
theory Rtc_Time
  imports OC_Prelude
begin

text \<open>
  Time arithmetic on the RTC32K counter: the monotonic clock of \<^verbatim>\<open>rtc_clock.c\<close>, the modular
  helpers of \<^verbatim>\<open>rf_task.c\<close> (elapsed, backdate, add, signed phase difference), those of
  \<^verbatim>\<open>power_sleep.c\<close>, and \<^verbatim>\<open>SleepProtocol_ElapsedTicks\<close>.  The counter counts modulo a
  wrap value below \<open>2 ^ 32\<close>; all of these functions work on \<open>uint32_t\<close> and are modelled on
  32-bit words, so every intermediate wrap of the C code is in the model.
\<close>

section \<open>The monotonic clock of rtc\_clock.c\<close>

record rtc_clock =
  started :: bool
  last_raw :: u32
  elapsed :: u32

definition RtcClock_Advance :: "rtc_clock \<Rightarrow> u32 \<Rightarrow> u32 \<Rightarrow> u32 \<Rightarrow> rtc_clock \<times> u32" where
  "RtcClock_Advance clk raw modulus backstep =
     (if \<not> started clk then
        (let clk' = clk\<lparr>started := True, last_raw := raw\<rparr> in (clk', elapsed clk'))
      else
        (let delta = (if last_raw clk \<le> raw then raw - last_raw clk
                      else raw + (modulus - last_raw clk)) in
         if delta \<noteq> 0 \<and> modulus - backstep \<le> delta then (clk, elapsed clk)
         else (let clk' = clk\<lparr>elapsed := elapsed clk + delta, last_raw := raw\<rparr> in
               (clk', elapsed clk'))))"

definition RTC_CLOCK_BACKSTEP :: u32 where "RTC_CLOCK_BACKSTEP = 1024"

text \<open>
  \<open>RtcClock_Now\<close> feeds the static clock from \<open>RTC_GetCycle32k()\<close>; the raw reading and the
  modulus \<open>RTC_MAX_COUNT\<close> come from the vendor SDK, so both are arguments.
\<close>

definition RtcClock_Now :: "u32 \<Rightarrow> u32 \<Rightarrow> rtc_clock \<Rightarrow> rtc_clock \<times> u32" where
  "RtcClock_Now RTC_MAX_COUNT raw clk = RtcClock_Advance clk raw RTC_MAX_COUNT RTC_CLOCK_BACKSTEP"

text \<open>Microseconds to ticks, in \<open>uint64_t\<close> arithmetic; \<open>FREQ_RTC\<close> is the SDK's constant.\<close>

definition RTC_CLOCK_TICKS_US :: "u32 \<Rightarrow> u32 \<Rightarrow> u32" where
  "RTC_CLOCK_TICKS_US FREQ_RTC us =
     ucast (((ucast us :: 64 word) * ucast FREQ_RTC + 999999) div 1000000) + 1"

definition rtc_clock_init :: rtc_clock where
  "rtc_clock_init = \<lparr>started = False, last_raw = 0, elapsed = 0\<rparr>"

fun rtc_clock_run :: "u32 \<Rightarrow> u32 \<Rightarrow> rtc_clock \<Rightarrow> u32 list \<Rightarrow> rtc_clock" where
  "rtc_clock_run m b clk [] = clk"
| "rtc_clock_run m b clk (r # rs) = rtc_clock_run m b (fst (RtcClock_Advance clk r m b)) rs"

text \<open>
  The abstract clock: \<open>M\<close> is the newest true time seen so far (in ticks, never wrapping), and
  a sample taken at true time \<open>x\<close> reads \<open>x mod m\<close>.  Samples may lag the newest by up to the
  backstep and may not be further ahead than the modulus less the backstep.
\<close>

definition rtc_raw :: "nat \<Rightarrow> nat \<Rightarrow> u32" where
  "rtc_raw m x = of_nat (x mod m)"

fun rtc_plausible :: "nat \<Rightarrow> nat \<Rightarrow> nat \<Rightarrow> nat list \<Rightarrow> bool" where
  "rtc_plausible m b M [] = True"
| "rtc_plausible m b M (x # xs) = (M \<le> x + b \<and> x < M + (m - b) \<and> rtc_plausible m b (max M x) xs)"

lemma unat_rtc_raw:
  assumes "0 < m" and "m < 2 ^ 32"
  shows "unat (rtc_raw m x) = x mod m"
proof -
  have "x mod m < 2 ^ 32" using assms by (meson mod_less_divisor order_less_trans)
  then show ?thesis by (simp add: rtc_raw_def unat_of_nat)
qed

lemma mod_forward:
  assumes "y \<le> x" and "x - y < m"
  shows "(if y mod m \<le> x mod m then x mod m - y mod m else x mod m + (m - y mod m)) = x - (y :: nat)"
proof -
  have m: "0 < m" using assms by simp
  obtain q where q: "x = m * (x div m) + x mod m" "y = m * (y div m) + y mod m" by simp
  have "(x - y) mod m = x - y" using assms by simp
  moreover have "(if y mod m \<le> x mod m then x mod m - y mod m else x mod m + (m - y mod m))
    = (x - y) mod m"
  proof (cases "y mod m \<le> x mod m")
    case True
    have "int ((x - y) mod m) = (int x - int y) mod int m" using assms(1) by (simp add: of_nat_diff zmod_int)
    also have "\<dots> = (int (x mod m) - int (y mod m)) mod int m" by (simp add: zmod_int mod_diff_eq)
    also have "\<dots> = int (x mod m - y mod m) mod int m" using True by (simp add: of_nat_diff)
    also have "\<dots> = int (x mod m - y mod m)"
      using m by (simp add: less_imp_diff_less flip: zmod_int)
    finally show ?thesis using True by simp
  next
    case False
    have "int ((x - y) mod m) = (int x - int y) mod int m" using assms(1) by (simp add: of_nat_diff zmod_int)
    also have "\<dots> = (int (x mod m) - int (y mod m)) mod int m" by (simp add: zmod_int mod_diff_eq)
    also have "\<dots> = (int (x mod m) - int (y mod m) + int m) mod int m" by simp
    also have "\<dots> = int (x mod m + (m - y mod m)) mod int m"
      using mod_less_divisor [OF m, of y] by (simp add: of_nat_diff algebra_simps)
    also have "\<dots> = int (x mod m + (m - y mod m))"
      using False m by (simp add: not_le flip: zmod_int)
    finally show ?thesis using False by simp
  qed
  ultimately show ?thesis by simp
qed

lemma rtc_forward_delta:
  assumes m: "0 < m" "m < 2 ^ 32" and le: "y \<le> x" "x - y < m"
  defines "d \<equiv> (if rtc_raw m y \<le> rtc_raw m x then rtc_raw m x - rtc_raw m y
                 else rtc_raw m x + (of_nat m - rtc_raw m y) :: u32)"
  shows "unat d = x - y"
proof -
  have um: "unat (of_nat m :: u32) = m" using m by (simp add: unat_of_nat)
  have ux: "unat (rtc_raw m z) = z mod m" for z using m by (rule unat_rtc_raw)
  have lt: "z mod m < m" for z using m by simp
  show ?thesis
  proof (cases "rtc_raw m y \<le> rtc_raw m x")
    case True
    then have "unat d = x mod m - y mod m" by (simp add: d_def unat_sub_le ux)
    with True mod_forward [OF le] show ?thesis by (simp add: word_le_nat_alt ux)
  next
    case False
    then have gt: "x mod m < y mod m" by (simp add: word_le_nat_alt ux)
    have "rtc_raw m y \<le> of_nat m" using lt [of y] by (simp add: word_le_nat_alt ux um)
    then have "unat (of_nat m - rtc_raw m y :: u32) = m - y mod m"
      by (simp add: unat_sub_le ux um)
    moreover have "x mod m + (m - y mod m) < 4294967296" using gt m lt [of x] by simp
    ultimately have "unat d = x mod m + (m - y mod m)"
      using False by (simp add: d_def unat_add_u32 ux)
    with gt mod_forward [OF le] show ?thesis by simp
  qed
qed

lemma u32_of_nat_eq: "unat w = n \<Longrightarrow> (w :: u32) = of_nat n"
  by (metis of_nat_unat ucast_id)

lemma rtc_advance_tracks:
  assumes m: "b < m" "m < 2 ^ 32" and st: "started clk" and last: "last_raw clk = rtc_raw m M"
    and near: "M \<le> x + b" "x < M + (m - b)"
  shows "fst (RtcClock_Advance clk (rtc_raw m x) (of_nat m) (of_nat b)) =
           clk\<lparr>last_raw := rtc_raw m (max M x), elapsed := elapsed clk + of_nat (max M x - M)\<rparr>"
proof -
  define d where "d = (if rtc_raw m M \<le> rtc_raw m x then rtc_raw m x - rtc_raw m M
            else rtc_raw m x + (of_nat m - rtc_raw m M) :: u32)"
  have adv: "fst (RtcClock_Advance clk (rtc_raw m x) (of_nat m) (of_nat b)) =
     (if d \<noteq> 0 \<and> of_nat m - of_nat b \<le> d then clk
      else clk\<lparr>elapsed := elapsed clk + d, last_raw := rtc_raw m x\<rparr>)"
    using st last by (simp add: RtcClock_Advance_def Let_def d_def)
  have mb: "unat (of_nat m - of_nat b :: u32) = m - b"
    using m by (subst unat_sub_le) (simp_all add: word_le_nat_alt unat_of_nat)
  show ?thesis
  proof (cases "M \<le> x")
    case True
    then have d: "unat d = x - M" using m near unfolding d_def by (intro rtc_forward_delta) simp_all
    then have "\<not> of_nat m - of_nat b \<le> d" using near True mb by (simp add: word_le_nat_alt)
    moreover have "d = of_nat (x - M)" using d by (rule u32_of_nat_eq)
    ultimately show ?thesis using adv True by (simp add: max_def)
  next
    case False
    have shift: "rtc_raw m x = rtc_raw m (x + m)" by (simp add: rtc_raw_def)
    have d: "unat d = x + m - M"
      unfolding d_def shift using m near False by (intro rtc_forward_delta) simp_all
    have "of_nat m - of_nat b \<le> d" using near d mb by (simp add: word_le_nat_alt)
    moreover have "d \<noteq> 0" using d near False m by (intro notI) simp
    ultimately show ?thesis using adv False st last by (simp add: max_def)
  qed
qed

lemma fold_max_ge: "M \<le> fold max xs (M :: nat)"
proof (induction xs arbitrary: M)
  case (Cons x xs)
  show ?case using order_trans [OF max.cobounded2 Cons.IH] by simp
qed simp

lemma rtc_run_tracks:
  assumes m: "b < m" "m < 2 ^ 32"
  shows "started clk \<Longrightarrow> last_raw clk = rtc_raw m M \<Longrightarrow> rtc_plausible m b M xs \<Longrightarrow>
    elapsed (rtc_clock_run (of_nat m) (of_nat b) clk (map (rtc_raw m) xs)) =
      elapsed clk + of_nat (fold max xs M - M)"
proof (induction xs arbitrary: clk M)
  case Nil
  then show ?case by simp
next
  case (Cons x xs)
  let ?clk = "fst (RtcClock_Advance clk (rtc_raw m x) (of_nat m) (of_nat b))"
  have clk: "?clk = clk\<lparr>last_raw := rtc_raw m (max M x), elapsed := elapsed clk + of_nat (max M x - M)\<rparr>"
    using Cons.prems m by (intro rtc_advance_tracks) simp_all
  have le: "max M x \<le> fold max xs (max M x)" by (rule fold_max_ge)
  have eq: "max M x - M + (fold max xs (max M x) - max M x) = fold max xs (max M x) - M"
    using le by linarith
  have "elapsed (rtc_clock_run (of_nat m) (of_nat b) ?clk (map (rtc_raw m) xs)) =
      elapsed ?clk + of_nat (fold max xs (max M x) - max M x)"
    using Cons.prems clk by (intro Cons.IH) simp_all
  also have "\<dots> = elapsed clk + of_nat (max M x - M + (fold max xs (max M x) - max M x))"
    using clk by simp
  also have "\<dots> = elapsed clk + of_nat (fold max (x # xs) M - M)"
    using eq by (simp only: fold_simps max.commute [of x M])
  finally show ?case by simp
qed

section \<open>Modular helpers of rf\_task.c\<close>

definition RTC32K_WRAP :: u32 where "RTC32K_WRAP = 0xa8c00000"

definition RTC32K_BACKSTEP_TOLERANCE :: u32 where "RTC32K_BACKSTEP_TOLERANCE = 1024"

definition rtc_delta_32k :: "u32 \<Rightarrow> u32 \<Rightarrow> u32" where
  "rtc_delta_32k now thn =
     (if thn \<le> now then now - thn
      else if thn - now \<le> RTC32K_BACKSTEP_TOLERANCE then 0
      else RTC32K_WRAP - thn + now)"

definition rtc_backdate_32k :: "u32 \<Rightarrow> u32 \<Rightarrow> u32" where
  "rtc_backdate_32k t ticks = (if ticks \<le> t then t - ticks else RTC32K_WRAP - (ticks - t))"

text \<open>The reduction loop of \<open>rtc_add_32k\<close>; every turn subtracts the wrap value.\<close>

function rtc_reduce_32k :: "u32 \<Rightarrow> u32" where
  "rtc_reduce_32k s = (if RTC32K_WRAP \<le> s then rtc_reduce_32k (s - RTC32K_WRAP) else s)"
  by pat_completeness auto
termination
  by (relation "measure unat") (auto simp: RTC32K_WRAP_def word_le_nat_alt unat_sub_le)

declare rtc_reduce_32k.simps [simp del]

definition rtc_add_32k :: "u32 \<Rightarrow> u32 \<Rightarrow> u32" where
  "rtc_add_32k t ticks = rtc_reduce_32k (t + ticks)"

text \<open>The signed phase difference; the C result is an \<open>int32_t\<close>, read here with \<open>sint\<close>.\<close>

definition rtc_signed_delta_32k :: "u32 \<Rightarrow> u32 \<Rightarrow> int" where
  "rtc_signed_delta_32k ref a =
     (let fwd = (if a \<le> ref then ref - a else RTC32K_WRAP - a + ref) in
      if fwd \<le> drop_bit 1 RTC32K_WRAP then sint fwd else - sint (RTC32K_WRAP - fwd))"

section \<open>Modular helpers of power\_sleep.c and sleep\_protocol.c\<close>

definition pwr_rtc_add :: "u32 \<Rightarrow> u32 \<Rightarrow> u32 \<Rightarrow> u32" where
  "pwr_rtc_add RTC_MAX_COUNT base ticks =
     (let t = base + ticks in if RTC_MAX_COUNT \<le> t then t - RTC_MAX_COUNT else t)"

definition pwr_rtc_sub :: "u32 \<Rightarrow> u32 \<Rightarrow> u32 \<Rightarrow> u32" where
  "pwr_rtc_sub RTC_MAX_COUNT base ticks =
     (if ticks \<le> base then base - ticks else base + (RTC_MAX_COUNT - ticks))"

definition SleepProtocol_ElapsedTicks :: "u32 \<Rightarrow> u32 \<Rightarrow> u32 \<Rightarrow> u32 \<Rightarrow> u32" where
  "SleepProtocol_ElapsedTicks now start modulus backstep_tol =
     (if start \<le> now then now - start
      else if start - now \<le> backstep_tol then 0
      else now + (modulus - start))"

section \<open>Correctness of the modular helpers\<close>

abbreviation WRAP_nat :: nat where "WRAP_nat \<equiv> 2831155200"

lemma unat_RTC32K_WRAP [simp]: "unat RTC32K_WRAP = WRAP_nat"
  by (simp add: RTC32K_WRAP_def)

lemma less_WRAP_iff: "t < RTC32K_WRAP \<longleftrightarrow> unat t < WRAP_nat"
  by (simp add: word_less_nat_alt)

lemma rtc_reduce_eq: "rtc_reduce_32k s = (if RTC32K_WRAP \<le> s then s - RTC32K_WRAP else s)"
proof (cases "RTC32K_WRAP \<le> s")
  case True
  then have "unat (s - RTC32K_WRAP) = unat s - WRAP_nat" by (simp add: unat_sub_le)
  then have "\<not> RTC32K_WRAP \<le> s - RTC32K_WRAP"
    using unat_lt_u32 [of s] by (simp add: word_le_nat_alt)
  with True show ?thesis
    by (simp add: rtc_reduce_32k.simps [of s] rtc_reduce_32k.simps [of "s - RTC32K_WRAP"])
next
  case False
  then show ?thesis by (simp add: rtc_reduce_32k.simps [of s])
qed

lemma unat_rtc_reduce: "unat (rtc_reduce_32k s) = unat s mod WRAP_nat"
proof (cases "RTC32K_WRAP \<le> s")
  case True
  then have le: "WRAP_nat \<le> unat s" by (simp add: word_le_nat_alt)
  then have "unat s mod WRAP_nat = unat s - WRAP_nat"
    using unat_lt_u32 [of s] by (simp add: le_mod_geq)
  with True show ?thesis by (simp add: rtc_reduce_eq unat_sub_le)
next
  case False
  then show ?thesis by (simp add: rtc_reduce_eq word_le_nat_alt)
qed

lemma unat_rtc_add:
  "unat t + unat n < 4294967296 \<Longrightarrow> unat (rtc_add_32k t n) = (unat t + unat n) mod WRAP_nat"
  by (simp add: rtc_add_32k_def unat_rtc_reduce unat_add_u32)

lemma rtc_add_less: "rtc_add_32k t n < RTC32K_WRAP"
  by (simp add: less_WRAP_iff rtc_add_32k_def unat_rtc_reduce)

lemma unat_rtc_backdate:
  assumes "t < RTC32K_WRAP" and "n \<le> RTC32K_WRAP"
  shows "unat (rtc_backdate_32k t n) = (unat t + WRAP_nat - unat n) mod WRAP_nat"
proof -
  have t: "unat t < WRAP_nat" and n: "unat n \<le> WRAP_nat"
    using assms by (simp_all add: less_WRAP_iff word_le_nat_alt)
  show ?thesis
  proof (cases "n \<le> t")
    case True
    then have le: "unat n \<le> unat t" by (simp add: word_le_nat_alt)
    then have "(unat t + WRAP_nat - unat n) mod WRAP_nat = (unat t - unat n) mod WRAP_nat"
      by (metis Nat.add_diff_assoc2 mod_add_self2)
    with True t le show ?thesis by (simp add: rtc_backdate_32k_def unat_sub_le)
  next
    case False
    then have lt: "unat t < unat n" by (simp add: word_le_nat_alt)
    have u: "unat (n - t) = unat n - unat t" using False by (simp add: unat_sub_le)
    then have "n - t \<le> RTC32K_WRAP" using n by (simp add: word_le_nat_alt)
    then have "unat (RTC32K_WRAP - (n - t)) = WRAP_nat - (unat n - unat t)" by (simp add: unat_sub_le u)
    with False lt n show ?thesis by (simp add: rtc_backdate_32k_def)
  qed
qed

lemma rtc_backdate_less:
  assumes "t < RTC32K_WRAP" and "n \<le> RTC32K_WRAP"
  shows "rtc_backdate_32k t n < RTC32K_WRAP"
  by (simp add: less_WRAP_iff unat_rtc_backdate [OF assms])

text \<open>The forward distance on the RTC circle, as a natural number.\<close>

definition rtc_dist :: "u32 \<Rightarrow> u32 \<Rightarrow> nat" where
  "rtc_dist a ref = (unat ref + WRAP_nat - unat a) mod WRAP_nat"

lemma rtc_dist_less: "rtc_dist a ref < WRAP_nat"
  by (simp add: rtc_dist_def)

lemma rtc_dist_self [simp]: "rtc_dist a a = 0"
  by (simp add: rtc_dist_def)

lemma rtc_dist_le: "a \<le> ref \<Longrightarrow> ref < RTC32K_WRAP \<Longrightarrow> rtc_dist a ref = unat ref - unat a"
  unfolding rtc_dist_def less_WRAP_iff word_le_nat_alt
  by (metis Nat.add_diff_assoc2 less_imp_diff_less mod_add_self2 mod_less)

lemma rtc_dist_gt: "ref < a \<Longrightarrow> a < RTC32K_WRAP \<Longrightarrow> rtc_dist a ref = WRAP_nat - unat a + unat ref"
  unfolding rtc_dist_def less_WRAP_iff word_less_nat_alt by simp

lemma rtc_delta_spec:
  assumes "thn < RTC32K_WRAP" and "now < RTC32K_WRAP"
  shows "unat (rtc_delta_32k now thn) =
           (if now < thn \<and> unat thn - unat now \<le> 1024 then 0 else rtc_dist thn now)"
proof (cases "thn \<le> now")
  case True
  then have "\<not> now < thn" by simp
  with True show ?thesis using assms by (simp add: rtc_delta_32k_def rtc_dist_le unat_sub_le del: not_less)
next
  case False
  then have lt: "now < thn" by simp
  have u: "unat (thn - now) = unat thn - unat now" using lt by (simp add: unat_sub_le)
  have "unat (RTC32K_WRAP - thn) = WRAP_nat - unat thn" using assms by (simp add: unat_sub_le)
  then have "unat (RTC32K_WRAP - thn + now) = WRAP_nat - unat thn + unat now"
    using lt assms by (subst unat_add_u32) (simp_all add: word_less_nat_alt)
  with False lt u show ?thesis using assms
    by (simp add: rtc_delta_32k_def rtc_dist_gt RTC32K_BACKSTEP_TOLERANCE_def word_le_nat_alt)
qed

lemma rtc_delta_bound:
  "thn < RTC32K_WRAP \<Longrightarrow> now < RTC32K_WRAP \<Longrightarrow> rtc_delta_32k now thn < RTC32K_WRAP"
  by (simp add: less_WRAP_iff rtc_delta_spec rtc_dist_less)

lemma sint_small_u32:
  assumes "unat (w :: u32) < 2147483648"
  shows "sint w = int (unat w)"
proof -
  have "int (unat w) < int 2147483648" using assms by (simp only: of_nat_less_iff)
  then have "uint w < 2147483648" by simp
  moreover have "- (2 ^ 31) \<le> uint w" by (rule order_trans [OF _ uint_ge_0]) simp
  ultimately have "signed_take_bit 31 (uint w) = uint w"
    by (intro signed_take_bit_int_eq_self) (assumption, simp)
  then show ?thesis by (simp add: sint_uint)
qed

lemma rtc_signed_delta_spec:
  assumes "a < RTC32K_WRAP" and "ref < RTC32K_WRAP"
  shows "rtc_signed_delta_32k ref a =
           (if rtc_dist a ref \<le> 1415577600 then int (rtc_dist a ref)
            else int (rtc_dist a ref) - int WRAP_nat)"
proof -
  define fwd where "fwd = (if a \<le> ref then ref - a else RTC32K_WRAP - a + ref)"
  have "unat (RTC32K_WRAP - a) = WRAP_nat - unat a" using assms by (simp add: unat_sub_le)
  then have "\<not> a \<le> ref \<Longrightarrow> unat (RTC32K_WRAP - a + ref) = WRAP_nat - unat a + unat ref"
    using assms by (subst unat_add_u32) (simp_all add: word_less_nat_alt word_le_nat_alt)
  then have fwd: "unat fwd = rtc_dist a ref"
    using assms by (auto simp: fwd_def unat_sub_le rtc_dist_le rtc_dist_gt)
  have half: "drop_bit 1 RTC32K_WRAP = (1415577600 :: u32)" by (simp add: RTC32K_WRAP_def)
  have "fwd \<le> RTC32K_WRAP" using rtc_dist_less [of a ref] fwd by (simp add: word_le_nat_alt)
  then have u: "unat (RTC32K_WRAP - fwd) = WRAP_nat - rtc_dist a ref" by (simp add: unat_sub_le fwd)
  have "rtc_signed_delta_32k ref a = (if fwd \<le> 1415577600 then sint fwd else - sint (RTC32K_WRAP - fwd))"
    by (simp only: rtc_signed_delta_32k_def Let_def fwd_def half)
  then show ?thesis
    using rtc_dist_less [of a ref] by (simp add: word_le_nat_alt fwd u sint_small_u32 of_nat_diff)
qed

lemma rtc_dist_add_one:
  assumes "a < RTC32K_WRAP" and "ref < RTC32K_WRAP" and "0 < rtc_dist a ref"
  shows "rtc_dist (rtc_add_32k a 1) ref = rtc_dist a ref - 1"
proof -
  have a: "unat a < WRAP_nat" and r: "unat ref < WRAP_nat" using assms by (simp_all add: less_WRAP_iff)
  have u: "unat (rtc_add_32k a 1) = (unat a + 1) mod WRAP_nat"
    using a by (subst unat_rtc_add) simp_all
  show ?thesis
  proof (cases "unat a + 1 = WRAP_nat")
    case True
    then show ?thesis using r assms(3)
      by (cases "unat ref = WRAP_nat - 1") (simp_all add: rtc_dist_def u)
  next
    case False
    then have "unat (rtc_add_32k a 1) = unat a + 1" using a by (simp add: u)
    moreover have "rtc_dist a ref = (if unat a \<le> unat ref then unat ref - unat a
        else WRAP_nat - unat a + unat ref)"
      using assms by (simp add: rtc_dist_le rtc_dist_gt word_le_nat_alt word_less_nat_alt)
    ultimately show ?thesis using a r assms(3)
      by (auto simp: rtc_dist_def [of "rtc_add_32k a 1"] le_mod_geq split: if_splits)
  qed
qed

lemma rtc_dist_back_one:
  assumes "a < RTC32K_WRAP" and "ref < RTC32K_WRAP" and "rtc_dist a ref < WRAP_nat - 1"
  shows "rtc_dist (rtc_backdate_32k a 1) ref = rtc_dist a ref + 1"
proof -
  have a: "unat a < WRAP_nat" and r: "unat ref < WRAP_nat" using assms by (simp_all add: less_WRAP_iff)
  have u: "unat (rtc_backdate_32k a 1) = (unat a + WRAP_nat - 1) mod WRAP_nat"
    using assms by (subst unat_rtc_backdate) (simp_all add: word_le_nat_alt)
  have d: "rtc_dist a ref = (if unat a \<le> unat ref then unat ref - unat a
        else WRAP_nat - unat a + unat ref)"
    using assms by (simp add: rtc_dist_le rtc_dist_gt word_le_nat_alt word_less_nat_alt)
  show ?thesis
  proof (cases "unat a = 0")
    case True
    then show ?thesis using r assms(3) d by (simp add: rtc_dist_def [of "rtc_backdate_32k a 1"] u)
  next
    case False
    then have "unat (rtc_backdate_32k a 1) = unat a - 1" using a by (simp add: u le_mod_geq)
    then show ?thesis using a r assms(3) False d
      by (auto simp: rtc_dist_def [of "rtc_backdate_32k a 1"] le_mod_geq split: if_splits)
  qed
qed

lemma int_rtc_dist:
  assumes "a < RTC32K_WRAP"
  shows "int (rtc_dist a ref) = (uint ref - uint a) mod 2831155200"
proof -
  have "unat a < WRAP_nat" using assms by (simp add: less_WRAP_iff)
  then have "int (rtc_dist a ref) = (uint ref + 2831155200 - uint a) mod 2831155200"
    by (simp add: rtc_dist_def zmod_int of_nat_diff)
  also have "uint ref + 2831155200 - uint a = (uint ref - uint a) + 2831155200" by simp
  finally show ?thesis by (simp only: mod_add_self2)
qed

lemma uint_rtc_add:
  assumes "unat t + unat n < 4294967296"
  shows "uint (rtc_add_32k t n) = (uint t + uint n) mod 2831155200"
proof -
  have "int (unat (rtc_add_32k t n)) = int ((unat t + unat n) mod WRAP_nat)"
    using assms by (simp only: unat_rtc_add)
  then show ?thesis by (simp add: zmod_int)
qed

lemma rtc_dist_shift:
  assumes "a < RTC32K_WRAP" and "ref < RTC32K_WRAP" and "unat n < 1463812096"
  shows "rtc_dist (rtc_add_32k a n) (rtc_add_32k ref n) = rtc_dist a ref"
proof -
  have a: "unat a < WRAP_nat" and r: "unat ref < WRAP_nat" using assms by (simp_all add: less_WRAP_iff)
  have "int (rtc_dist (rtc_add_32k a n) (rtc_add_32k ref n)) =
     ((uint ref + uint n) mod 2831155200 - (uint a + uint n) mod 2831155200) mod 2831155200"
    using a r assms(3) by (simp add: int_rtc_dist rtc_add_less uint_rtc_add)
  also have "\<dots> = (uint ref - uint a) mod 2831155200" by (simp add: mod_diff_eq)
  also have "\<dots> = int (rtc_dist a ref)" using assms(1) by (simp add: int_rtc_dist)
  finally show ?thesis by simp
qed

lemma unat_RTC_CLOCK_TICKS_US:
  assumes "unat f < 1000000"
  shows "unat (RTC_CLOCK_TICKS_US f us) = (unat us * unat f + 999999) div 1000000 + 1"
proof -
  have "unat us * unat f \<le> 4294967295 * 999999"
    using unat_lt_u32 [of us] assms by (intro mult_le_mono) simp_all
  then have lt: "unat us * unat f + 999999 < 18446744073709551616" by simp
  have q: "(unat us * unat f + 999999) div 1000000 < 4294967295"
    using \<open>unat us * unat f \<le> 4294967295 * 999999\<close> by (simp add: div_less_iff_less_mult)
  have "unat (((ucast us :: 64 word) * ucast f + 999999) div 1000000)
      = (unat us * unat f + 999999) div 1000000"
    using lt unat_lt_u32 [of us] unat_lt_u32 [of f]
    by (simp add: unat_div unat_word_ariths unsigned_ucast_eq take_bit_eq_mod)
  with q show ?thesis
    by (simp add: RTC_CLOCK_TICKS_US_def unat_word_ariths unsigned_ucast_eq take_bit_eq_mod)
qed

section \<open>Properties\<close>

text \<open>
  C40: the monotonic clock follows true time.  Fed any sequence of raw samples whose true times
  lag the newest one by at most the backstep and never jump a whole counter period ahead
  (counter wraps and stale reads in any mix, a stale read across the wrap included), its
  elapsed time is the newest true time seen minus the first one.
\<close>
theorem rtc_clock_tracks:
  assumes "b < m" and "m < 2 ^ 32" and "rtc_plausible m b x0 xs"
  shows "elapsed (rtc_clock_run (of_nat m) (of_nat b) rtc_clock_init (map (rtc_raw m) (x0 # xs)))
           = of_nat (fold max xs x0 - x0)"
  using rtc_run_tracks [OF assms(1,2), of "\<lparr>started = True, last_raw = rtc_raw m x0, elapsed = 0\<rparr>" x0 xs]
    assms(3)
  by (simp add: RtcClock_Advance_def rtc_clock_init_def)

theorem rtc_clock_tracks_witness:
  "elapsed (rtc_clock_run 2831155200 1024 rtc_clock_init
     (map (rtc_raw 2831155200) [2831155198, 2831155201, 2831155199, 2831155202])) = 4"
  using rtc_clock_tracks [of 1024 2831155200 2831155198 "[2831155201, 2831155199, 2831155202]"]
  by simp

text \<open>
  A wait of \<open>RTC_CLOCK_TICKS_US(us)\<close> ticks never comes up short and is never more than one
  tick period longer than it must be.  The wait may start anywhere inside its first tick, so only
  the ticks after the first are whole: they cover \<open>us\<close> microseconds, and one fewer would not.
\<close>
theorem ticks_us_covers:
  assumes "unat FREQ_RTC < 1000000"
  shows "unat us * unat FREQ_RTC \<le> (unat (RTC_CLOCK_TICKS_US FREQ_RTC us) - 1) * 1000000
       \<and> (unat (RTC_CLOCK_TICKS_US FREQ_RTC us) - 1) * 1000000 < unat us * unat FREQ_RTC + 1000000"
proof -
  have "unat (RTC_CLOCK_TICKS_US FREQ_RTC us) - 1 = (unat us * unat FREQ_RTC + 999999) div 1000000"
    using unat_RTC_CLOCK_TICKS_US [OF assms] by simp
  then show ?thesis by (simp only:) linarith
qed

theorem ticks_us_covers_witness:
  "RTC_CLOCK_TICKS_US 32768 150 = 6 \<and> (150::nat) * 32768 \<le> 5 * 1000000"
  using ticks_us_covers [of 32768 150] by (simp add: RTC_CLOCK_TICKS_US_def)

text \<open>
  \<open>rtc_signed_delta_32k\<close> is the shortest signed phase on the RTC circle: adding it to the
  anchor lands on the reference modulo the wrap, and it lies in (-WRAP/2, WRAP/2].
\<close>
theorem rtc_signed_delta_shortest:
  assumes "a < RTC32K_WRAP" and "ref < RTC32K_WRAP"
  shows "(uint a + rtc_signed_delta_32k ref a) mod 2831155200 = uint ref
       \<and> - 1415577600 < rtc_signed_delta_32k ref a \<and> rtc_signed_delta_32k ref a \<le> 1415577600"
proof -
  let ?d = "int (rtc_dist a ref)"
  have lt: "?d < 2831155200" using rtc_dist_less [of a ref] by simp
  have "unat ref < WRAP_nat" using assms(2) by (simp add: less_WRAP_iff)
  then have "int (unat ref) < int WRAP_nat" by (simp only: of_nat_less_iff)
  then have r: "uint ref mod 2831155200 = uint ref" by simp
  have sum: "(uint a + ?d) mod 2831155200 = uint ref"
    using r by (simp add: int_rtc_dist [OF assms(1)] mod_add_right_eq)
  have "(uint a + (?d - 2831155200)) mod 2831155200 = ((uint a + ?d) - 2831155200) mod 2831155200"
    by (simp add: algebra_simps)
  also have "\<dots> = uint ref" using sum by simp
  finally have bck: "(uint a + (?d - 2831155200)) mod 2831155200 = uint ref" .
  show ?thesis
    using lt sum bck by (simp add: rtc_signed_delta_spec [OF assms])
qed

theorem rtc_signed_delta_shortest_witness:
  "rtc_signed_delta_32k 2 2831155199 = 3 \<and> rtc_signed_delta_32k 2831155199 2 = - 3"
  using rtc_signed_delta_shortest [of 2831155199 2] rtc_signed_delta_shortest [of 2 2831155199]
  by (simp add: rtc_signed_delta_32k_def RTC32K_WRAP_def)

end
