(* ===== verification/Bounded_Queue.thy ===== *)
theory Bounded_Queue
  imports OC_Prelude
begin

text \<open>
  The contract shared by the three bounded FIFOs of the firmware: the UART receive ring of
  \<^verbatim>\<open>keyboard_uart.c\<close>, the HID report ring of \<^verbatim>\<open>rf_task.c\<close> and the frame queue of
  \<^verbatim>\<open>host_wake.c\<close>.  They differ in what a full queue does with one more element: the first
  and the last drop it, the HID ring overwrites its newest entry.  The contract is a locale
  over an abstraction to lists; each component interprets it on its own operations.  The
  second half holds the index arithmetic of a cyclic buffer that all three use.
\<close>

section \<open>The abstract bounded list\<close>

definition list_put :: "nat \<Rightarrow> ('a list \<Rightarrow> 'a \<Rightarrow> 'a list) \<Rightarrow> 'a \<Rightarrow> 'a list \<Rightarrow> 'a list" where
  "list_put cap ov x xs = (if length xs < cap then xs @ [x] else ov xs x)"

definition keep_old :: "'a list \<Rightarrow> 'a \<Rightarrow> 'a list" where
  "keep_old xs x = xs"

definition replace_newest :: "'a list \<Rightarrow> 'a \<Rightarrow> 'a list" where
  "replace_newest xs x = butlast xs @ [x]"

datatype 'a qop = Put 'a | Pop

fun list_run :: "nat \<Rightarrow> ('a list \<Rightarrow> 'a \<Rightarrow> 'a list) \<Rightarrow> 'a qop list \<Rightarrow> 'a list \<Rightarrow> 'a list \<times> 'a list" where
  "list_run cap ov [] xs = (xs, [])"
| "list_run cap ov (Put x # ops) xs = list_run cap ov ops (list_put cap ov x xs)"
| "list_run cap ov (Pop # ops) xs =
     (case xs of
        [] \<Rightarrow> list_run cap ov ops []
      | y # ys \<Rightarrow> (let (zs, out) = list_run cap ov ops ys in (zs, y # out)))"

text \<open>What a run of a dropping queue accepts: the elements put while there was room.\<close>

fun list_accepted :: "nat \<Rightarrow> 'a qop list \<Rightarrow> 'a list \<Rightarrow> 'a list" where
  "list_accepted cap [] xs = []"
| "list_accepted cap (Put x # ops) xs =
     (if length xs < cap then x # list_accepted cap ops (xs @ [x]) else list_accepted cap ops xs)"
| "list_accepted cap (Pop # ops) xs = list_accepted cap ops (tl xs)"

lemma list_run_keep_fifo:
  "list_run cap keep_old ops xs = (zs, out) \<Longrightarrow> out @ zs = xs @ list_accepted cap ops xs"
proof (induction ops arbitrary: xs zs out)
  case Nil
  then show ?case by simp
next
  case (Cons a ops)
  show ?case
  proof (cases a)
    case (Put x)
    with Cons.prems
    have "list_run cap keep_old ops (if length xs < cap then xs @ [x] else xs) = (zs, out)"
      by (cases "length xs < cap") (simp_all add: list_put_def, simp add: keep_old_def)
    from Cons.IH [OF this] Put show ?thesis by (simp split: if_splits)
  next
    case Pop
    with Cons show ?thesis
      by (cases xs) (auto split: prod.splits)
  qed
qed

section \<open>The queue interface\<close>

fun q_run :: "('s \<Rightarrow> 'a list) \<Rightarrow> ('a \<Rightarrow> 's \<Rightarrow> 's) \<Rightarrow> ('s \<Rightarrow> 's) \<Rightarrow> 'a qop list \<Rightarrow> 's \<Rightarrow> 's \<times> 'a list" where
  "q_run items put pop [] s = (s, [])"
| "q_run items put pop (Put x # ops) s = q_run items put pop ops (put x s)"
| "q_run items put pop (Pop # ops) s =
     (case items s of
        [] \<Rightarrow> q_run items put pop ops s
      | y # ys \<Rightarrow> (let (s', out) = q_run items put pop ops (pop s) in (s', y # out)))"

locale bounded_queue =
  fixes items :: "'s \<Rightarrow> 'a list"
    and wf :: "'s \<Rightarrow> bool"
    and cap :: nat
    and ov :: "'a list \<Rightarrow> 'a \<Rightarrow> 'a list"
    and put :: "'a \<Rightarrow> 's \<Rightarrow> 's"
    and pop :: "'s \<Rightarrow> 's"
  assumes cap_pos: "0 < cap"
    and ov_length: "length xs = cap \<Longrightarrow> length (ov xs x) = cap"
    and items_cap: "wf s \<Longrightarrow> length (items s) \<le> cap"
    and put_items: "wf s \<Longrightarrow> items (put x s) = list_put cap ov x (items s)"
    and pop_items: "wf s \<Longrightarrow> items s \<noteq> [] \<Longrightarrow> items (pop s) = tl (items s)"
    and wf_put: "wf s \<Longrightarrow> wf (put x s)"
    and wf_pop: "wf s \<Longrightarrow> items s \<noteq> [] \<Longrightarrow> wf (pop s)"
begin

lemma put_room: "wf s \<Longrightarrow> length (items s) < cap \<Longrightarrow> items (put x s) = items s @ [x]"
  by (simp add: put_items list_put_def)

lemma put_full: "wf s \<Longrightarrow> length (items s) = cap \<Longrightarrow> items (put x s) = ov (items s) x"
  by (simp add: put_items list_put_def)

lemma put_length: "wf s \<Longrightarrow> length (items (put x s)) = min cap (Suc (length (items s)))"
  using items_cap [of s] ov_length [of "items s" x]
  by (auto simp: put_items list_put_def min_def)

lemma put_nonempty: "wf s \<Longrightarrow> items (put x s) \<noteq> []"
  using put_length [of s x] cap_pos by auto

lemma run_refines:
  "wf s \<Longrightarrow> q_run items put pop ops s = (s', out)
    \<Longrightarrow> wf s' \<and> list_run cap ov ops (items s) = (items s', out)"
proof (induction ops arbitrary: s s' out)
  case Nil
  then show ?case by simp
next
  case (Cons a ops)
  show ?case
  proof (cases a)
    case (Put x)
    from Cons.prems Put have run: "q_run items put pop ops (put x s) = (s', out)" by simp
    have "wf (put x s)" using Cons.prems(1) by (rule wf_put)
    from Cons.IH [OF this run] Put show ?thesis by (simp add: put_items [OF Cons.prems(1)])
  next
    case Pop
    show ?thesis
    proof (cases "items s")
      case Nil
      with Cons.prems Pop have run: "q_run items put pop ops s = (s', out)" by simp
      from Cons.IH [OF Cons.prems(1) run] Nil Pop show ?thesis by simp
    next
      case y: (Cons y ys)
      obtain s1 o1 where run: "q_run items put pop ops (pop s) = (s1, o1)" by fastforce
      from y Cons.prems have "wf (pop s)" and "items (pop s) = ys"
        by (simp_all add: wf_pop pop_items)
      with Cons.IH [OF _ run] y run Pop Cons.prems show ?thesis by auto
    qed
  qed
qed

end

text \<open>A queue that drops what does not fit: what comes out is what was accepted, in order.\<close>

locale dropping_queue = bounded_queue items wf cap keep_old put pop
  for items :: "'s \<Rightarrow> 'a list" and wf cap put pop
begin

lemma put_drop: "wf s \<Longrightarrow> length (items s) = cap \<Longrightarrow> items (put x s) = items s"
  by (simp add: put_full keep_old_def)

lemma run_fifo:
  assumes "wf s" and "q_run items put pop ops s = (s', out)"
  shows "out @ items s' = items s @ list_accepted cap ops (items s)"
  using run_refines [OF assms] by (blast intro: list_run_keep_fifo)

end

text \<open>A queue that overwrites its newest entry: the newest element is always in it, and with
  two or more places the oldest entry is never touched.\<close>

locale coalescing_queue = bounded_queue items wf cap replace_newest put pop
  for items :: "'s \<Rightarrow> 'a list" and wf cap put pop +
  assumes cap_two: "1 < cap"
begin

lemma put_newest: "wf s \<Longrightarrow> last (items (put x s)) = x"
  by (simp add: put_items list_put_def replace_newest_def)

lemma put_keeps_oldest:
  assumes "wf s" and "items s \<noteq> []"
  shows "hd (items (put x s)) = hd (items s)"
proof (cases "length (items s) < cap")
  case True
  with assms show ?thesis by (simp add: put_room)
next
  case False
  with assms items_cap [of s] have "length (items s) = cap" by simp
  moreover from this cap_two have "butlast (items s) \<noteq> []" by (cases "items s") auto
  ultimately show ?thesis
    using assms by (cases "items s") (auto simp: put_full replace_newest_def)
qed

end

section \<open>Cyclic buffers\<close>

definition cyc :: "nat \<Rightarrow> 'a list \<Rightarrow> nat \<Rightarrow> nat \<Rightarrow> 'a list" where
  "cyc n buf h c = map (\<lambda>k. buf ! ((h + k) mod n)) [0..<c]"

lemma length_cyc [simp]: "length (cyc n buf h c) = c"
  by (simp add: cyc_def)

lemma cyc_0 [simp]: "cyc n buf h 0 = []"
  by (simp add: cyc_def)

lemma cyc_eq_Nil [simp]: "cyc n buf h c = [] \<longleftrightarrow> c = 0"
  by (simp add: cyc_def)

lemma cyc_mod [simp]: "cyc n buf (h mod n) c = cyc n buf h c"
  by (simp add: cyc_def mod_add_left_eq)

lemma cyc_cong_mod: "h mod n = h' mod n \<Longrightarrow> cyc n buf h c = cyc n buf h' c"
  by (metis cyc_mod)

lemma mod_add_less_inj: "(h + a) mod n = (h + b) mod n \<Longrightarrow> a < n \<Longrightarrow> b < n \<Longrightarrow> a = b"
  for a b h n :: nat
proof (induction a b rule: linorder_wlog)
  case (le a b)
  then have "(h + b - (h + a)) mod n = 0"
    by (metis add_le_mono1 add.commute mod_eq_dvd_iff_nat dvd_imp_mod_0)
  then have "(b - a) mod n = 0" by simp
  with le show ?case by auto
qed simp

lemma cyc_push:
  assumes "length buf = n" and "c < n"
  shows "cyc n (buf[(h + c) mod n := x]) h (Suc c) = cyc n buf h c @ [x]"
proof -
  have "buf[(h + c) mod n := x] ! ((h + k) mod n) = buf ! ((h + k) mod n)" if "k < c" for k
    using that assms mod_add_less_inj [of h k n c] by (metis less_trans nat_neq_iff nth_list_update_neq)
  then show ?thesis using assms by (simp add: cyc_def)
qed

lemma cyc_overwrite_newest:
  assumes "length buf = n" and "c \<le> n" and "0 < c"
  shows "cyc n (buf[(h + (c - 1)) mod n := x]) h c = butlast (cyc n buf h c) @ [x]"
proof -
  obtain d where d: "c = Suc d" using assms by (cases c) auto
  then have "cyc n (buf[(h + (c - 1)) mod n := x]) h c = cyc n buf h d @ [x]"
    using assms cyc_push [of buf n d h x] by simp
  then show ?thesis using d by (simp add: cyc_def butlast_map_upt)
qed

lemma cyc_pop: "0 < c \<Longrightarrow> cyc n buf (Suc h) (c - 1) = tl (cyc n buf h c)"
  by (cases c) (simp_all add: cyc_def map_upt_Suc_shift del: upt_Suc)

lemma cyc_hd: "0 < c \<Longrightarrow> hd (cyc n buf h c) = buf ! (h mod n)"
  by (cases c) (simp_all add: cyc_def map_upt_Suc_shift del: upt_Suc)

lemma nth_cyc: "k < c \<Longrightarrow> cyc n buf h c ! k = buf ! ((h + k) mod n)"
  by (simp add: cyc_def)

section \<open>Free-running byte indices\<close>

text \<open>
  A ring of \<open>n\<close> slots, \<open>n\<close> dividing 256, indexed by two free-running \<open>uint8_t\<close> counters
  that are masked on access: its contents are the slots from \<open>head\<close> to \<open>tail\<close>.
\<close>

definition ring_items :: "nat \<Rightarrow> 'a list \<Rightarrow> u8 \<Rightarrow> u8 \<Rightarrow> 'a list" where
  "ring_items n buf h t = cyc n buf (unat h) (unat (t - h))"

lemma length_ring_items [simp]: "length (ring_items n buf h t) = unat (t - h)"
  by (simp add: ring_items_def)

lemma ring_items_empty_iff: "ring_items n buf h t = [] \<longleftrightarrow> t = h"
  by (auto simp: ring_items_def unat_eq_0)

lemma ring_items_same [simp]: "ring_items n buf h h = []"
  by (simp add: ring_items_empty_iff)

lemma unat_tail_mod: "n dvd 256 \<Longrightarrow> unat (t :: u8) mod n = (unat h + unat (t - h)) mod n"
  by (metis mod_mod_cancel unat_tail_u8)

lemma ring_push:
  assumes "n dvd 256" and "length buf = n" and "unat (t - h) < n" and "n \<le> 128"
  shows "ring_items n (buf[unat t mod n := x]) h (t + 1) = ring_items n buf h t @ [x]"
proof -
  have "unat (t + 1 - h) = Suc (unat (t - h))"
    using assms by (intro unat_diff_inc_right) simp
  then show ?thesis
    using assms unat_tail_mod [of n t h] by (simp add: ring_items_def cyc_push)
qed

lemma ring_pop:
  assumes "n dvd 256" and "t \<noteq> h"
  shows "ring_items n buf (h + 1) t = tl (ring_items n buf h t)"
proof -
  have "unat (h + 1) mod n = Suc (unat h) mod n"
    using assms(1) by (simp add: unat_inc_u8 mod_mod_cancel)
  then have "cyc n buf (unat (h + 1)) (unat (t - (h + 1))) = cyc n buf (Suc (unat h)) (unat (t - h) - 1)"
    using assms(2) by (metis cyc_cong_mod unat_diff_inc_left)
  moreover have "0 < unat (t - h)" using assms(2) by (simp add: unat_gt_0)
  ultimately show ?thesis unfolding ring_items_def by (simp only: cyc_pop)
qed

lemma ring_hd: "t \<noteq> h \<Longrightarrow> hd (ring_items n buf h t) = buf ! (unat h mod n)"
  by (simp add: ring_items_def cyc_hd unat_gt_0)

lemma ring_overwrite_newest:
  assumes "n dvd 256" and "length buf = n" and "unat (t - h) \<le> n" and "t \<noteq> h"
  shows "ring_items n (buf[unat (t - 1) mod n := x]) h t = butlast (ring_items n buf h t) @ [x]"
proof -
  have pos: "0 < unat (t - h)" using assms(4) by (simp add: unat_gt_0)
  have "unat (t - 1 - h) = unat (t - h) - 1"
    using unat_minus_one [of "t - h"] assms(4) by (simp add: algebra_simps)
  then have "unat (t - 1) mod n = (unat h + (unat (t - h) - 1)) mod n"
    using unat_tail_mod [OF assms(1), of "t - 1" h] by simp
  then show ?thesis
    unfolding ring_items_def
    by (simp only: cyc_overwrite_newest [OF assms(2,3) pos])
qed

lemma unat_and_63: "unat (x AND 63 :: u8) = unat x mod 64"
proof -
  have "x AND 63 = take_bit 6 x" by (simp add: take_bit_eq_mask mask_eq_exp_minus_1)
  then show ?thesis by (simp add: unsigned_take_bit_eq) (simp add: take_bit_eq_mod)
qed

lemma unat_and_15: "unat (x AND 15 :: u8) = unat x mod 16"
proof -
  have "x AND 15 = take_bit 4 x" by (simp add: take_bit_eq_mask mask_eq_exp_minus_1)
  then show ?thesis by (simp add: unsigned_take_bit_eq) (simp add: take_bit_eq_mod)
qed

end
