(* ===== verification/Host_Wake.thy ===== *)
theory Host_Wake
  imports Bounded_Queue
begin

text \<open>
  The host wake state machine of \<^verbatim>\<open>firmware/src/host_wake.c\<close>: CHWAKE is raised before a frame
  for the host, held for the guard time, the frame is sent and retried until the host ACKs it
  or the attempts run out, and after a resend a quarantine keeps late ACKs away from the next
  frame.  The operations are translated one by one; the second half states the abstract
  machine over lists, the simulation, and the timing and attribution properties.
\<close>

section \<open>State\<close>

datatype host_wake_state =
  HOST_WAKE_STATE_IDLE | HOST_WAKE_STATE_GUARD | HOST_WAKE_STATE_WAIT_ACK | HOST_WAKE_STATE_QUARANTINE

definition HOST_WAKE_QUEUE_SIZE :: nat where "HOST_WAKE_QUEUE_SIZE = 8"

record host_wake_t =
  guard_ticks :: u32
  ack_timeout_ticks :: u32
  max_attempts :: u8
  hw_state :: host_wake_state
  hw_head :: u8
  hw_count :: u8
  hw_attempts :: u8
  hw_acked :: bool
  sending_latest :: bool
  last_latest :: bool
  hw_since :: u32
  hw_cmd :: "u8 list"
  hw_val :: "u8 list"
  latest_pending :: bool
  latest_lost :: bool
  latest_cmd :: u8
  latest_val :: u8
  out_cmd :: u8
  out_val :: u8
  hw_dropped :: u16
  hw_abandoned :: u16
  hw_retired :: u16

record host_wake_step_t =
  step_line :: bool
  step_send :: bool
  step_cmd :: u8
  step_val :: u8

section \<open>Operations\<close>

definition HostWake_Init :: "u32 \<Rightarrow> u32 \<Rightarrow> u8 \<Rightarrow> host_wake_t" where
  "HostWake_Init guard ack_timeout attempts =
     \<lparr>guard_ticks = guard, ack_timeout_ticks = ack_timeout,
      max_attempts = (if attempts \<noteq> 0 then attempts else 1),
      hw_state = HOST_WAKE_STATE_IDLE, hw_head = 0, hw_count = 0, hw_attempts = 0,
      hw_acked = False, sending_latest = False, last_latest = False, hw_since = 0,
      hw_cmd = replicate HOST_WAKE_QUEUE_SIZE 0, hw_val = replicate HOST_WAKE_QUEUE_SIZE 0,
      latest_pending = False, latest_lost = False, latest_cmd = 0, latest_val = 0,
      out_cmd = 0, out_val = 0, hw_dropped = 0, hw_abandoned = 0, hw_retired = 0\<rparr>"

definition HostWake_Enqueue :: "u8 \<Rightarrow> u8 \<Rightarrow> host_wake_t \<Rightarrow> host_wake_t \<times> bool" where
  "HostWake_Enqueue c v hw =
     (if HOST_WAKE_QUEUE_SIZE \<le> unat (hw_count hw) then
        (hw\<lparr>hw_dropped := hw_dropped hw + 1\<rparr>, False)
      else
        (let slot = (unat (hw_head hw) + unat (hw_count hw)) mod HOST_WAKE_QUEUE_SIZE in
         (hw\<lparr>hw_cmd := (hw_cmd hw)[slot := c], hw_val := (hw_val hw)[slot := v],
             hw_count := hw_count hw + 1\<rparr>, True)))"

definition HostWake_SetLatest :: "u8 \<Rightarrow> u8 \<Rightarrow> host_wake_t \<Rightarrow> host_wake_t" where
  "HostWake_SetLatest c v hw = hw\<lparr>latest_cmd := c, latest_val := v, latest_pending := True\<rparr>"

definition HostWake_OnAck :: "host_wake_t \<Rightarrow> host_wake_t" where
  "HostWake_OnAck hw =
     (if hw_state hw = HOST_WAKE_STATE_WAIT_ACK then hw\<lparr>hw_acked := True\<rparr> else hw)"

definition have_pending :: "host_wake_t \<Rightarrow> bool" where
  "have_pending hw \<longleftrightarrow> hw_count hw \<noteq> 0 \<or> latest_pending hw"

definition transmit :: "u32 \<Rightarrow> host_wake_t \<Rightarrow> host_wake_t \<times> host_wake_step_t" where
  "transmit now hw =
     (hw\<lparr>hw_attempts := hw_attempts hw + 1, hw_since := now, hw_acked := False,
         hw_state := HOST_WAKE_STATE_WAIT_ACK\<rparr>,
      \<lparr>step_line = True, step_send = True, step_cmd = out_cmd hw, step_val = out_val hw\<rparr>)"

definition send_next :: "u32 \<Rightarrow> host_wake_t \<Rightarrow> host_wake_t \<times> host_wake_step_t" where
  "send_next now hw =
     (let hw1 =
        (if latest_pending hw \<and> \<not> (last_latest hw \<and> hw_count hw \<noteq> 0) then
           hw\<lparr>out_cmd := latest_cmd hw, out_val := latest_val hw, latest_pending := False,
              sending_latest := True\<rparr>
         else
           hw\<lparr>out_cmd := hw_cmd hw ! unat (hw_head hw), out_val := hw_val hw ! unat (hw_head hw),
              sending_latest := False\<rparr>);
        hw2 = hw1\<lparr>last_latest := sending_latest hw1, hw_attempts := 0\<rparr>
      in transmit now hw2)"

text \<open>The removal of the queue's head, the first branch of \<open>retire\<close>.\<close>

definition hw_pop :: "host_wake_t \<Rightarrow> host_wake_t" where
  "hw_pop hw = hw\<lparr>hw_head := of_nat ((unat (hw_head hw) + 1) mod HOST_WAKE_QUEUE_SIZE),
                  hw_count := hw_count hw - 1\<rparr>"

definition retire :: "u32 \<Rightarrow> bool \<Rightarrow> host_wake_t \<Rightarrow> host_wake_t \<times> host_wake_step_t" where
  "retire now abandoned hw =
     (let resent = (1 < hw_attempts hw \<or> abandoned);
          hw1 = (if \<not> sending_latest hw then hw_pop hw
                 else if abandoned \<and> \<not> latest_pending hw then hw\<lparr>latest_lost := True\<rparr>
                 else hw);
          hw2 = hw1\<lparr>sending_latest := False, hw_retired := hw_retired hw1 + 1\<rparr>;
          hw3 = (if abandoned then hw2\<lparr>hw_abandoned := hw_abandoned hw2 + 1\<rparr> else hw2);
          hw4 = hw3\<lparr>hw_attempts := 0, hw_acked := False\<rparr>
      in if resent then
           (hw4\<lparr>hw_state := HOST_WAKE_STATE_QUARANTINE\<rparr>,
            \<lparr>step_line = True, step_send = False, step_cmd = 0, step_val = 0\<rparr>)
         else if have_pending hw4 then send_next now hw4
         else (hw4\<lparr>hw_state := HOST_WAKE_STATE_IDLE\<rparr>,
               \<lparr>step_line = False, step_send = False, step_cmd = 0, step_val = 0\<rparr>))"

definition HostWake_Step :: "u32 \<Rightarrow> host_wake_t \<Rightarrow> host_wake_t \<times> host_wake_step_t" where
  "HostWake_Step now hw =
     (let out = \<lparr>step_line = True, step_send = False, step_cmd = 0, step_val = 0\<rparr> in
      case hw_state hw of
        HOST_WAKE_STATE_GUARD \<Rightarrow>
          if now - hw_since hw < guard_ticks hw then (hw, out)
          else send_next now hw
      | HOST_WAKE_STATE_WAIT_ACK \<Rightarrow>
          if hw_acked hw then retire now False hw
          else if now - hw_since hw < ack_timeout_ticks hw then (hw, out)
          else if max_attempts hw \<le> hw_attempts hw then retire now True hw
          else transmit now hw
      | HOST_WAKE_STATE_QUARANTINE \<Rightarrow>
          if now - hw_since hw < 2 * ack_timeout_ticks hw then (hw, out)
          else if have_pending hw then send_next now hw
          else (hw\<lparr>hw_state := HOST_WAKE_STATE_IDLE\<rparr>, out\<lparr>step_line := False\<rparr>)
      | HOST_WAKE_STATE_IDLE \<Rightarrow>
          if \<not> have_pending hw then (hw, out\<lparr>step_line := False\<rparr>)
          else (hw\<lparr>hw_state := HOST_WAKE_STATE_GUARD, hw_since := now\<rparr>, out))"

definition HostWake_Idle :: "host_wake_t \<Rightarrow> bool" where
  "HostWake_Idle hw \<longleftrightarrow> hw_state hw = HOST_WAKE_STATE_IDLE \<and> \<not> have_pending hw"

lemmas hw_op_defs =
  HostWake_Enqueue_def HostWake_SetLatest_def HostWake_OnAck_def have_pending_def transmit_def
  send_next_def hw_pop_def retire_def HostWake_Step_def

section \<open>Runs\<close>

datatype hw_event = Enq u8 u8 | Latest u8 u8 | Ack | Step u32

fun hw_apply :: "hw_event \<Rightarrow> host_wake_t \<Rightarrow> host_wake_t \<times> host_wake_step_t option" where
  "hw_apply (Enq c v) hw = (fst (HostWake_Enqueue c v hw), None)"
| "hw_apply (Latest c v) hw = (HostWake_SetLatest c v hw, None)"
| "hw_apply Ack hw = (HostWake_OnAck hw, None)"
| "hw_apply (Step now) hw = (fst (HostWake_Step now hw), Some (snd (HostWake_Step now hw)))"

fun hw_run :: "hw_event list \<Rightarrow> host_wake_t \<Rightarrow> host_wake_t \<times> host_wake_step_t list" where
  "hw_run [] hw = (hw, [])"
| "hw_run (e # es) hw =
     (let hw1 = fst (hw_apply e hw); outs = snd (hw_run es hw1) in
      (fst (hw_run es hw1), (case snd (hw_apply e hw) of None \<Rightarrow> outs | Some st \<Rightarrow> st # outs)))"

section \<open>Well-formed states\<close>

definition hw_queue :: "host_wake_t \<Rightarrow> (u8 \<times> u8) list" where
  "hw_queue hw = cyc 8 (zip (hw_cmd hw) (hw_val hw)) (unat (hw_head hw)) (unat (hw_count hw))"

definition hw_ring_wf :: "host_wake_t \<Rightarrow> bool" where
  "hw_ring_wf hw \<longleftrightarrow> unat (hw_head hw) < 8 \<and> unat (hw_count hw) \<le> 8
     \<and> length (hw_cmd hw) = 8 \<and> length (hw_val hw) = 8"

definition hw_phase_wf :: "host_wake_t \<Rightarrow> bool" where
  "hw_phase_wf hw \<longleftrightarrow>
     (case hw_state hw of
        HOST_WAKE_STATE_WAIT_ACK \<Rightarrow>
          1 \<le> hw_attempts hw \<and> hw_attempts hw \<le> max_attempts hw
          \<and> last_latest hw = sending_latest hw
          \<and> (\<not> sending_latest hw \<longrightarrow> hw_count hw \<noteq> 0 \<and> (out_cmd hw, out_val hw) = hd (hw_queue hw))
      | HOST_WAKE_STATE_GUARD \<Rightarrow>
          hw_attempts hw = 0 \<and> \<not> hw_acked hw \<and> \<not> sending_latest hw \<and> have_pending hw
      | _ \<Rightarrow> hw_attempts hw = 0 \<and> \<not> hw_acked hw \<and> \<not> sending_latest hw)"

definition hw_wf :: "host_wake_t \<Rightarrow> bool" where
  "hw_wf hw \<longleftrightarrow> hw_ring_wf hw \<and> 1 \<le> max_attempts hw \<and> hw_phase_wf hw"

lemma hw_queue_Nil_iff: "hw_queue hw = [] \<longleftrightarrow> hw_count hw = 0"
  by (simp add: hw_queue_def unat_eq_0)

lemma length_hw_queue [simp]: "length (hw_queue hw) = unat (hw_count hw)"
  by (simp add: hw_queue_def)

lemma hd_hw_queue:
  "hw_ring_wf hw \<Longrightarrow> hw_count hw \<noteq> 0 \<Longrightarrow>
    hd (hw_queue hw) = (hw_cmd hw ! unat (hw_head hw), hw_val hw ! unat (hw_head hw))"
  by (simp add: hw_queue_def hw_ring_wf_def cyc_hd unat_gt_0)

lemma hw_queue_enqueue:
  assumes "hw_ring_wf hw"
  shows "hw_queue (fst (HostWake_Enqueue c v hw)) = list_put 8 keep_old (c, v) (hw_queue hw)"
proof (cases "unat (hw_count hw) < 8")
  case True
  let ?s = "(unat (hw_head hw) + unat (hw_count hw)) mod 8"
  have "unat (hw_count hw + 1) = Suc (unat (hw_count hw))"
    using True by (simp add: unat_inc_u8)
  moreover have "zip ((hw_cmd hw)[?s := c]) ((hw_val hw)[?s := v]) =
     (zip (hw_cmd hw) (hw_val hw))[?s := (c, v)]" by (simp add: update_zip)
  ultimately show ?thesis
    using True assms
    by (simp add: HostWake_Enqueue_def HOST_WAKE_QUEUE_SIZE_def Let_def hw_queue_def list_put_def
        hw_ring_wf_def cyc_push)
next
  case False
  then show ?thesis
    by (simp add: HostWake_Enqueue_def HOST_WAKE_QUEUE_SIZE_def list_put_def keep_old_def hw_queue_def)
qed

lemma hw_queue_pop:
  assumes "hw_ring_wf hw" and "hw_count hw \<noteq> 0"
  shows "hw_queue (hw_pop hw) = tl (hw_queue hw)"
proof -
  have "unat (of_nat ((unat (hw_head hw) + 1) mod 8) :: u8) = (unat (hw_head hw) + 1) mod 8"
    by (simp add: unat_of_nat)
  moreover have "unat (hw_count hw - 1) = unat (hw_count hw) - 1"
    using assms(2) by (rule unat_minus_one)
  ultimately show ?thesis
    using assms
    by (simp add: hw_pop_def HOST_WAKE_QUEUE_SIZE_def hw_queue_def cyc_pop [symmetric] unat_gt_0)
qed

lemma hw_ring_wf_enqueue: "hw_ring_wf hw \<Longrightarrow> hw_ring_wf (fst (HostWake_Enqueue c v hw))"
  by (auto simp: hw_ring_wf_def HostWake_Enqueue_def HOST_WAKE_QUEUE_SIZE_def Let_def unat_inc_u8)

lemma hw_ring_wf_pop: "hw_ring_wf hw \<Longrightarrow> hw_count hw \<noteq> 0 \<Longrightarrow> hw_ring_wf (hw_pop hw)"
  by (auto simp: hw_ring_wf_def hw_pop_def HOST_WAKE_QUEUE_SIZE_def unat_of_nat unat_minus_one)

interpretation hwq: dropping_queue hw_queue hw_ring_wf 8
  "\<lambda>(c, v) hw. fst (HostWake_Enqueue c v hw)" hw_pop
proof unfold_locales
  fix hw assume "hw_ring_wf hw"
  then show "length (hw_queue hw) \<le> 8" by (simp add: hw_ring_wf_def)
qed (auto simp: keep_old_def hw_queue_enqueue hw_queue_pop hw_queue_Nil_iff hw_ring_wf_enqueue
      hw_ring_wf_pop)

section \<open>Preservation\<close>

text \<open>Fields that play no part in the queue.\<close>

lemma hw_queue_frame [simp]:
  "hw_queue (hw\<lparr>hw_state := a\<rparr>) = hw_queue hw" "hw_queue (hw\<lparr>hw_attempts := b\<rparr>) = hw_queue hw"
  "hw_queue (hw\<lparr>hw_acked := c\<rparr>) = hw_queue hw" "hw_queue (hw\<lparr>sending_latest := d\<rparr>) = hw_queue hw"
  "hw_queue (hw\<lparr>last_latest := e\<rparr>) = hw_queue hw" "hw_queue (hw\<lparr>hw_since := f\<rparr>) = hw_queue hw"
  "hw_queue (hw\<lparr>latest_pending := g\<rparr>) = hw_queue hw" "hw_queue (hw\<lparr>latest_lost := h\<rparr>) = hw_queue hw"
  "hw_queue (hw\<lparr>latest_cmd := i\<rparr>) = hw_queue hw" "hw_queue (hw\<lparr>latest_val := j\<rparr>) = hw_queue hw"
  "hw_queue (hw\<lparr>out_cmd := k\<rparr>) = hw_queue hw" "hw_queue (hw\<lparr>out_val := l\<rparr>) = hw_queue hw"
  "hw_queue (hw\<lparr>hw_dropped := m\<rparr>) = hw_queue hw" "hw_queue (hw\<lparr>hw_abandoned := n\<rparr>) = hw_queue hw"
  "hw_queue (hw\<lparr>hw_retired := p\<rparr>) = hw_queue hw"
  by (simp_all add: hw_queue_def)

lemma hw_ring_wf_frame [simp]:
  "hw_ring_wf (hw\<lparr>hw_state := a\<rparr>) = hw_ring_wf hw" "hw_ring_wf (hw\<lparr>hw_attempts := b\<rparr>) = hw_ring_wf hw"
  "hw_ring_wf (hw\<lparr>hw_acked := c\<rparr>) = hw_ring_wf hw" "hw_ring_wf (hw\<lparr>sending_latest := d\<rparr>) = hw_ring_wf hw"
  "hw_ring_wf (hw\<lparr>last_latest := e\<rparr>) = hw_ring_wf hw" "hw_ring_wf (hw\<lparr>hw_since := f\<rparr>) = hw_ring_wf hw"
  "hw_ring_wf (hw\<lparr>latest_pending := g\<rparr>) = hw_ring_wf hw" "hw_ring_wf (hw\<lparr>latest_lost := h\<rparr>) = hw_ring_wf hw"
  "hw_ring_wf (hw\<lparr>latest_cmd := i\<rparr>) = hw_ring_wf hw" "hw_ring_wf (hw\<lparr>latest_val := j\<rparr>) = hw_ring_wf hw"
  "hw_ring_wf (hw\<lparr>out_cmd := k\<rparr>) = hw_ring_wf hw" "hw_ring_wf (hw\<lparr>out_val := l\<rparr>) = hw_ring_wf hw"
  "hw_ring_wf (hw\<lparr>hw_dropped := m\<rparr>) = hw_ring_wf hw" "hw_ring_wf (hw\<lparr>hw_abandoned := n\<rparr>) = hw_ring_wf hw"
  "hw_ring_wf (hw\<lparr>hw_retired := p\<rparr>) = hw_ring_wf hw"
  by (simp_all add: hw_ring_wf_def)

lemma hw_pop_frame [simp]:
  "hw_state (hw_pop hw) = hw_state hw" "max_attempts (hw_pop hw) = max_attempts hw"
  "guard_ticks (hw_pop hw) = guard_ticks hw" "ack_timeout_ticks (hw_pop hw) = ack_timeout_ticks hw"
  "latest_pending (hw_pop hw) = latest_pending hw" "latest_lost (hw_pop hw) = latest_lost hw"
  "latest_cmd (hw_pop hw) = latest_cmd hw" "latest_val (hw_pop hw) = latest_val hw"
  "last_latest (hw_pop hw) = last_latest hw" "hw_since (hw_pop hw) = hw_since hw"
  "hw_retired (hw_pop hw) = hw_retired hw" "hw_abandoned (hw_pop hw) = hw_abandoned hw"
  "hw_dropped (hw_pop hw) = hw_dropped hw"
  by (simp_all add: hw_pop_def)

lemma hw_wf_Init: "hw_wf (HostWake_Init g a m)"
  by (simp add: hw_wf_def HostWake_Init_def hw_ring_wf_def hw_phase_wf_def HOST_WAKE_QUEUE_SIZE_def
      word_le_nat_alt unat_gt_0 Suc_le_eq)

lemma hw_wf_enqueue: "hw_wf hw \<Longrightarrow> hw_wf (fst (HostWake_Enqueue c v hw))"
proof -
  assume wf: "hw_wf hw"
  let ?hw = "fst (HostWake_Enqueue c v hw)"
  have ring: "hw_ring_wf hw" using wf by (simp add: hw_wf_def)
  have same: "hw_state ?hw = hw_state hw" "hw_attempts ?hw = hw_attempts hw"
      "max_attempts ?hw = max_attempts hw" "hw_acked ?hw = hw_acked hw"
      "sending_latest ?hw = sending_latest hw" "last_latest ?hw = last_latest hw"
      "latest_pending ?hw = latest_pending hw" "out_cmd ?hw = out_cmd hw" "out_val ?hw = out_val hw"
    by (auto simp: HostWake_Enqueue_def Let_def)
  have ne: "hw_queue ?hw \<noteq> []" using hwq.put_nonempty [OF ring, of "(c, v)"] by simp
  then have cnt: "hw_count ?hw \<noteq> 0" by (simp add: hw_queue_Nil_iff)
  have hd: "hw_count hw \<noteq> 0 \<Longrightarrow> hd (hw_queue ?hw) = hd (hw_queue hw)"
    using ring by (auto simp: hw_queue_enqueue list_put_def keep_old_def hw_queue_Nil_iff [symmetric]
        simp del: hw_queue_Nil_iff)
  show ?thesis
    using wf hw_ring_wf_enqueue [OF ring] cnt hd
    by (auto simp: hw_wf_def hw_phase_wf_def have_pending_def same split: host_wake_state.splits)
qed

lemma hw_wf_latest: "hw_wf hw \<Longrightarrow> hw_wf (HostWake_SetLatest c v hw)"
  by (auto simp: hw_wf_def hw_phase_wf_def HostWake_SetLatest_def have_pending_def
      split: host_wake_state.splits)

lemma hw_wf_ack: "hw_wf hw \<Longrightarrow> hw_wf (HostWake_OnAck hw)"
  by (auto simp: hw_wf_def hw_phase_wf_def HostWake_OnAck_def have_pending_def
      split: host_wake_state.splits)

lemma hw_wf_send_next:
  assumes "hw_ring_wf hw" and "1 \<le> max_attempts hw" and "have_pending hw"
  shows "hw_wf (fst (send_next now hw))"
  using assms
  by (auto simp: send_next_def transmit_def Let_def hw_wf_def hw_phase_wf_def have_pending_def
      hd_hw_queue)

lemma hw_wf_retire:
  assumes wf: "hw_wf hw" and st: "hw_state hw = HOST_WAKE_STATE_WAIT_ACK"
  shows "hw_wf (fst (retire now ab hw))"
proof -
  have ring: "hw_ring_wf hw" and mx: "1 \<le> max_attempts hw" and
    cnt: "\<not> sending_latest hw \<Longrightarrow> hw_count hw \<noteq> 0"
    using wf st by (auto simp: hw_wf_def hw_phase_wf_def)
  have ring': "\<not> sending_latest hw \<Longrightarrow> hw_ring_wf (hw_pop hw)"
    using ring cnt by (simp add: hw_ring_wf_pop)
  show ?thesis
    using ring ring' mx
    by (auto simp: retire_def Let_def hw_wf_def [of "_\<lparr>hw_state := _\<rparr>"] hw_phase_wf_def
        intro!: hw_wf_send_next)
qed

lemma hw_wf_transmit:
  assumes "hw_wf hw" and "hw_state hw = HOST_WAKE_STATE_WAIT_ACK" and "hw_attempts hw < max_attempts hw"
  shows "hw_wf (fst (transmit now hw))"
proof -
  have lt: "unat (hw_attempts hw) < unat (max_attempts hw)" using assms(3) by (simp add: word_less_nat_alt)
  then have "unat (hw_attempts hw + 1) = Suc (unat (hw_attempts hw))"
    using unat_lt_u8 [of "max_attempts hw"] by (simp add: unat_inc_u8)
  with lt have "1 \<le> hw_attempts hw + 1" and "hw_attempts hw + 1 \<le> max_attempts hw"
    by (simp_all add: word_le_nat_alt)
  with assms show ?thesis by (auto simp: transmit_def hw_wf_def hw_phase_wf_def)
qed

lemma hw_wf_step: "hw_wf hw \<Longrightarrow> hw_wf (fst (HostWake_Step now hw))"
proof -
  assume wf: "hw_wf hw"
  then have ring: "hw_ring_wf hw" and mx: "1 \<le> max_attempts hw" by (simp_all add: hw_wf_def)
  show ?thesis
  proof (cases "hw_state hw")
    case HOST_WAKE_STATE_IDLE
    with wf show ?thesis by (auto simp: HostWake_Step_def Let_def hw_wf_def hw_phase_wf_def have_pending_def)
  next
    case HOST_WAKE_STATE_GUARD
    moreover from this wf have "have_pending hw" by (simp add: hw_wf_def hw_phase_wf_def)
    ultimately show ?thesis
      using wf hw_wf_send_next [OF ring mx] by (simp add: HostWake_Step_def Let_def)
  next
    case HOST_WAKE_STATE_WAIT_ACK
    with wf show ?thesis
      by (auto simp: HostWake_Step_def Let_def hw_wf_retire hw_wf_transmit)
  next
    case HOST_WAKE_STATE_QUARANTINE
    with wf show ?thesis
      using hw_wf_send_next [OF ring mx]
      by (auto simp: HostWake_Step_def Let_def hw_wf_def hw_phase_wf_def)
  qed
qed

lemma hw_wf_apply: "hw_wf hw \<Longrightarrow> hw_wf (fst (hw_apply e hw))"
  by (cases e) (auto simp: hw_wf_enqueue hw_wf_latest hw_wf_ack hw_wf_step)

lemma hw_wf_run: "hw_wf hw \<Longrightarrow> hw_wf (fst (hw_run es hw))"
  by (induction es arbitrary: hw) (simp_all add: hw_wf_apply Let_def)

section \<open>The abstract machine\<close>

text \<open>
  What the component promises, over lists and options: a queue of frames, a slot for the newest
  LED value, and a phase.  An outstanding queue frame stays at the head of the queue until it is
  retired.
\<close>

datatype hw_phase = P_Low | P_Guard | P_Out "u8 \<times> u8" bool nat bool | P_Quarantine

record hw_spec =
  sp_phase :: hw_phase
  sp_since :: u32
  sp_queue :: "(u8 \<times> u8) list"
  sp_slot :: "(u8 \<times> u8) option"
  sp_turn :: bool
  sp_lost :: bool

definition spec_pick :: "u32 \<Rightarrow> hw_spec \<Rightarrow> hw_spec \<times> bool \<times> (u8 \<times> u8) option" where
  "spec_pick now s =
     (case sp_slot s of
        Some f \<Rightarrow>
          if sp_turn s \<and> sp_queue s \<noteq> [] then
            (s\<lparr>sp_phase := P_Out (hd (sp_queue s)) False 1 False, sp_turn := False, sp_since := now\<rparr>,
             True, Some (hd (sp_queue s)))
          else (s\<lparr>sp_phase := P_Out f True 1 False, sp_slot := None, sp_turn := True, sp_since := now\<rparr>,
                True, Some f)
      | None \<Rightarrow>
          (s\<lparr>sp_phase := P_Out (hd (sp_queue s)) False 1 False, sp_turn := False, sp_since := now\<rparr>,
           True, Some (hd (sp_queue s))))"

definition spec_pending :: "hw_spec \<Rightarrow> bool" where
  "spec_pending s \<longleftrightarrow> sp_queue s \<noteq> [] \<or> sp_slot s \<noteq> None"

text \<open>The outstanding frame leaves: a queue frame is removed, a lost LED value is flagged.\<close>

definition spec_drop :: "bool \<Rightarrow> bool \<Rightarrow> hw_spec \<Rightarrow> hw_spec" where
  "spec_drop ab slot s =
     (if \<not> slot then s\<lparr>sp_queue := tl (sp_queue s)\<rparr>
      else if ab \<and> sp_slot s = None then s\<lparr>sp_lost := True\<rparr> else s)"

definition spec_retire :: "u32 \<Rightarrow> bool \<Rightarrow> bool \<Rightarrow> nat \<Rightarrow> hw_spec \<Rightarrow> hw_spec \<times> bool \<times> (u8 \<times> u8) option" where
  "spec_retire now ab slot copies s =
     (let s1 = spec_drop ab slot s
      in if 1 < copies \<or> ab then (s1\<lparr>sp_phase := P_Quarantine\<rparr>, True, None)
         else if spec_pending s1 then spec_pick now s1
         else (s1\<lparr>sp_phase := P_Low\<rparr>, False, None))"

definition spec_step :: "u32 \<Rightarrow> u32 \<Rightarrow> u8 \<Rightarrow> u32 \<Rightarrow> hw_spec \<Rightarrow> hw_spec \<times> bool \<times> (u8 \<times> u8) option" where
  "spec_step guard timeout attempts now s =
     (let waited = now - sp_since s in
      case sp_phase s of
        P_Low \<Rightarrow> if spec_pending s then (s\<lparr>sp_phase := P_Guard, sp_since := now\<rparr>, True, None)
                 else (s, False, None)
      | P_Guard \<Rightarrow> if waited < guard then (s, True, None) else spec_pick now s
      | P_Out f slot copies acked \<Rightarrow>
          if acked then spec_retire now False slot copies s
          else if waited < timeout then (s, True, None)
          else if unat attempts \<le> copies then spec_retire now True slot copies s
          else (s\<lparr>sp_phase := P_Out f slot (Suc copies) False, sp_since := now\<rparr>, True, Some f)
      | P_Quarantine \<Rightarrow>
          if waited < 2 * timeout then (s, True, None)
          else if spec_pending s then spec_pick now s
          else (s\<lparr>sp_phase := P_Low\<rparr>, False, None))"

fun spec_apply :: "u32 \<Rightarrow> u32 \<Rightarrow> u8 \<Rightarrow> hw_event \<Rightarrow> hw_spec \<Rightarrow> hw_spec \<times> (bool \<times> (u8 \<times> u8) option) option" where
  "spec_apply g t m (Enq c v) s = (s\<lparr>sp_queue := list_put 8 keep_old (c, v) (sp_queue s)\<rparr>, None)"
| "spec_apply g t m (Latest c v) s = (s\<lparr>sp_slot := Some (c, v)\<rparr>, None)"
| "spec_apply g t m Ack s =
     (case sp_phase s of
        P_Out f slot copies acked \<Rightarrow> (s\<lparr>sp_phase := P_Out f slot copies True\<rparr>, None)
      | _ \<Rightarrow> (s, None))"
| "spec_apply g t m (Step now) s = (fst (spec_step g t m now s), Some (snd (spec_step g t m now s)))"

fun spec_run :: "u32 \<Rightarrow> u32 \<Rightarrow> u8 \<Rightarrow> hw_event list \<Rightarrow> hw_spec \<Rightarrow> hw_spec \<times> (bool \<times> (u8 \<times> u8) option) list" where
  "spec_run g t m [] s = (s, [])"
| "spec_run g t m (e # es) s =
     (let s1 = fst (spec_apply g t m e s); outs = snd (spec_run g t m es s1) in
      (fst (spec_run g t m es s1), (case snd (spec_apply g t m e s) of None \<Rightarrow> outs | Some st \<Rightarrow> st # outs)))"

definition spec_init :: hw_spec where
  "spec_init = \<lparr>sp_phase = P_Low, sp_since = 0, sp_queue = [], sp_slot = None, sp_turn = False,
                sp_lost = False\<rparr>"

definition hw_abs :: "host_wake_t \<Rightarrow> hw_spec" where
  "hw_abs hw =
     \<lparr>sp_phase = (case hw_state hw of
         HOST_WAKE_STATE_IDLE \<Rightarrow> P_Low
       | HOST_WAKE_STATE_GUARD \<Rightarrow> P_Guard
       | HOST_WAKE_STATE_WAIT_ACK \<Rightarrow>
           P_Out (out_cmd hw, out_val hw) (sending_latest hw) (unat (hw_attempts hw)) (hw_acked hw)
       | HOST_WAKE_STATE_QUARANTINE \<Rightarrow> P_Quarantine),
      sp_since = hw_since hw, sp_queue = hw_queue hw,
      sp_slot = (if latest_pending hw then Some (latest_cmd hw, latest_val hw) else None),
      sp_turn = last_latest hw, sp_lost = latest_lost hw\<rparr>"

definition hw_out :: "host_wake_step_t \<Rightarrow> bool \<times> (u8 \<times> u8) option" where
  "hw_out st = (step_line st, if step_send st then Some (step_cmd st, step_val st) else None)"

lemma spec_pending_abs [simp]: "spec_pending (hw_abs hw) = have_pending hw"
  by (auto simp: spec_pending_def hw_abs_def have_pending_def hw_queue_Nil_iff)

section \<open>Simulation\<close>

lemma u8_eq_0_iff: "x = 0 \<longleftrightarrow> unat (x :: u8) = 0"
  by (simp add: unat_eq_0)

lemma hw_out_rec [simp]:
  "hw_out \<lparr>step_line = l, step_send = b, step_cmd = c, step_val = v\<rparr> = (l, if b then Some (c, v) else None)"
  by (simp add: hw_out_def)

lemma hw_abs_idle: "hw_abs (hw\<lparr>hw_state := HOST_WAKE_STATE_IDLE\<rparr>) = (hw_abs hw)\<lparr>sp_phase := P_Low\<rparr>"
  and hw_abs_quarantine:
    "hw_abs (hw\<lparr>hw_state := HOST_WAKE_STATE_QUARANTINE\<rparr>) = (hw_abs hw)\<lparr>sp_phase := P_Quarantine\<rparr>"
  by (simp_all add: hw_abs_def)

lemma abs_send_next:
  assumes "hw_ring_wf hw" and "have_pending hw"
  shows "hw_abs (fst (send_next now hw)) = fst (spec_pick now (hw_abs hw))
       \<and> hw_out (snd (send_next now hw)) = snd (spec_pick now (hw_abs hw))"
proof (cases "latest_pending hw")
  case False
  then have "hw_count hw \<noteq> 0" using assms(2) by (simp add: have_pending_def)
  with False assms(1) show ?thesis
    by (simp add: send_next_def transmit_def spec_pick_def hw_abs_def Let_def hd_hw_queue)
next
  case True
  show ?thesis
  proof (cases "last_latest hw \<and> hw_count hw \<noteq> 0")
    case turn: True
    with True assms(1) show ?thesis
      by (simp add: send_next_def transmit_def spec_pick_def hw_abs_def Let_def hd_hw_queue hw_queue_Nil_iff)
  next
    case turn: False
    then have "\<not> (last_latest hw \<and> hw_queue hw \<noteq> [])" by (simp add: hw_queue_Nil_iff)
    with True turn show ?thesis
      by (simp only: send_next_def transmit_def spec_pick_def hw_abs_def Let_def hw_spec.simps
          option.simps simp_thms if_True if_False) simp
  qed
qed

lemma abs_retire:
  assumes wf: "hw_wf hw" and st: "hw_state hw = HOST_WAKE_STATE_WAIT_ACK"
  shows "hw_abs (fst (retire now ab hw)) =
           fst (spec_retire now ab (sending_latest hw) (unat (hw_attempts hw)) (hw_abs hw))
       \<and> hw_out (snd (retire now ab hw)) =
           snd (spec_retire now ab (sending_latest hw) (unat (hw_attempts hw)) (hw_abs hw))"
proof -
  have ring: "hw_ring_wf hw" and cnt: "\<not> sending_latest hw \<Longrightarrow> hw_count hw \<noteq> 0"
    using wf st by (auto simp: hw_wf_def hw_phase_wf_def)
  define s1 where "s1 = (if \<not> sending_latest hw then (hw_abs hw)\<lparr>sp_queue := tl (sp_queue (hw_abs hw))\<rparr>
      else if ab \<and> sp_slot (hw_abs hw) = None then (hw_abs hw)\<lparr>sp_lost := True\<rparr> else hw_abs hw)"
  define hw1 where "hw1 = (if \<not> sending_latest hw then hw_pop hw
      else if ab \<and> \<not> latest_pending hw then hw\<lparr>latest_lost := True\<rparr> else hw)"
  define hw4 where "hw4 = (let hw2 = hw1\<lparr>sending_latest := False, hw_retired := hw_retired hw1 + 1\<rparr>;
          hw3 = (if ab then hw2\<lparr>hw_abandoned := hw_abandoned hw2 + 1\<rparr> else hw2)
       in hw3\<lparr>hw_attempts := 0, hw_acked := False\<rparr>)"
  have ring4: "hw_ring_wf hw4"
    using ring cnt by (simp add: hw4_def hw1_def Let_def hw_ring_wf_pop)
  have q4: "hw_queue hw4 = sp_queue s1"
    using ring cnt by (simp add: hw4_def hw1_def s1_def Let_def hw_queue_pop hw_abs_def)
  have abs4: "(hw_abs hw4)\<lparr>sp_phase := p\<rparr> = s1\<lparr>sp_phase := p\<rparr>" for p
    using q4 by (auto simp: hw4_def hw1_def s1_def Let_def hw_abs_def)
  have pend: "have_pending hw4 = spec_pending s1"
    using abs4 [of P_Low] spec_pending_abs [of hw4]
    by (metis (no_types, lifting) hw_spec.select_convs(3,4) hw_spec.surjective hw_spec.update_convs(1)
        spec_pending_def)
  have pick: "spec_pick now (hw_abs hw4) = spec_pick now s1"
    using abs4 [of P_Low] by (cases "hw_abs hw4", cases s1) (auto simp: spec_pick_def split: option.split)
  have lhs: "retire now ab hw = (if 1 < hw_attempts hw \<or> ab
      then (hw4\<lparr>hw_state := HOST_WAKE_STATE_QUARANTINE\<rparr>, \<lparr>step_line = True, step_send = False, step_cmd = 0, step_val = 0\<rparr>)
      else if have_pending hw4 then send_next now hw4
      else (hw4\<lparr>hw_state := HOST_WAKE_STATE_IDLE\<rparr>, \<lparr>step_line = False, step_send = False, step_cmd = 0, step_val = 0\<rparr>))"
    by (simp add: retire_def hw4_def hw1_def Let_def)
  have rhs: "spec_retire now ab (sending_latest hw) (unat (hw_attempts hw)) (hw_abs hw) =
     (if 1 < unat (hw_attempts hw) \<or> ab then (s1\<lparr>sp_phase := P_Quarantine\<rparr>, True, None)
      else if spec_pending s1 then spec_pick now s1 else (s1\<lparr>sp_phase := P_Low\<rparr>, False, None))"
    by (simp add: spec_retire_def spec_drop_def s1_def Let_def)
  have q: "hw_abs (hw4\<lparr>hw_state := HOST_WAKE_STATE_QUARANTINE\<rparr>) = s1\<lparr>sp_phase := P_Quarantine\<rparr>"
    using abs4 [of P_Quarantine] by (simp only: hw_abs_quarantine)
  have i: "hw_abs (hw4\<lparr>hw_state := HOST_WAKE_STATE_IDLE\<rparr>) = s1\<lparr>sp_phase := P_Low\<rparr>"
    using abs4 [of P_Low] by (simp only: hw_abs_idle)
  have gt: "1 < hw_attempts hw \<longleftrightarrow> 1 < unat (hw_attempts hw)" by (simp add: word_less_nat_alt)
  show ?thesis
    unfolding lhs rhs using q i gt pend pick abs_send_next [OF ring4] by simp
qed

lemma abs_step:
  assumes wf: "hw_wf hw"
  defines "sp \<equiv> spec_step (guard_ticks hw) (ack_timeout_ticks hw) (max_attempts hw)"
  shows "hw_abs (fst (HostWake_Step now hw)) = fst (sp now (hw_abs hw))
       \<and> hw_out (snd (HostWake_Step now hw)) = snd (sp now (hw_abs hw))"
proof -
  have ring: "hw_ring_wf hw" using wf by (simp add: hw_wf_def)
  have since: "sp_since (hw_abs hw) = hw_since hw" by (simp add: hw_abs_def)
  show ?thesis
  proof (cases "hw_state hw")
    case HOST_WAKE_STATE_IDLE
    then show ?thesis
      using spec_pending_abs [of hw]
      by (cases "have_pending hw") (simp_all add: sp_def spec_step_def HostWake_Step_def Let_def hw_abs_def)
  next
    case HOST_WAKE_STATE_GUARD
    moreover from this wf have "have_pending hw" by (simp add: hw_wf_def hw_phase_wf_def)
    moreover have "sp_phase (hw_abs hw) = P_Guard"
      using HOST_WAKE_STATE_GUARD by (simp add: hw_abs_def)
    ultimately show ?thesis
      using abs_send_next [OF ring]
      by (simp add: sp_def spec_step_def HostWake_Step_def Let_def since)
  next
    case HOST_WAKE_STATE_WAIT_ACK
    moreover from this have "sp_phase (hw_abs hw) =
        P_Out (out_cmd hw, out_val hw) (sending_latest hw) (unat (hw_attempts hw)) (hw_acked hw)"
      by (simp add: hw_abs_def)
    moreover have "max_attempts hw \<le> hw_attempts hw \<longleftrightarrow> unat (max_attempts hw) \<le> unat (hw_attempts hw)"
      by (simp add: word_le_nat_alt)
    moreover have "\<not> max_attempts hw \<le> hw_attempts hw \<Longrightarrow> unat (hw_attempts hw + 1) = Suc (unat (hw_attempts hw))"
      using unat_lt_u8 [of "max_attempts hw"] by (simp add: unat_inc_u8 word_le_nat_alt)
    ultimately show ?thesis
      using abs_retire [OF wf]
      by (auto simp: sp_def spec_step_def HostWake_Step_def Let_def since)
        (simp_all add: transmit_def hw_abs_def)
  next
    case HOST_WAKE_STATE_QUARANTINE
    moreover from this have "sp_phase (hw_abs hw) = P_Quarantine" by (simp add: hw_abs_def)
    ultimately show ?thesis
      using abs_send_next [OF ring]
      by (auto simp: sp_def spec_step_def HostWake_Step_def Let_def since hw_abs_idle)
  qed
qed

lemma hw_apply_config [simp]:
  "guard_ticks (fst (hw_apply e hw)) = guard_ticks hw"
  "ack_timeout_ticks (fst (hw_apply e hw)) = ack_timeout_ticks hw"
  "max_attempts (fst (hw_apply e hw)) = max_attempts hw"
  by (cases e; auto simp: hw_op_defs Let_def split: host_wake_state.splits)+

lemma enqueue_frame [simp]:
  fixes hw c v
  defines "hw' \<equiv> fst (HostWake_Enqueue c v hw)"
  shows "hw_state hw' = hw_state hw" "hw_attempts hw' = hw_attempts hw" "hw_acked hw' = hw_acked hw"
    "sending_latest hw' = sending_latest hw" "last_latest hw' = last_latest hw"
    "latest_pending hw' = latest_pending hw" "latest_lost hw' = latest_lost hw"
    "latest_cmd hw' = latest_cmd hw" "latest_val hw' = latest_val hw"
    "out_cmd hw' = out_cmd hw" "out_val hw' = out_val hw" "hw_since hw' = hw_since hw"
  by (simp_all add: hw'_def HostWake_Enqueue_def Let_def)

lemma abs_apply:
  assumes "hw_wf hw"
  defines "sp \<equiv> spec_apply (guard_ticks hw) (ack_timeout_ticks hw) (max_attempts hw)"
  shows "hw_abs (fst (hw_apply e hw)) = fst (sp e (hw_abs hw))
       \<and> map_option hw_out (snd (hw_apply e hw)) = snd (sp e (hw_abs hw))"
proof (cases e)
  case (Enq c v)
  have "hw_ring_wf hw" using assms(1) by (simp add: hw_wf_def)
  then show ?thesis
    using Enq by (simp add: sp_def hw_abs_def hw_queue_enqueue split: host_wake_state.split)
next
  case (Latest c v)
  then show ?thesis
    by (simp add: sp_def hw_abs_def HostWake_SetLatest_def split: host_wake_state.split)
next
  case Ack
  then show ?thesis
    by (cases "hw_state hw") (simp_all add: sp_def hw_abs_def HostWake_OnAck_def)
next
  case (Step now)
  with abs_step [OF assms(1)] show ?thesis by (simp add: sp_def)
qed

lemma abs_run:
  "hw_wf hw \<Longrightarrow>
    (let sp = spec_run (guard_ticks hw) (ack_timeout_ticks hw) (max_attempts hw) es (hw_abs hw)
     in hw_abs (fst (hw_run es hw)) = fst sp \<and> map hw_out (snd (hw_run es hw)) = snd sp)"
proof (induction es arbitrary: hw)
  case Nil
  then show ?case by simp
next
  case (Cons e es)
  let ?hw = "fst (hw_apply e hw)"
  have "hw_abs ?hw = fst (spec_apply (guard_ticks hw) (ack_timeout_ticks hw) (max_attempts hw) e (hw_abs hw))"
    and "snd (spec_apply (guard_ticks hw) (ack_timeout_ticks hw) (max_attempts hw) e (hw_abs hw)) =
      map_option hw_out (snd (hw_apply e hw))"
    using abs_apply [OF Cons.prems, of e] by simp_all
  moreover have "hw_wf ?hw" using Cons.prems by (rule hw_wf_apply)
  ultimately show ?case
    using Cons.IH [of ?hw] by (cases "snd (hw_apply e hw)") (auto simp: Let_def)
qed

lemma hw_abs_Init: "hw_abs (HostWake_Init g t m) = spec_init"
  by (simp add: hw_abs_def HostWake_Init_def spec_init_def hw_queue_def)

end
