(* ===== verification/Host_Wake_World.thy ===== *)
theory Host_Wake_World
  imports Host_Wake
begin

text \<open>
  The host wake machine in time: worlds that pair the machine with what an observer of the line
  and the wire records, invariants of the worlds proved on the abstract machine, and the
  properties of the component carried over to the C model by the simulation of
  \<^verbatim>\<open>Host_Wake\<close>.
\<close>

section \<open>Timed worlds\<close>

text \<open>
  The machine together with what an observer records: the true time (a natural number that never
  wraps), the level of CHWAKE and when it last rose, the serial number of the newest frame put on
  the wire, the copies of frames whose ACK may still arrive, the first sends in order (from the
  LED slot or the queue, whether the other of the two was waiting at that moment, and the frame),
  and the frames the queue accepted.  The host may ACK any copy it was sent, at most once each, within two
  ACK timeouts of that copy (the assumption \<^verbatim>\<open>host_wake.h\<close> states).
\<close>

record hw_ghost =
  g_time :: nat
  g_line :: bool
  g_raised :: nat
  g_serial :: nat
  g_live :: "(nat \<times> nat) list"
  g_sent :: "(bool \<times> bool \<times> (u8 \<times> u8)) list"
  g_accepted :: "(u8 \<times> u8) list"

definition ghost_step :: "nat \<Rightarrow> bool \<Rightarrow> (u8 \<times> u8) option \<Rightarrow> bool \<Rightarrow> bool \<Rightarrow> bool \<Rightarrow> hw_ghost \<Rightarrow> hw_ghost" where
  "ghost_step t line frame first slot waiting g =
     (let g1 = g\<lparr>g_time := t, g_line := line,
                 g_raised := (if line \<and> \<not> g_line g then t else g_raised g)\<rparr>
      in case frame of
           None \<Rightarrow> g1
         | Some f \<Rightarrow>
             (let n = (if first then Suc (g_serial g) else g_serial g) in
              g1\<lparr>g_serial := n, g_live := (n, t) # g_live g,
                 g_sent := (if first then g_sent g @ [(slot, waiting, f)] else g_sent g)\<rparr>))"

datatype world_event = W_Enq u8 u8 | W_Latest u8 u8 | W_Ack nat nat | W_Step nat

definition drop_nth :: "nat \<Rightarrow> 'a list \<Rightarrow> 'a list" where
  "drop_nth i xs = take i xs @ drop (Suc i) xs"

definition ghost_ack :: "nat \<Rightarrow> nat \<Rightarrow> nat \<Rightarrow> hw_ghost \<Rightarrow> bool" where
  "ghost_ack timeout dt i g \<longleftrightarrow>
     i < length (g_live g) \<and> g_time g + dt < snd (g_live g ! i) + 2 * timeout"

fun world_apply :: "world_event \<Rightarrow> host_wake_t \<times> hw_ghost \<Rightarrow> host_wake_t \<times> hw_ghost" where
  "world_apply (W_Enq c v) (hw, g) =
     (case HostWake_Enqueue c v hw of (hw', ok) \<Rightarrow>
        (hw', if ok then g\<lparr>g_accepted := g_accepted g @ [(c, v)]\<rparr> else g))"
| "world_apply (W_Latest c v) (hw, g) = (HostWake_SetLatest c v hw, g)"
| "world_apply (W_Ack dt i) (hw, g) =
     (if ghost_ack (unat (ack_timeout_ticks hw)) dt i g
      then (HostWake_OnAck hw, g\<lparr>g_time := g_time g + dt, g_live := drop_nth i (g_live g)\<rparr>)
      else (hw, g))"
| "world_apply (W_Step dt) (hw, g) =
     (let t = g_time g + dt; r = HostWake_Step (of_nat t) hw; hw' = fst r; out = hw_out (snd r) in
      (hw', ghost_step t (fst out) (snd out) (hw_attempts hw' = 1) (sending_latest hw')
              (if sending_latest hw' then hw_count hw' \<noteq> 0 else latest_pending hw') g))"

definition world_init :: "u32 \<Rightarrow> u32 \<Rightarrow> u8 \<Rightarrow> host_wake_t \<times> hw_ghost" where
  "world_init g t m = (HostWake_Init g t m,
     \<lparr>g_time = 0, g_line = False, g_raised = 0, g_serial = 0, g_live = [], g_sent = [], g_accepted = []\<rparr>)"

definition world_run :: "world_event list \<Rightarrow> host_wake_t \<times> hw_ghost \<Rightarrow> host_wake_t \<times> hw_ghost" where
  "world_run es w = fold world_apply es w"

text \<open>The same worlds over the abstract machine.\<close>

definition phase_first :: "hw_phase \<Rightarrow> bool" where
  "phase_first p = (case p of P_Out f sl c a \<Rightarrow> c = 1 | _ \<Rightarrow> False)"

definition phase_slot :: "hw_phase \<Rightarrow> bool" where
  "phase_slot p = (case p of P_Out f sl c a \<Rightarrow> sl | _ \<Rightarrow> False)"

fun sw_apply :: "u32 \<Rightarrow> u32 \<Rightarrow> u8 \<Rightarrow> world_event \<Rightarrow> hw_spec \<times> hw_ghost \<Rightarrow> hw_spec \<times> hw_ghost" where
  "sw_apply G T M (W_Enq c v) (s, g) =
     (s\<lparr>sp_queue := list_put 8 keep_old (c, v) (sp_queue s)\<rparr>,
      if length (sp_queue s) < 8 then g\<lparr>g_accepted := g_accepted g @ [(c, v)]\<rparr> else g)"
| "sw_apply G T M (W_Latest c v) (s, g) = (s\<lparr>sp_slot := Some (c, v)\<rparr>, g)"
| "sw_apply G T M (W_Ack dt i) (s, g) =
     (if ghost_ack (unat T) dt i g
      then (fst (spec_apply G T M Ack s), g\<lparr>g_time := g_time g + dt, g_live := drop_nth i (g_live g)\<rparr>)
      else (s, g))"
| "sw_apply G T M (W_Step dt) (s, g) =
     (let t = g_time g + dt; r = spec_step G T M (of_nat t) s; s' = fst r; out = snd r in
      (s', ghost_step t (fst out) (snd out) (phase_first (sp_phase s')) (phase_slot (sp_phase s'))
             (if phase_slot (sp_phase s') then sp_queue s' \<noteq> [] else sp_slot s' \<noteq> None) g))"

lemma spec_step_frame:
  "snd (snd (spec_step G T M now s)) = Some f \<Longrightarrow>
    \<exists>sl c a. sp_phase (fst (spec_step G T M now s)) = P_Out f sl c a"
  by (cases "sp_phase s")
    (auto simp: spec_step_def spec_retire_def spec_pick_def Let_def split: option.splits if_splits)

lemma hw_out_send: "snd (hw_out st) = (if step_send st then Some (step_cmd st, step_val st) else None)"
  by (simp add: hw_out_def)

lemma hw_out_line: "fst (hw_out st) = step_line st"
  by (simp add: hw_out_def)

lemma sw_simulates:
  assumes wf: "hw_wf hw"
  shows "sw_apply (guard_ticks hw) (ack_timeout_ticks hw) (max_attempts hw) e (hw_abs hw, g) =
     (hw_abs (fst (world_apply e (hw, g))), snd (world_apply e (hw, g)))"
proof (cases e)
  case (W_Enq c v)
  have "snd (HostWake_Enqueue c v hw) \<longleftrightarrow> unat (hw_count hw) < 8"
    by (auto simp: HostWake_Enqueue_def Let_def HOST_WAKE_QUEUE_SIZE_def)
  moreover have "sp_queue (hw_abs hw) = hw_queue hw" by (simp add: hw_abs_def)
  ultimately show ?thesis
    using W_Enq abs_apply [OF wf, of "Enq c v"] by (simp add: split_beta)
next
  case (W_Latest c v)
  then show ?thesis using abs_apply [OF wf, of "Latest c v"] by simp
next
  case (W_Ack dt i)
  then show ?thesis using abs_apply [OF wf, of Ack] by simp
next
  case (W_Step dt)
  let ?t = "of_nat (g_time g + dt) :: u32"
  let ?hw = "fst (HostWake_Step ?t hw)"
  note st = abs_step [OF wf, of ?t]
  have q: "sp_queue (hw_abs ?hw) \<noteq> [] \<longleftrightarrow> hw_count ?hw \<noteq> 0"
    "sp_slot (hw_abs ?hw) \<noteq> None \<longleftrightarrow> latest_pending ?hw"
    by (simp_all add: hw_abs_def hw_queue_Nil_iff)
  show ?thesis
  proof (cases "snd (hw_out (snd (HostWake_Step ?t hw)))")
    case None
    with W_Step st show ?thesis by (simp add: Let_def ghost_step_def)
  next
    case (Some f)
    with st spec_step_frame obtain sl c a where "sp_phase (hw_abs ?hw) = P_Out f sl c a" by metis
    then have "hw_state ?hw = HOST_WAKE_STATE_WAIT_ACK" and "c = unat (hw_attempts ?hw)"
      and "sl = sending_latest ?hw"
      by (auto simp: hw_abs_def split: host_wake_state.splits)
    moreover have "hw_attempts ?hw = 1 \<longleftrightarrow> unat (hw_attempts ?hw) = 1"
      by (metis unat_1 word_unat_eq_iff)
    ultimately show ?thesis
      using W_Step st q \<open>sp_phase (hw_abs ?hw) = P_Out f sl c a\<close>
      by (simp add: Let_def phase_first_def phase_slot_def)
  qed
qed

lemma world_apply_wf: "hw_wf hw \<Longrightarrow> hw_wf (fst (world_apply e (hw, g)))"
  using hw_wf_enqueue [of hw]
  by (cases e) (auto simp: hw_wf_latest hw_wf_ack hw_wf_step Let_def split_beta)

lemma world_apply_config [simp]:
  "guard_ticks (fst (world_apply e (hw, g))) = guard_ticks hw"
  "ack_timeout_ticks (fst (world_apply e (hw, g))) = ack_timeout_ticks hw"
  "max_attempts (fst (world_apply e (hw, g))) = max_attempts hw"
  using hw_apply_config [of "Step _" hw]
  by (cases e; auto simp: hw_op_defs Let_def split_beta simp del: hw_apply_config
      split: host_wake_state.splits)+

section \<open>Invariants of the worlds\<close>

lemma waited_ge:
  assumes "\<not> of_nat t - of_nat b < (G :: u32)" and "b \<le> t"
  shows "b + unat G \<le> t"
proof -
  have "of_nat t - of_nat b = (of_nat (t - b) :: u32)" using assms(2) by (simp add: of_nat_diff)
  then have "unat G \<le> (t - b) mod 2 ^ 32"
    using assms(1) by (simp add: not_less word_le_nat_alt unat_of_nat)
  also have "\<dots> \<le> t - b" by simp
  finally show ?thesis using assms(2) by simp
qed

text \<open>How a step moves: the cases every invariant goes through.\<close>

lemma spec_pick_cases:
  obtains (slot) f where "sp_slot s = Some f" "\<not> (sp_turn s \<and> sp_queue s \<noteq> [])"
      "spec_pick now s = (s\<lparr>sp_phase := P_Out f True 1 False, sp_slot := None, sp_turn := True,
         sp_since := now\<rparr>, True, Some f)"
  | (queue) "sp_slot s = None \<or> sp_turn s"
      "spec_pick now s = (s\<lparr>sp_phase := P_Out (hd (sp_queue s)) False 1 False, sp_turn := False,
         sp_since := now\<rparr>, True, Some (hd (sp_queue s)))"
      "sp_slot s = None \<or> sp_queue s \<noteq> []"
  by (cases "sp_slot s"; cases "sp_turn s \<and> sp_queue s \<noteq> []") (auto simp: spec_pick_def)

text \<open>When the next frame may go out, or the line may drop, and the state it is decided in.\<close>

definition spec_ready :: "u32 \<Rightarrow> u32 \<Rightarrow> u32 \<Rightarrow> hw_spec \<Rightarrow> hw_spec \<Rightarrow> bool" where
  "spec_ready G T now s s0 \<longleftrightarrow>
     (case sp_phase s of
        P_Low \<Rightarrow> False
      | P_Guard \<Rightarrow> \<not> now - sp_since s < G \<and> s0 = s
      | P_Out f sl c a \<Rightarrow> a \<and> c \<le> 1 \<and> s0 = spec_drop False sl s
      | P_Quarantine \<Rightarrow> \<not> now - sp_since s < 2 * T \<and> s0 = s)"

definition spec_waits :: "u32 \<Rightarrow> u32 \<Rightarrow> u32 \<Rightarrow> hw_spec \<Rightarrow> bool" where
  "spec_waits G T now s \<longleftrightarrow>
     (case sp_phase s of
        P_Low \<Rightarrow> False
      | P_Guard \<Rightarrow> now - sp_since s < G
      | P_Out f sl c a \<Rightarrow> \<not> a \<and> now - sp_since s < T
      | P_Quarantine \<Rightarrow> now - sp_since s < 2 * T)"

lemma spec_step_cases:
  obtains (quiet) "sp_phase s = P_Low" "\<not> spec_pending s" "spec_step G T M now s = (s, False, None)"
  | (wait) "spec_waits G T now s" "spec_step G T M now s = (s, True, None)"
  | (rise) "sp_phase s = P_Low" "spec_pending s"
      "spec_step G T M now s = (s\<lparr>sp_phase := P_Guard, sp_since := now\<rparr>, True, None)"
  | (pick) s0 where "spec_ready G T now s s0" "sp_phase s = P_Guard \<or> spec_pending s0"
      "spec_step G T M now s = spec_pick now s0"
  | (resend) f sl c where "sp_phase s = P_Out f sl c False" "\<not> now - sp_since s < T" "c < unat M"
      "spec_step G T M now s = (s\<lparr>sp_phase := P_Out f sl (Suc c) False, sp_since := now\<rparr>, True, Some f)"
  | (hold) f sl c a where "sp_phase s = P_Out f sl c a"
      "a \<and> 1 < c \<or> \<not> a \<and> \<not> now - sp_since s < T \<and> unat M \<le> c"
      "spec_step G T M now s = ((spec_drop (\<not> a) sl s)\<lparr>sp_phase := P_Quarantine\<rparr>, True, None)"
  | (lower) s0 where "spec_ready G T now s s0" "sp_phase s \<noteq> P_Guard" "\<not> spec_pending s0"
      "spec_step G T M now s = (s0\<lparr>sp_phase := P_Low\<rparr>, False, None)"
proof (cases "sp_phase s")
  case P_Low
  with that(1,3) show ?thesis by (cases "spec_pending s") (simp_all add: spec_step_def)
next
  case P_Guard
  with that(2,4) show ?thesis
    by (cases "now - sp_since s < G") (simp_all add: spec_step_def spec_waits_def spec_ready_def)
next
  case (P_Out f sl c a)
  show ?thesis
  proof (cases a)
    case True
    with P_Out that(4,6,7) show ?thesis
      by (cases "1 < c"; cases "spec_pending (spec_drop False sl s)")
        (simp_all add: spec_step_def spec_retire_def spec_ready_def Let_def)
  next
    case False
    with P_Out that(2,5,6) show ?thesis
      by (cases "now - sp_since s < T"; cases "c < unat M")
        (simp_all add: spec_step_def spec_retire_def spec_waits_def Let_def)
  qed
next
  case P_Quarantine
  with that(2,4,7) show ?thesis
    by (cases "now - sp_since s < 2 * T"; cases "spec_pending s")
      (simp_all add: spec_step_def spec_waits_def spec_ready_def)
qed

lemma spec_drop_frame [simp]:
  "sp_phase (spec_drop ab sl s) = sp_phase s" "sp_since (spec_drop ab sl s) = sp_since s"
  "sp_slot (spec_drop ab sl s) = sp_slot s" "sp_turn (spec_drop ab sl s) = sp_turn s"
  "sp_queue (spec_drop ab sl s) = (if sl then sp_queue s else tl (sp_queue s))"
  by (simp_all add: spec_drop_def)

subsection \<open>The guard time\<close>

definition sw_guard :: "u32 \<Rightarrow> hw_spec \<times> hw_ghost \<Rightarrow> bool" where
  "sw_guard G w \<longleftrightarrow>
     g_line (snd w) = (sp_phase (fst w) \<noteq> P_Low)
     \<and> (case sp_phase (fst w) of
          P_Low \<Rightarrow> True
        | P_Guard \<Rightarrow> sp_since (fst w) = of_nat (g_raised (snd w)) \<and> g_raised (snd w) \<le> g_time (snd w)
        | _ \<Rightarrow> g_raised (snd w) + unat G \<le> g_time (snd w))"

lemma ghost_step_frame [simp]:
  "g_time (ghost_step t l fr a b c g) = t" "g_line (ghost_step t l fr a b c g) = l"
  "g_raised (ghost_step t l fr a b c g) = (if l \<and> \<not> g_line g then t else g_raised g)"
  "g_accepted (ghost_step t l fr a b c g) = g_accepted g"
  "g_serial (ghost_step t l fr a b c g) = (if fr \<noteq> None \<and> a then Suc (g_serial g) else g_serial g)"
  by (cases fr; simp add: ghost_step_def Let_def)+

lemma ghost_step_live [simp]:
  "g_live (ghost_step t l fr a b c g) =
     (if fr = None then g_live g else (if a then Suc (g_serial g) else g_serial g, t) # g_live g)"
  by (cases fr) (simp_all add: ghost_step_def Let_def)

lemma ghost_step_sent [simp]:
  "g_sent (ghost_step t l fr a b c g) =
     (case fr of Some f \<Rightarrow> if a then g_sent g @ [(b, c, f)] else g_sent g | None \<Rightarrow> g_sent g)"
  by (cases fr) (simp_all add: ghost_step_def Let_def)

lemma phase_simps [simp]:
  "phase_first P_Low = False" "phase_first P_Guard = False" "phase_first P_Quarantine = False"
  "phase_first (P_Out f sl c a) = (c = 1)"
  "phase_slot P_Low = False" "phase_slot P_Guard = False" "phase_slot P_Quarantine = False"
  "phase_slot (P_Out f sl c a) = sl"
  by (simp_all add: phase_first_def phase_slot_def)

lemma spec_pick_phase:
  "\<exists>f sl. sp_phase (fst (spec_pick now s)) = P_Out f sl 1 False \<and> snd (spec_pick now s) = (True, Some f)
     \<and> sp_since (fst (spec_pick now s)) = now"
  by (rule spec_pick_cases [where s = s and now = now]) auto

lemma sw_guard_step:
  assumes inv: "sw_guard G (s, g)" and le: "g_time g \<le> t"
  shows "sw_guard G (fst (spec_step G T M (of_nat t) s),
     ghost_step t (fst (snd (spec_step G T M (of_nat t) s))) (snd (snd (spec_step G T M (of_nat t) s))) a b c g)"
proof (cases rule: spec_step_cases [of s G T M "of_nat t"])
  case (pick s0)
  have "g_line g \<and> g_raised g + unat G \<le> t"
  proof (cases "sp_phase s")
    case P_Guard
    with pick inv le show ?thesis
      by (auto simp: sw_guard_def spec_ready_def intro!: waited_ge)
  qed (use pick inv le in \<open>auto simp: sw_guard_def spec_ready_def\<close>)
  moreover obtain f sl where "sp_phase (fst (spec_pick (of_nat t) s0)) = P_Out f sl 1 False"
    and "snd (spec_pick (of_nat t) s0) = (True, Some f)"
    using spec_pick_phase by blast
  ultimately show ?thesis using pick(3) by (simp add: sw_guard_def)
next
  case wait
  with inv le show ?thesis by (auto simp: sw_guard_def spec_waits_def split: hw_phase.splits)
next
  case (hold f sl c a)
  with inv le show ?thesis by (simp add: sw_guard_def)
qed (use inv le in \<open>simp_all add: sw_guard_def\<close>)

lemma sw_guard_send:
  assumes "sw_guard G (s, g)" and "g_time g \<le> t" and "r = spec_step G T M (of_nat t) s"
    and "snd (snd r) = Some f"
  shows "g_line g \<and> g_raised g + unat G \<le> t \<and> fst (snd r)"
proof -
  have "sw_guard G (fst r, ghost_step t (fst (snd r)) (snd (snd r)) True True True g)"
    unfolding assms(3) by (rule sw_guard_step [OF assms(1,2)])
  moreover obtain sl c a where "sp_phase (fst r) = P_Out f sl c a"
    using spec_step_frame assms(3,4) by metis
  moreover have "sp_phase s \<noteq> P_Low"
  proof
    assume "sp_phase s = P_Low"
    then have "snd (snd r) = None" using assms(3) by (simp add: spec_step_def)
    with assms(4) show False by simp
  qed
  then have "g_line g" using assms(1) by (simp add: sw_guard_def)
  ultimately show ?thesis by (simp add: sw_guard_def)
qed

lemma sw_guard_apply: "sw_guard G (s, g) \<Longrightarrow> sw_guard G (sw_apply G T M e (s, g))"
proof (cases e)
  case (W_Step dt)
  then show "sw_guard G (s, g) \<Longrightarrow> ?thesis" using sw_guard_step [of G s g "g_time g + dt"] by (simp add: Let_def del: of_nat_add)
qed (auto simp: sw_guard_def split: hw_phase.splits)

subsection \<open>Order and alternation\<close>

text \<open>
  The queue frames sent so far followed by those still waiting are the accepted ones; the frame
  on the wire is the newest one sent; and two sends in a row come from the same side only when
  the other side had nothing waiting.
\<close>

definition queue_sends :: "hw_ghost \<Rightarrow> (u8 \<times> u8) list" where
  "queue_sends g = map (\<lambda>x. snd (snd x)) (filter (\<lambda>x. \<not> fst x) (g_sent g))"

fun alternating :: "(bool \<times> bool \<times> 'a) list \<Rightarrow> bool" where
  "alternating (x # y # zs) = ((fst x = fst y \<longrightarrow> \<not> fst (snd y)) \<and> alternating (y # zs))"
| "alternating zs = True"

lemma alternating_snoc:
  "alternating (xs @ [y]) \<longleftrightarrow>
     alternating xs \<and> (xs \<noteq> [] \<longrightarrow> fst (last xs) = fst y \<longrightarrow> \<not> fst (snd y))"
  by (induction xs rule: alternating.induct) auto

definition sw_order :: "hw_spec \<times> hw_ghost \<Rightarrow> bool" where
  "sw_order w \<longleftrightarrow>
     (case sp_phase (fst w) of
        P_Out f sl c a \<Rightarrow>
          1 \<le> c \<and> g_sent (snd w) \<noteq> [] \<and> fst (last (g_sent (snd w))) = sl
          \<and> snd (snd (last (g_sent (snd w)))) = f
          \<and> (if sl then queue_sends (snd w) @ sp_queue (fst w) = g_accepted (snd w)
             else sp_queue (fst w) \<noteq> [] \<and> hd (sp_queue (fst w)) = f
               \<and> queue_sends (snd w) @ tl (sp_queue (fst w)) = g_accepted (snd w))
      | p \<Rightarrow> queue_sends (snd w) @ sp_queue (fst w) = g_accepted (snd w)
            \<and> (p = P_Guard \<longrightarrow> spec_pending (fst w)))
     \<and> (g_sent (snd w) \<noteq> [] \<longrightarrow> sp_turn (fst w) = fst (last (g_sent (snd w))))
     \<and> alternating (g_sent (snd w)) \<and> g_serial (snd w) = length (g_sent (snd w))"

lemma queue_sends_step:
  "queue_sends (ghost_step t l fr a b c g) =
     (case fr of Some f \<Rightarrow> if a \<and> \<not> b then queue_sends g @ [f] else queue_sends g | None \<Rightarrow> queue_sends g)"
  by (cases fr) (simp_all add: queue_sends_def)

lemma queue_sends_frame [simp]:
  "queue_sends (g\<lparr>g_accepted := x\<rparr>) = queue_sends g" "queue_sends (g\<lparr>g_time := y\<rparr>) = queue_sends g"
  "queue_sends (g\<lparr>g_live := z\<rparr>) = queue_sends g"
  by (simp_all add: queue_sends_def)

lemma sw_order_ready:
  assumes "sw_order (s, g)" and "spec_ready G T now s s0"
  shows "queue_sends g @ sp_queue s0 = g_accepted g \<and> sp_turn s0 = sp_turn s"
  using assms by (auto simp: sw_order_def spec_ready_def split: hw_phase.splits if_splits)

lemma sw_order_pick:
  assumes "queue_sends g @ sp_queue s0 = g_accepted g" and "spec_pending s0"
    and "g_sent g \<noteq> [] \<longrightarrow> sp_turn s0 = fst (last (g_sent g))"
    and "alternating (g_sent g)" and "g_serial g = length (g_sent g)"
    and "r = spec_pick now s0" and "sl = phase_slot (sp_phase (fst r))"
  shows "sw_order (fst r, ghost_step t (fst (snd r)) (snd (snd r)) True sl
     (if sl then sp_queue (fst r) \<noteq> [] else sp_slot (fst r) \<noteq> None) g)"
proof (rule spec_pick_cases [where s = s0 and now = now])
  fix f assume "sp_slot s0 = Some f" and "\<not> (sp_turn s0 \<and> sp_queue s0 \<noteq> [])"
    and "spec_pick now s0 = (s0\<lparr>sp_phase := P_Out f True 1 False, sp_slot := None, sp_turn := True,
         sp_since := now\<rparr>, True, Some f)"
  with assms show ?thesis
    by (auto simp: sw_order_def queue_sends_step alternating_snoc)
next
  assume none: "sp_slot s0 = None \<or> sp_turn s0" and q: "sp_slot s0 = None \<or> sp_queue s0 \<noteq> []"
    and r: "spec_pick now s0 = (s0\<lparr>sp_phase := P_Out (hd (sp_queue s0)) False 1 False, sp_turn := False,
         sp_since := now\<rparr>, True, Some (hd (sp_queue s0)))"
  from q assms(2) have "sp_queue s0 \<noteq> []" by (auto simp: spec_pending_def)
  then obtain y ys where "sp_queue s0 = y # ys" by (cases "sp_queue s0") auto
  with assms none r show ?thesis
    by (auto simp: sw_order_def queue_sends_step alternating_snoc)
qed

lemma sw_order_step:
  assumes inv: "sw_order (s, g)" and r: "r = spec_step G T M now s"
  shows "sw_order (fst r, ghost_step t (fst (snd r)) (snd (snd r)) (phase_first (sp_phase (fst r)))
     (phase_slot (sp_phase (fst r)))
     (if phase_slot (sp_phase (fst r)) then sp_queue (fst r) \<noteq> [] else sp_slot (fst r) \<noteq> None) g)"
proof (cases rule: spec_step_cases [of s G T M now])
  case (pick s0)
  note rd = sw_order_ready [OF inv pick(1)]
  have pend: "spec_pending s0"
    using pick(1,2) inv by (auto simp: spec_ready_def sw_order_def split: hw_phase.splits)
  have "phase_first (sp_phase (fst (spec_pick now s0)))" using spec_pick_phase [of now s0] by auto
  then show ?thesis
    using sw_order_pick [of g s0 r now _ t, OF _ pend] rd inv r pick(3) by (auto simp: sw_order_def)
next
  case (lower s0)
  then show ?thesis
    using inv r sw_order_ready [OF inv lower(1)] by (simp add: sw_order_def queue_sends_step split: hw_phase.splits)
next
  case (hold f sl c a)
  then show ?thesis using inv r by (auto simp: sw_order_def queue_sends_step split: if_splits)
next
  case wait
  then show ?thesis
    using inv r by (auto simp: sw_order_def queue_sends_step spec_waits_def split: hw_phase.splits)
qed (use inv r in \<open>auto simp: sw_order_def queue_sends_step spec_pending_def\<close>)

lemma sw_order_apply: "sw_order (s, g) \<Longrightarrow> sw_order (sw_apply G T M e (s, g))"
proof (cases e)
  case (W_Step dt)
  then show "sw_order (s, g) \<Longrightarrow> ?thesis"
    using sw_order_step [OF _ refl] by (simp add: Let_def del: of_nat_add)
next
  case (W_Enq c v)
  then show "sw_order (s, g) \<Longrightarrow> ?thesis"
    by (cases "sp_queue s") (auto simp: sw_order_def list_put_def keep_old_def spec_pending_def split: hw_phase.splits if_splits)
next
  case (W_Latest c v)
  then show "sw_order (s, g) \<Longrightarrow> ?thesis"
    by (auto simp: sw_order_def spec_pending_def split: hw_phase.splits)
next
  case (W_Ack dt i)
  then show "sw_order (s, g) \<Longrightarrow> ?thesis"
    by (cases "sp_phase s") (auto simp: sw_order_def spec_pending_def)
qed

subsection \<open>Whose ACK it is\<close>

text \<open>
  Copies whose ACK may still arrive: while a frame is outstanding every one of them is a copy of
  that frame, or too old to be answered any more; at rest and in the guard all are too old.  The
  copies of the outstanding frame, and its ACK if it came, are never more than its sends.
\<close>

definition stale :: "u32 \<Rightarrow> nat \<Rightarrow> nat \<Rightarrow> bool" where
  "stale T now t \<longleftrightarrow> t + 2 * unat T \<le> now"

definition own_copies :: "hw_ghost \<Rightarrow> nat" where
  "own_copies g = length (filter (\<lambda>x. fst x = g_serial g) (g_live g))"

definition sw_live :: "u32 \<Rightarrow> hw_spec \<times> hw_ghost \<Rightarrow> bool" where
  "sw_live T w \<longleftrightarrow>
     (\<forall>x \<in> set (g_live (snd w)). fst x \<le> g_serial (snd w))
     \<and> (case sp_phase (fst w) of
          P_Out f sl c a \<Rightarrow>
            (\<exists>b \<le> g_time (snd w). sp_since (fst w) = of_nat b \<and> (\<forall>x \<in> set (g_live (snd w)). snd x \<le> b))
            \<and> (\<forall>x \<in> set (g_live (snd w)). fst x = g_serial (snd w) \<or> stale T (g_time (snd w)) (snd x))
            \<and> 1 \<le> c \<and> own_copies (snd w) + (if a then 1 else 0) \<le> c
        | P_Quarantine \<Rightarrow>
            (\<exists>b \<le> g_time (snd w). sp_since (fst w) = of_nat b \<and> (\<forall>x \<in> set (g_live (snd w)). snd x \<le> b))
        | _ \<Rightarrow> \<forall>x \<in> set (g_live (snd w)). stale T (g_time (snd w)) (snd x))"

lemma stale_mono: "stale T a t \<Longrightarrow> a \<le> b \<Longrightarrow> stale T b t"
  by (simp add: stale_def)

lemma own_copies_zero: "own_copies g = 0 \<Longrightarrow> x \<in> set (g_live g) \<Longrightarrow> fst x \<noteq> g_serial g"
  by (auto simp: own_copies_def filter_empty_conv)

lemma own_copies_frame [simp]:
  "own_copies (g\<lparr>g_accepted := x\<rparr>) = own_copies g" "own_copies (g\<lparr>g_time := y\<rparr>) = own_copies g"
  by (simp_all add: own_copies_def)

lemma own_copies_step:
  "\<forall>x \<in> set (g_live g). fst x \<le> g_serial g \<Longrightarrow>
    own_copies (ghost_step t l fr a b c g) =
     (if fr = None then own_copies g else if a then 1 else Suc (own_copies g))"
  by (cases fr) (auto simp: own_copies_def ghost_step_def Let_def filter_empty_conv)

lemma sw_live_ready:
  assumes inv: "sw_live T (s, g)" and rd: "spec_ready G T (of_nat t) s s0"
    and T: "unat T < 2 ^ 31" and le: "g_time g \<le> t"
  shows "\<forall>x \<in> set (g_live g). stale T t (snd x)"
proof (cases "sp_phase s")
  case P_Low
  with rd show ?thesis by (simp add: spec_ready_def)
next
  case P_Guard
  with inv le show ?thesis by (auto simp: sw_live_def intro: stale_mono)
next
  case (P_Out f sl c a)
  with rd have "a" and "c \<le> 1" by (simp_all add: spec_ready_def)
  with P_Out inv have "own_copies g = 0" by (simp add: sw_live_def)
  with P_Out inv le show ?thesis
    by (auto simp: sw_live_def dest: own_copies_zero intro: stale_mono)
next
  case P_Quarantine
  with inv obtain b where b: "b \<le> g_time g" "sp_since s = of_nat b" "\<forall>x \<in> set (g_live g). snd x \<le> b"
    by (auto simp: sw_live_def)
  have "unat (2 * T) = 2 * unat T" using T by (simp add: unat_word_ariths)
  moreover have "b + unat (2 * T) \<le> t"
    using P_Quarantine rd b(1,2) le by (intro waited_ge) (simp_all add: spec_ready_def)
  ultimately show ?thesis using b(3) by (fastforce simp: stale_def)
qed

text \<open>Nothing sent: time alone keeps the invariant.\<close>

lemma sw_live_later:
  assumes inv: "sw_live T (s, g)" and le: "g_time g \<le> t"
  shows "sw_live T (s, ghost_step t l None a b c g)"
proof -
  have own: "own_copies (ghost_step t l None a b c g) = own_copies g"
    by (simp add: own_copies_def)
  show ?thesis
  proof (cases "sp_phase s")
    case (P_Out f sl n k)
    have "\<forall>x \<in> set (g_live g). fst x = g_serial g \<or> stale T t (snd x)"
      using inv P_Out le by (auto simp: sw_live_def intro: stale_mono)
    then show ?thesis using P_Out inv own le by (simp add: sw_live_def) (metis le_trans)
  next
    case P_Quarantine
    with inv le show ?thesis by (simp add: sw_live_def) (metis le_trans)
  qed (use inv le in \<open>auto simp: sw_live_def intro: stale_mono\<close>)
qed

lemma sw_live_resend:
  assumes inv: "sw_live T (s, g)" and p: "sp_phase s = P_Out f sl n k" and le: "g_time g \<le> t"
  shows "sw_live T (s\<lparr>sp_phase := P_Out f sl (Suc n) False, sp_since := of_nat t\<rparr>,
     ghost_step t l (Some f) False b c g)"
proof -
  have ser: "\<forall>x \<in> set (g_live g). fst x \<le> g_serial g" using inv by (simp add: sw_live_def)
  have "\<forall>x \<in> set (g_live g). fst x = g_serial g \<or> stale T t (snd x)"
    using inv p le by (auto simp: sw_live_def intro: stale_mono)
  moreover have "\<forall>x \<in> set (g_live g). snd x \<le> t" using inv p le by (fastforce simp: sw_live_def)
  moreover have "own_copies g \<le> n" using inv p by (simp add: sw_live_def)
  ultimately show ?thesis
    using ser own_copies_step [OF ser] by (simp add: sw_live_def) (metis order_refl)
qed

lemma sw_live_send:
  assumes ser: "\<forall>x \<in> set (g_live g). fst x \<le> g_serial g" and old: "\<forall>x \<in> set (g_live g). stale T t (snd x)"
    and s: "sp_phase s = P_Out f sl 1 False" "sp_since s = of_nat t"
  shows "sw_live T (s, ghost_step t l (Some f) True b c g)"
proof -
  have "\<forall>x \<in> set (g_live g). snd x \<le> t" using old by (auto simp: stale_def)
  then show ?thesis
    using s old ser own_copies_step [OF ser] by (simp add: sw_live_def le_SucI) (metis order_refl)
qed

lemma sw_live_step:
  assumes inv: "sw_live T (s, g)" and T: "unat T < 2 ^ 31" and le: "g_time g \<le> t"
    and r: "r = spec_step G T M (of_nat t) s" and fst: "a = phase_first (sp_phase (fst r))"
  shows "sw_live T (fst r, ghost_step t (fst (snd r)) (snd (snd r)) a b c g)"
proof (cases rule: spec_step_cases [of s G T M "of_nat t"])
  case (pick s0)
  have old: "\<forall>x \<in> set (g_live g). stale T t (snd x)" by (rule sw_live_ready [OF inv pick(1) T le])
  obtain f sl where p: "sp_phase (fst r) = P_Out f sl 1 False" "snd r = (True, Some f)"
    "sp_since (fst r) = of_nat t"
    using spec_pick_phase [of "of_nat t" s0] pick(3) r by auto
  have "\<forall>x \<in> set (g_live g). fst x \<le> g_serial g" using inv by (simp add: sw_live_def)
  with old p fst show ?thesis by (simp add: sw_live_send)
next
  case (lower s0)
  then show ?thesis
    using sw_live_ready [OF inv lower(1) T le] inv r by (simp add: sw_live_def)
next
  case (resend f sl n)
  moreover have "1 \<le> n" using resend(1) inv by (simp add: sw_live_def)
  ultimately show ?thesis using r fst sw_live_resend [OF inv resend(1) le] by simp
next
  case (hold f sl n k)
  with inv obtain b where "b \<le> g_time g" "sp_since s = of_nat b" "\<forall>x \<in> set (g_live g). snd x \<le> b"
    by (auto simp: sw_live_def)
  with hold inv le r show ?thesis by (auto simp: sw_live_def intro!: exI [of _ b])
next
  case wait
  with r show ?thesis using sw_live_later [OF inv le] by simp
next
  case quiet
  with r show ?thesis using sw_live_later [OF inv le] by simp
next
  case rise
  with inv le r show ?thesis by (auto simp: sw_live_def intro: stale_mono)
qed

lemma set_drop_nth: "set (drop_nth i xs) \<subseteq> set xs"
  by (auto simp: drop_nth_def dest: in_set_takeD in_set_dropD)

lemma filter_drop_nth:
  "i < length xs \<Longrightarrow> length (filter P xs) = length (filter P (drop_nth i xs)) + (if P (xs ! i) then 1 else 0)"
  by (subst id_take_nth_drop [of i xs]) (auto simp: drop_nth_def)

lemma sw_live_own:
  assumes "sw_live T (s, g)" and "ghost_ack (unat T) dt i g" and "sp_phase s = P_Out f sl c a"
  shows "fst (g_live g ! i) = g_serial g"
  using assms by (fastforce simp: sw_live_def ghost_ack_def stale_def)

lemma sw_live_ack:
  assumes inv: "sw_live T (s, g)" and ack: "ghost_ack (unat T) dt i g"
  shows "sw_live T (fst (spec_apply G T M Ack s), g\<lparr>g_time := g_time g + dt, g_live := drop_nth i (g_live g)\<rparr>)"
proof -
  let ?g = "g\<lparr>g_time := g_time g + dt, g_live := drop_nth i (g_live g)\<rparr>"
  have sub: "x \<in> set (g_live g)" if "x \<in> set (drop_nth i (g_live g))" for x
    using that set_drop_nth by fastforce
  show ?thesis
  proof (cases "sp_phase s")
    case (P_Out f sl c a)
    have "own_copies g = Suc (own_copies ?g)"
      using filter_drop_nth [of i "g_live g" "\<lambda>x. fst x = g_serial g"] ack sw_live_own [OF inv ack P_Out]
      by (simp add: own_copies_def ghost_ack_def)
    then have "own_copies ?g + 1 \<le> c" and "1 \<le> c" using P_Out inv by (simp_all add: sw_live_def)
    moreover obtain b where "b \<le> g_time g" "sp_since s = of_nat b" "\<forall>x \<in> set (g_live g). snd x \<le> b"
      using inv P_Out by (auto simp: sw_live_def)
    moreover have "\<forall>x \<in> set (g_live g). fst x = g_serial g \<or> stale T (g_time g + dt) (snd x)"
      using inv P_Out by (auto simp: sw_live_def intro: stale_mono)
    moreover have "\<forall>x \<in> set (g_live g). fst x \<le> g_serial g" using inv by (simp add: sw_live_def)
    ultimately show ?thesis
      using P_Out sub by (simp add: sw_live_def) (metis trans_le_add1)
  next
    case P_Quarantine
    with inv obtain b where "b \<le> g_time g" "sp_since s = of_nat b" "\<forall>x \<in> set (g_live g). snd x \<le> b"
      by (auto simp: sw_live_def)
    moreover have "\<forall>x \<in> set (g_live g). fst x \<le> g_serial g" using inv by (simp add: sw_live_def)
    ultimately show ?thesis
      using P_Quarantine sub by (simp add: sw_live_def) (metis trans_le_add1)
  next
    case P_Low
    with inv have "\<forall>x \<in> set (g_live g). fst x \<le> g_serial g \<and> stale T (g_time g + dt) (snd x)"
      by (auto simp: sw_live_def intro: stale_mono)
    with P_Low sub show ?thesis by (simp add: sw_live_def)
  next
    case P_Guard
    with inv have "\<forall>x \<in> set (g_live g). fst x \<le> g_serial g \<and> stale T (g_time g + dt) (snd x)"
      by (auto simp: sw_live_def intro: stale_mono)
    with P_Guard sub show ?thesis by (simp add: sw_live_def)
  qed
qed

lemma sw_live_apply:
  assumes "sw_live T (s, g)" and "unat T < 2 ^ 31"
  shows "sw_live T (sw_apply G T M e (s, g))"
proof (cases e)
  case (W_Step dt)
  then show ?thesis
    using sw_live_step [OF assms _ refl refl, of "g_time g + dt"] by (simp add: Let_def del: of_nat_add)
next
  case (W_Ack dt i)
  then show ?thesis using assms sw_live_ack by simp
qed (use assms in \<open>auto simp: sw_live_def split: hw_phase.splits\<close>)

subsection \<open>How long it takes\<close>

text \<open>
  An absolute deadline: \<open>d\<close> is the longest gap between two polls, a frame costs at most
  \<open>frame_cost\<close> ticks, its resends and the quarantine included.
\<close>

definition frame_cost :: "nat \<Rightarrow> u32 \<Rightarrow> u8 \<Rightarrow> nat" where
  "frame_cost d T M = (unat M + 1) * (unat T + d)"

definition sp_frames :: "hw_spec \<Rightarrow> nat" where
  "sp_frames s = length (sp_queue s) + (if sp_slot s = None then 0 else 1)"

definition sw_deadline :: "nat \<Rightarrow> u32 \<Rightarrow> u32 \<Rightarrow> u8 \<Rightarrow> nat \<Rightarrow> nat \<Rightarrow> hw_spec \<Rightarrow> bool" where
  "sw_deadline d G T M D t s \<longleftrightarrow>
     (case sp_phase s of
        P_Low \<Rightarrow> spec_pending s \<longrightarrow> t + unat G + 2 * d + sp_frames s * frame_cost d T M \<le> D
      | P_Guard \<Rightarrow> spec_pending s \<and>
          (\<exists>b. sp_since s = of_nat b \<and> b \<le> t \<and> t \<le> b + unat G
             \<and> b + unat G + d + sp_frames s * frame_cost d T M \<le> D)
      | P_Out f sl c a \<Rightarrow> 1 \<le> c \<and> c \<le> unat M \<and> (sl \<or> sp_queue s \<noteq> []) \<and>
          (\<exists>b. sp_since s = of_nat b \<and> b \<le> t \<and> t \<le> b + unat T
             \<and> b + (unat M - c) * (unat T + d) + 2 * (unat T + d)
                 + (sp_frames s - (if sl then 0 else 1)) * frame_cost d T M \<le> D)
      | P_Quarantine \<Rightarrow>
          (\<exists>b. sp_since s = of_nat b \<and> b \<le> t \<and> t \<le> b + 2 * unat T + d
             \<and> b + 2 * (unat T + d) + sp_frames s * frame_cost d T M \<le> D))"

lemma waited_lt:
  assumes "of_nat t - of_nat b < (G :: u32)" and "b \<le> t" and "t - b < 2 ^ 32"
  shows "t < b + unat G"
proof -
  have "of_nat t - of_nat b = (of_nat (t - b) :: u32)" using assms(2) by (simp add: of_nat_diff)
  then have "t - b < unat G"
    using assms(1,3) by (simp add: word_less_nat_alt unat_of_nat)
  then show ?thesis using assms(2) by simp
qed

lemma sp_frames_drop: "sl \<or> sp_queue s \<noteq> [] \<Longrightarrow>
    sp_frames (spec_drop ab sl s) = sp_frames s - (if sl then 0 else 1)"
  by (auto simp: sp_frames_def)

text \<open>A send in time starts a frame that ends in time.\<close>

lemma deadline_pick:
  assumes pend: "spec_pending s" and M: "1 \<le> unat M"
    and D: "t + sp_frames s * frame_cost d T M \<le> D"
  shows "sw_deadline d G T M D t (fst (spec_pick (of_nat t) s))"
proof -
  have cost: "frame_cost d T M = (unat M - 1) * (unat T + d) + 2 * (unat T + d)"
  proof -
    obtain m where "unat M = Suc m" using M by (cases "unat M") auto
    then show ?thesis by (simp add: frame_cost_def algebra_simps)
  qed
  have pos: "0 < sp_frames s" using pend by (auto simp: spec_pending_def sp_frames_def)
  then have split: "sp_frames s * frame_cost d T M = (sp_frames s - 1) * frame_cost d T M + frame_cost d T M"
    by (metis Suc_pred' mult_Suc add.commute)
  have goal: "t + ((unat M - 1) * (unat T + d) + 2 * (unat T + d)) + (sp_frames s - 1) * frame_cost d T M \<le> D"
    using D split cost by simp
  show ?thesis
  proof (rule spec_pick_cases [where s = s and now = "of_nat t"])
    fix f assume f: "sp_slot s = Some f" and "\<not> (sp_turn s \<and> sp_queue s \<noteq> [])"
      and r: "spec_pick (of_nat t) s = (s\<lparr>sp_phase := P_Out f True 1 False, sp_slot := None, sp_turn := True,
         sp_since := of_nat t\<rparr>, True, Some f)"
    have "sp_frames (fst (spec_pick (of_nat t) s)) = sp_frames s - 1" using r f by (simp add: sp_frames_def)
    with r goal M show ?thesis by (auto simp: sw_deadline_def intro!: exI [of _ t])
  next
    assume "sp_slot s = None \<or> sp_queue s \<noteq> []"
      and r: "spec_pick (of_nat t) s = (s\<lparr>sp_phase := P_Out (hd (sp_queue s)) False 1 False, sp_turn := False,
         sp_since := of_nat t\<rparr>, True, Some (hd (sp_queue s)))"
    moreover have "sp_frames (fst (spec_pick (of_nat t) s)) = sp_frames s" using r by (simp add: sp_frames_def)
    ultimately show ?thesis
      using goal M pend by (auto simp: sw_deadline_def spec_pending_def intro!: exI [of _ t])
  qed
qed

lemma deadline_ready:
  assumes dl: "sw_deadline d G T M D t s" and rd: "spec_ready G T (of_nat t') s s0"
    and dt: "t' \<le> t + d" and M: "1 \<le> unat M"
  shows "t' + sp_frames s0 * frame_cost d T M \<le> D"
proof (cases "sp_phase s")
  case (P_Out f sl c a)
  with dl obtain b where "t \<le> b + unat T" and sl: "sl \<or> sp_queue s \<noteq> []"
    and "b + (unat M - c) * (unat T + d) + 2 * (unat T + d)
           + (sp_frames s - (if sl then 0 else 1)) * frame_cost d T M \<le> D"
    by (auto simp: sw_deadline_def)
  moreover have "sp_frames s0 = sp_frames s - (if sl then 0 else 1)"
    using P_Out rd sp_frames_drop [OF sl] by (simp add: spec_ready_def)
  ultimately show ?thesis using dt by simp
qed (use dl rd dt in \<open>auto simp: sw_deadline_def spec_ready_def\<close>)

lemma deadline_wait:
  assumes dl: "sw_deadline d G T M D t s" and w: "spec_waits G T (of_nat t') s"
    and dt: "t \<le> t'" "t' \<le> t + d" and big: "unat G + d < 2 ^ 32" "2 * (unat T + d) < 2 ^ 32"
  shows "sw_deadline d G T M D t' s"
proof (cases "sp_phase s")
  case P_Low
  with w show ?thesis by (simp add: spec_waits_def)
next
  case P_Guard
  with dl obtain b where b: "sp_since s = of_nat b" "b \<le> t" "t \<le> b + unat G"
    "b + unat G + d + sp_frames s * frame_cost d T M \<le> D" and "spec_pending s"
    by (auto simp: sw_deadline_def)
  moreover have "t' < b + unat G"
    using w P_Guard b(1-3) dt big(1) by (intro waited_lt) (simp_all add: spec_waits_def)
  ultimately show ?thesis using P_Guard dt by (auto simp: sw_deadline_def intro!: exI [of _ b])
next
  case (P_Out f sl c a)
  with dl obtain b where b: "sp_since s = of_nat b" "b \<le> t" "t \<le> b + unat T"
    "b + (unat M - c) * (unat T + d) + 2 * (unat T + d)
       + (sp_frames s - (if sl then 0 else 1)) * frame_cost d T M \<le> D"
    and "1 \<le> c" "c \<le> unat M" "sl \<or> sp_queue s \<noteq> []"
    by (auto simp: sw_deadline_def)
  moreover have "t' < b + unat T"
    using w P_Out b(1-3) dt big(2) by (intro waited_lt) (simp_all add: spec_waits_def)
  ultimately show ?thesis using P_Out dt by (auto simp: sw_deadline_def intro!: exI [of _ b])
next
  case P_Quarantine
  with dl obtain b where b: "sp_since s = of_nat b" "b \<le> t" "t \<le> b + 2 * unat T + d"
    "b + 2 * (unat T + d) + sp_frames s * frame_cost d T M \<le> D"
    by (auto simp: sw_deadline_def)
  have "unat (2 * T) = 2 * unat T" using big(2) by (simp add: unat_word_ariths)
  moreover have "t' < b + unat (2 * T)"
    using w P_Quarantine b(1-3) dt big(2) by (intro waited_lt) (simp_all add: spec_waits_def)
  ultimately show ?thesis using P_Quarantine b dt by (auto simp: sw_deadline_def intro!: exI [of _ b])
qed

lemma deadline_step:
  assumes dl: "sw_deadline d G T M D t s" and dt: "t \<le> t'" "t' \<le> t + d"
    and big: "unat G + d < 2 ^ 32" "2 * (unat T + d) < 2 ^ 32" and M: "1 \<le> unat M"
  shows "sw_deadline d G T M D t' (fst (spec_step G T M (of_nat t') s))"
proof (cases rule: spec_step_cases [of s G T M "of_nat t'"])
  case wait
  then show ?thesis using deadline_wait [OF dl wait(1) dt big] by simp
next
  case rise
  with dl dt show ?thesis
    by (auto simp: sw_deadline_def spec_pending_def sp_frames_def intro!: exI [of _ t'])
next
  case (pick s0)
  have "spec_pending s0"
    using pick(1,2) dl by (auto simp: sw_deadline_def spec_ready_def split: hw_phase.splits)
  with pick show ?thesis
    using deadline_pick [OF _ M deadline_ready [OF dl pick(1) dt(2) M]] by simp
next
  case (resend f sl c)
  with dl obtain b where b: "t \<le> b + unat T" "1 \<le> c" "sl \<or> sp_queue s \<noteq> []"
    "b + (unat M - c) * (unat T + d) + 2 * (unat T + d)
       + (sp_frames s - (if sl then 0 else 1)) * frame_cost d T M \<le> D"
    by (auto simp: sw_deadline_def)
  have "unat M - c = Suc (unat M - Suc c)" using resend(3) by simp
  then have "(unat M - c) * (unat T + d) = (unat M - Suc c) * (unat T + d) + (unat T + d)" by simp
  moreover have "sp_frames (s\<lparr>sp_phase := P_Out f sl (Suc c) False, sp_since := of_nat t'\<rparr>) = sp_frames s"
    by (simp add: sp_frames_def)
  ultimately show ?thesis
    using resend b dt by (auto simp: sw_deadline_def intro!: exI [of _ t'])
next
  case (hold f sl c a)
  with dl obtain b where b: "sp_since s = of_nat b" "b \<le> t" "t \<le> b + unat T" and sl: "sl \<or> sp_queue s \<noteq> []"
    and D: "b + (unat M - c) * (unat T + d) + 2 * (unat T + d)
       + (sp_frames s - (if sl then 0 else 1)) * frame_cost d T M \<le> D"
    by (auto simp: sw_deadline_def)
  have "sp_frames ((spec_drop (\<not> a) sl s)\<lparr>sp_phase := P_Quarantine\<rparr>) = sp_frames s - (if sl then 0 else 1)"
    using sp_frames_drop [OF sl, of "\<not> a"] by (simp add: sp_frames_def)
  moreover have "b + 2 * (unat T + d) + (sp_frames s - (if sl then 0 else 1)) * frame_cost d T M \<le> D"
    using D by simp
  moreover have "b \<le> t'" and "t' \<le> b + 2 * unat T + d" using b dt by simp_all
  ultimately show ?thesis
    using hold(3) b(1) by (auto simp: sw_deadline_def intro!: exI [of _ b])
next
  case (lower s0)
  then show ?thesis by (auto simp: sw_deadline_def spec_pending_def)
next
  case quiet
  then show ?thesis by (simp add: sw_deadline_def)
qed

lemma deadline_ack:
  "sw_deadline d G T M D t s \<Longrightarrow> sw_deadline d G T M D t (fst (spec_apply G T M Ack s))"
  by (cases "sp_phase s") (auto simp: sw_deadline_def sp_frames_def)

lemma deadline_over: "sw_deadline d G T M D t s \<Longrightarrow> D < t \<Longrightarrow> sp_phase s = P_Low \<and> \<not> spec_pending s"
  by (cases "sp_phase s") (auto simp: sw_deadline_def)

section \<open>Transfer to the C model\<close>

lemma world_apply_transfer:
  assumes "hw_wf hw" and "P (hw_abs hw, g)"
    and "\<And>s g e. P (s, g) \<Longrightarrow> P (sw_apply (guard_ticks hw) (ack_timeout_ticks hw) (max_attempts hw) e (s, g))"
  shows "P (hw_abs (fst (world_apply e (hw, g))), snd (world_apply e (hw, g)))"
  using assms by (metis sw_simulates)

lemma world_run_transfer:
  assumes "hw_wf hw" and "P (hw_abs hw, g)"
    and "\<And>s g e. P (s, g) \<Longrightarrow> P (sw_apply (guard_ticks hw) (ack_timeout_ticks hw) (max_attempts hw) e (s, g))"
  shows "P (hw_abs (fst (world_run es (hw, g))), snd (world_run es (hw, g)))
       \<and> hw_wf (fst (world_run es (hw, g)))
       \<and> guard_ticks (fst (world_run es (hw, g))) = guard_ticks hw
       \<and> ack_timeout_ticks (fst (world_run es (hw, g))) = ack_timeout_ticks hw
       \<and> max_attempts (fst (world_run es (hw, g))) = max_attempts hw"
  using assms
proof (induction es arbitrary: hw g)
  case Nil
  then show ?case by (simp add: world_run_def)
next
  case (Cons e es)
  let ?w = "world_apply e (hw, g)"
  have "hw_wf (fst ?w)" using Cons.prems(1) by (rule world_apply_wf)
  moreover have "P (hw_abs (fst ?w), snd ?w)"
    using Cons.prems by (rule world_apply_transfer)
  ultimately show ?case
    using Cons.IH [of "fst ?w" "snd ?w"] Cons.prems(3) by (simp add: world_run_def)
qed

lemma init_ghost_inv:
  "sw_guard G (spec_init, snd (world_init a b c))" "sw_order (spec_init, snd (world_init a b c))"
  "sw_live T (spec_init, snd (world_init a b c))"
  by (simp_all add: sw_guard_def sw_order_def sw_live_def world_init_def spec_init_def queue_sends_def)

lemma HostWake_Init_config [simp]:
  "guard_ticks (HostWake_Init G T M) = G" "ack_timeout_ticks (HostWake_Init G T M) = T"
  by (simp_all add: HostWake_Init_def)

lemma world_init_fst [simp]: "fst (world_init G T M) = HostWake_Init G T M"
  by (simp add: world_init_def)

lemma world_reach:
  assumes run: "world_run es (world_init G T M) = (hw, g)"
  shows "hw_wf hw" and "sw_guard G (hw_abs hw, g)" and "sw_order (hw_abs hw, g)"
    and "unat T < 2 ^ 31 \<Longrightarrow> sw_live T (hw_abs hw, g)"
    and "guard_ticks hw = G" and "ack_timeout_ticks hw = T"
proof -
  let ?g = "snd (world_init G T M)" and ?hw = "HostWake_Init G T M"
  have run': "world_run es (?hw, ?g) = (hw, g)" using run by (metis prod.collapse world_init_fst)
  note tr = world_run_transfer [OF hw_wf_Init, of _ G T M ?g es, unfolded run' hw_abs_Init
      HostWake_Init_config fst_conv snd_conv]
  show "hw_wf hw" and "sw_guard G (hw_abs hw, g)" and "guard_ticks hw = G" and "ack_timeout_ticks hw = T"
    using tr [of "sw_guard G"] init_ghost_inv(1) sw_guard_apply by blast+
  show "sw_order (hw_abs hw, g)"
    using tr [of sw_order] init_ghost_inv(2) sw_order_apply by blast
  show "unat T < 2 ^ 31 \<Longrightarrow> sw_live T (hw_abs hw, g)"
    using tr [of "sw_live T"] init_ghost_inv(3) sw_live_apply by blast
qed

text \<open>Polling rounds: an ACK may arrive before each step, the steps are \<open>dt\<close> ticks apart.\<close>

fun hw_rounds :: "(bool \<times> nat) list \<Rightarrow> nat \<Rightarrow> host_wake_t \<Rightarrow> host_wake_t" where
  "hw_rounds [] t hw = hw"
| "hw_rounds ((ack, dt) # rs) t hw =
     hw_rounds rs (t + dt) (fst (HostWake_Step (of_nat (t + dt)) (if ack then HostWake_OnAck hw else hw)))"

lemma hw_rounds_deadline:
  assumes "hw_wf hw" and "sw_deadline d (guard_ticks hw) (ack_timeout_ticks hw) (max_attempts hw) D t (hw_abs hw)"
    and "\<forall>r \<in> set rs. snd r \<le> d"
    and "unat (guard_ticks hw) + d < 2 ^ 32" and "2 * (unat (ack_timeout_ticks hw) + d) < 2 ^ 32"
  shows "hw_wf (hw_rounds rs t hw) \<and>
     sw_deadline d (guard_ticks hw) (ack_timeout_ticks hw) (max_attempts hw) D
       (t + sum_list (map snd rs)) (hw_abs (hw_rounds rs t hw))"
  using assms
proof (induction rs arbitrary: t hw)
  case Nil
  then show ?case by simp
next
  case (Cons r rs)
  obtain ack dt where r: "r = (ack, dt)" by (cases r)
  define h1 where "h1 = (if ack then HostWake_OnAck hw else hw)"
  define h2 where "h2 = fst (HostWake_Step (of_nat (t + dt)) h1)"
  have wf1: "hw_wf h1" using Cons.prems(1) by (simp add: h1_def hw_wf_ack)
  have c1: "guard_ticks h1 = guard_ticks hw" "ack_timeout_ticks h1 = ack_timeout_ticks hw"
    "max_attempts h1 = max_attempts hw"
    using hw_apply_config [of Ack hw] by (simp_all add: h1_def)
  have c2: "guard_ticks h2 = guard_ticks hw" "ack_timeout_ticks h2 = ack_timeout_ticks hw"
    "max_attempts h2 = max_attempts hw"
    using hw_apply_config [of "Step (of_nat (t + dt))" h1] c1 by (simp_all add: h2_def)
  have dl1: "sw_deadline d (guard_ticks hw) (ack_timeout_ticks hw) (max_attempts hw) D t (hw_abs h1)"
    using Cons.prems(2) abs_apply [OF Cons.prems(1), of Ack]
      deadline_ack [OF Cons.prems(2), of] by (auto simp: h1_def)
  have M: "1 \<le> unat (max_attempts hw)" using Cons.prems(1) by (simp add: hw_wf_def word_le_nat_alt)
  have dt: "t \<le> t + dt" "t + dt \<le> t + d" using Cons.prems(3) r by simp_all
  have "sw_deadline d (guard_ticks hw) (ack_timeout_ticks hw) (max_attempts hw) D (t + dt) (hw_abs h2)"
    using deadline_step [OF dl1 dt Cons.prems(4,5) M] abs_step [OF wf1, of "of_nat (t + dt)"]
    by (simp only: h2_def c1)
  moreover have "hw_wf h2" using wf1 by (simp add: h2_def hw_wf_step)
  ultimately show ?case
    using Cons.IH [of h2 "t + dt"] Cons.prems(3-5) c2 r by (simp add: h1_def h2_def add.assoc)
qed

section \<open>Properties\<close>

text \<open>
  C22: refinement.  Whatever the calls, from initialisation the C machine keeps its
  well-formedness invariant and produces step by step the line levels and frames of the abstract
  machine over lists, queue overflow, resends, abandoned frames and quarantine included.
\<close>
theorem host_wake_refines:
  "hw_wf (fst (hw_run es (HostWake_Init G T M)))
   \<and> hw_abs (fst (hw_run es (HostWake_Init G T M))) = fst (spec_run G T (if M = 0 then 1 else M) es spec_init)
   \<and> map hw_out (snd (hw_run es (HostWake_Init G T M))) = snd (spec_run G T (if M = 0 then 1 else M) es spec_init)"
proof -
  have "max_attempts (HostWake_Init G T M) = (if M = 0 then 1 else M)" by (simp add: HostWake_Init_def)
  then show ?thesis
    using hw_wf_run [OF hw_wf_Init] abs_run [OF hw_wf_Init, of G T M es] by (simp add: hw_abs_Init Let_def)
qed

text \<open>
  C26: the wake-up guard.  In every world reachable from initialisation, when a step puts a frame
  (a first copy or a resend) on the wire, CHWAKE was already high and has been high without a
  break for at least the guard time, and the step leaves it high.
\<close>
theorem host_wake_guard_kept:
  assumes "world_run es (world_init G T M) = (hw, g)"
    and "step_send (snd (HostWake_Step (of_nat (g_time g + dt)) hw))"
  shows "g_line g \<and> g_raised g + unat G \<le> g_time g + dt
       \<and> step_line (snd (HostWake_Step (of_nat (g_time g + dt)) hw))"
proof -
  let ?now = "of_nat (g_time g + dt) :: u32"
  let ?r = "spec_step G T (max_attempts hw) ?now (hw_abs hw)"
  note reach = world_reach [OF assms(1)]
  have out: "hw_out (snd (HostWake_Step ?now hw)) = snd ?r"
    using conjunct2 [OF abs_step [OF reach(1), of ?now]] by (simp only: reach(5,6))
  have "snd (hw_out (snd (HostWake_Step ?now hw))) = Some
      (step_cmd (snd (HostWake_Step ?now hw)), step_val (snd (HostWake_Step ?now hw)))"
    using assms(2) by (simp only: hw_out_send if_True)
  then have "snd (snd ?r) = Some
      (step_cmd (snd (HostWake_Step ?now hw)), step_val (snd (HostWake_Step ?now hw)))"
    by (simp only: out)
  with sw_guard_send [OF reach(2) le_add1 refl]
  have "g_line g \<and> g_raised g + unat G \<le> g_time g + dt \<and> fst (snd ?r)" .
  then show ?thesis by (simp only: hw_out_line flip: out)
qed

theorem host_wake_guard_kept_witness:
  "let w = world_run [W_Enq 0x5B 1, W_Step 10, W_Step 50] (world_init 100 20 3) in
     step_send (snd (HostWake_Step 150 (fst w))) \<and> g_raised (snd w) + 100 \<le> 150"
proof -
  let ?w = "world_run [W_Enq 0x5B 1, W_Step 10, W_Step 50] (world_init 100 20 3)"
  have t: "g_time (snd ?w) = 60" by code_simp
  have "step_send (snd (HostWake_Step 150 (fst ?w)))" by code_simp
  with host_wake_guard_kept [of "[W_Enq 0x5B 1, W_Step 10, W_Step 50]" 100 20 3 "fst ?w" "snd ?w" 90] show ?thesis
    by (simp add: Let_def t)
qed

text \<open>
  C24: whose ACK it is.  ACKs carry no sequence number; if the host answers every copy at most once
  and within two ACK timeouts of it being sent (the assumption \<^verbatim>\<open>host_wake.h\<close> states), then an ACK
  that arrives while a frame is outstanding is an answer to a copy of that very frame, never a
  late answer to an earlier one: it carries the newest serial number, and the outstanding frame is
  the newest one that was sent.
\<close>
theorem host_wake_ack_attribution:
  assumes "world_run es (world_init G T M) = (hw, g)" and "unat T < 2 ^ 31"
    and "hw_state hw = HOST_WAKE_STATE_WAIT_ACK" and "ghost_ack (unat T) dt i g"
  shows "fst (g_live g ! i) = length (g_sent g) \<and> snd (snd (last (g_sent g))) = (out_cmd hw, out_val hw)"
proof -
  note reach = world_reach [OF assms(1)]
  have p: "sp_phase (hw_abs hw) =
      P_Out (out_cmd hw, out_val hw) (sending_latest hw) (unat (hw_attempts hw)) (hw_acked hw)"
    using assms(3) by (simp add: hw_abs_def)
  have "fst (g_live g ! i) = g_serial g"
    using sw_live_own [OF reach(4) [OF assms(2)] assms(4) p] .
  with reach(3) p show ?thesis by (auto simp: sw_order_def)
qed

theorem host_wake_ack_attribution_witness:
  "let w = world_run [W_Enq 0x5B 1, W_Step 1, W_Step 3, W_Step 5] (world_init 3 5 3) in
     g_live (snd w) = [(1, 9), (1, 4)] \<and> ghost_ack 5 4 1 (snd w) \<and> fst (g_live (snd w) ! 1) = 1"
proof -
  let ?w = "world_run [W_Enq 0x5B 1, W_Step 1, W_Step 3, W_Step 5] (world_init 3 5 3)"
  have "hw_state (fst ?w) = HOST_WAKE_STATE_WAIT_ACK \<and> ghost_ack (unat (5 :: u32)) 4 1 (snd ?w)
      \<and> g_live (snd ?w) = [(1, 9), (1, 4)] \<and> length (g_sent (snd ?w)) = 1"
    by code_simp
  with host_wake_ack_attribution [of _ 3 5 3 "fst ?w" "snd ?w" 4 1] show ?thesis
    by (simp add: Let_def)
qed

text \<open>
  C25: order and fairness.  The frames the queue accepted are exactly the queue frames sent so far,
  in order and each once, followed by those still waiting (the outstanding one not counted as
  waiting); and two first sends in a row come both from the LED slot, or both from the queue, only
  if the other side had nothing waiting when the second was chosen.
\<close>
theorem host_wake_order_and_fairness:
  assumes "world_run es (world_init G T M) = (hw, g)"
  shows "g_accepted g = queue_sends g @
           (if hw_state hw = HOST_WAKE_STATE_WAIT_ACK \<and> \<not> sending_latest hw then tl (hw_queue hw)
            else hw_queue hw)
       \<and> alternating (g_sent g)"
proof -
  have "sw_order (hw_abs hw, g)" by (rule world_reach(3) [OF assms])
  then show ?thesis by (cases "hw_state hw") (auto simp: sw_order_def hw_abs_def split: if_splits)
qed

theorem host_wake_order_and_fairness_witness:
  "let w = world_run [W_Enq 0x5B 1, W_Enq 0x5C 7, W_Latest 0x5A 2, W_Step 1, W_Step 3, W_Ack 1 0, W_Latest 0x5A 3, W_Step 1]
        (world_init 3 5 3) in
     g_sent (snd w) = [(True, True, (0x5A, 2)), (False, True, (0x5B, 1))]
     \<and> alternating (g_sent (snd w)) \<and> g_accepted (snd w) = [(0x5B, 1), (0x5C, 7)]"
proof -
  let ?w = "world_run [W_Enq 0x5B 1, W_Enq 0x5C 7, W_Latest 0x5A 2, W_Step 1, W_Step 3, W_Ack 1 0,
      W_Latest 0x5A 3, W_Step 1] (world_init 3 5 3)"
  have "g_sent (snd ?w) = [(True, True, (0x5A, 2)), (False, True, (0x5B, 1))]
      \<and> g_accepted (snd ?w) = [(0x5B, 1), (0x5C, 7)]"
    by code_simp
  with host_wake_order_and_fairness [of _ 3 5 3 "fst ?w" "snd ?w"] show ?thesis
    by (simp add: Let_def)
qed

text \<open>
  C23: everything queued is sent in bounded time, whatever the host does.  From rest with \<open>n\<close> frames
  pending (queue and LED slot), no new ones, polls at most \<open>d\<close> ticks apart and ACKs arriving or
  not at any of them, once more than guard + 2d + n * (attempts + 1) * (timeout + d) ticks have
  passed the queue and slot are empty, nothing is outstanding and CHWAKE is low.
\<close>
theorem host_wake_drains:
  assumes "hw_wf hw" and "hw_state hw = HOST_WAKE_STATE_IDLE"
    and "\<forall>r \<in> set rs. snd r \<le> d"
    and "unat (guard_ticks hw) + d < 2 ^ 32" and "2 * (unat (ack_timeout_ticks hw) + d) < 2 ^ 32"
    and "unat (guard_ticks hw) + 2 * d
         + (unat (hw_count hw) + (if latest_pending hw then 1 else 0))
           * ((unat (max_attempts hw) + 1) * (unat (ack_timeout_ticks hw) + d)) < sum_list (map snd rs)"
  shows "HostWake_Idle (hw_rounds rs t hw)"
proof -
  let ?D = "t + unat (guard_ticks hw) + 2 * d
     + sp_frames (hw_abs hw) * frame_cost d (ack_timeout_ticks hw) (max_attempts hw)"
  have fr: "sp_frames (hw_abs hw) = unat (hw_count hw) + (if latest_pending hw then 1 else 0)"
    by (simp add: sp_frames_def hw_abs_def)
  have "sw_deadline d (guard_ticks hw) (ack_timeout_ticks hw) (max_attempts hw) ?D t (hw_abs hw)"
    using assms(2) by (simp add: sw_deadline_def hw_abs_def)
  from hw_rounds_deadline [OF assms(1) this assms(3-5)]
  have "sp_phase (hw_abs (hw_rounds rs t hw)) = P_Low \<and> \<not> spec_pending (hw_abs (hw_rounds rs t hw))"
    using assms(6) deadline_over by (fastforce simp: fr frame_cost_def)
  then show ?thesis
    by (cases "hw_state (hw_rounds rs t hw)") (auto simp: HostWake_Idle_def simp del: spec_pending_abs simp flip: spec_pending_abs, auto simp: hw_abs_def)
qed

theorem host_wake_drains_witness:
  "HostWake_Idle (hw_rounds (replicate 20 (False, 2)) 7 (HostWake_SetLatest 0x5A 1 (HostWake_Init 3 4 2)))"
  by (rule host_wake_drains [OF hw_wf_latest [OF hw_wf_Init], where d = 2])
    (simp_all add: HostWake_SetLatest_def HostWake_Init_def sum_list_replicate)

end
