(* ===== verification/Sleep_Protocol.thy ===== *)
theory Sleep_Protocol
  imports OC_Prelude
begin

text \<open>
  The UART sleep-protocol reducer of \<^verbatim>\<open>firmware/src/sleep_protocol.c\<close>: the A6 56 capability gate,
  the pending explicit sleep and the armed auto-sleep.  A run is a list of accepted frames, each
  with the value of the OTA veto at that moment, interleaved with the main loop taking the pending
  request (\<open>Power_Service\<close> clears \<open>sleep_pending\<close>).  The lemmas say what each flag means in terms
  of the frames seen since boot.
\<close>

section \<open>State and operations\<close>

datatype sleep_proto_action_t =
  SLEEP_PROTO_NONE | SLEEP_PROTO_SEND_READY | SLEEP_PROTO_ARM | SLEEP_PROTO_CANCEL

record sleep_proto_t =
  unlocked :: bool
  sleep_pending :: bool
  autosleep :: bool

definition SLEEP_PROTO_CMD_A6 :: u8 where "SLEEP_PROTO_CMD_A6 = 0xA6"
definition SLEEP_PROTO_SUB_UNLOCK :: u8 where "SLEEP_PROTO_SUB_UNLOCK = 0x56"
definition SLEEP_PROTO_SUB_SLEEP :: u8 where "SLEEP_PROTO_SUB_SLEEP = 0x54"
definition SLEEP_PROTO_SUB_AUTO :: u8 where "SLEEP_PROTO_SUB_AUTO = 0x57"

definition SleepProtocol_Reset :: "sleep_proto_t \<Rightarrow> sleep_proto_t" where
  "SleepProtocol_Reset st = st\<lparr>unlocked := False, sleep_pending := False, autosleep := False\<rparr>"

definition SleepProtocol_IsStateChanging :: "u8 \<Rightarrow> u8 \<Rightarrow> bool" where
  "SleepProtocol_IsStateChanging cmd sub \<longleftrightarrow>
     (cmd = 0xA1 \<or> cmd = 0xA9)
     \<or> (cmd = 0xA6 \<and> (sub = 0x11 \<or> sub = 0x30 \<or> sub = 0x31 \<or> sub = 0x32 \<or> sub = 0x33
           \<or> sub = 0x51 \<or> sub = 0x52 \<or> sub = 0x63 \<or> sub = 0x81))"

definition SleepProtocol_OnFrame ::
    "u8 \<Rightarrow> u8 \<Rightarrow> bool \<Rightarrow> sleep_proto_t \<Rightarrow> sleep_proto_t \<times> sleep_proto_action_t" where
  "SleepProtocol_OnFrame cmd sub openboot_pending st =
     (if cmd = SLEEP_PROTO_CMD_A6 \<and> sub = SLEEP_PROTO_SUB_UNLOCK then
        (st\<lparr>unlocked := True, sleep_pending := False, autosleep := False\<rparr>, SLEEP_PROTO_SEND_READY)
      else if cmd = SLEEP_PROTO_CMD_A6 \<and> sub = SLEEP_PROTO_SUB_AUTO then
        (if unlocked st then st\<lparr>autosleep := True\<rparr> else st, SLEEP_PROTO_NONE)
      else
        (let st1 = (if cmd = SLEEP_PROTO_CMD_A6 \<and> (sub = 0x51 \<or> sub = 0x52 \<or> sub = 0x63)
                    then st\<lparr>autosleep := False\<rparr> else st)
         in if cmd = SLEEP_PROTO_CMD_A6 \<and> sub = SLEEP_PROTO_SUB_SLEEP then
              (if unlocked st1 \<and> \<not> openboot_pending \<and> \<not> sleep_pending st1
               then (st1\<lparr>sleep_pending := True\<rparr>, SLEEP_PROTO_ARM)
               else (st1, SLEEP_PROTO_NONE))
            else if sleep_pending st1 \<and> SleepProtocol_IsStateChanging cmd sub
              then (st1\<lparr>sleep_pending := False\<rparr>, SLEEP_PROTO_CANCEL)
            else (st1, SLEEP_PROTO_NONE)))"

lemmas sleep_consts =
  SLEEP_PROTO_CMD_A6_def SLEEP_PROTO_SUB_UNLOCK_def SLEEP_PROTO_SUB_SLEEP_def SLEEP_PROTO_SUB_AUTO_def

section \<open>Runs since boot\<close>

text \<open>A frame with the OTA veto in force, or the main loop taking the pending request.\<close>

datatype sleep_event = Frame u8 u8 bool | Taken

fun sleep_apply :: "sleep_event \<Rightarrow> sleep_proto_t \<Rightarrow> sleep_proto_t" where
  "sleep_apply (Frame cmd sub ob) st = fst (SleepProtocol_OnFrame cmd sub ob st)"
| "sleep_apply Taken st = st\<lparr>sleep_pending := False\<rparr>"

definition sleep_run :: "sleep_event list \<Rightarrow> sleep_proto_t \<Rightarrow> sleep_proto_t" where
  "sleep_run es st = fold sleep_apply es st"

lemma sleep_run_simps [simp]:
  "sleep_run [] st = st" "sleep_run (es @ [e]) st = sleep_apply e (sleep_run es st)"
  by (simp_all add: sleep_run_def)

text \<open>The kinds of events the flags depend on.\<close>

definition is_unlock :: "sleep_event \<Rightarrow> bool" where
  "is_unlock e \<longleftrightarrow> (\<exists>ob. e = Frame 0xA6 0x56 ob)"

definition is_auto :: "sleep_event \<Rightarrow> bool" where
  "is_auto e \<longleftrightarrow> (\<exists>ob. e = Frame 0xA6 0x57 ob)"

definition clears_auto :: "sleep_event \<Rightarrow> bool" where
  "clears_auto e \<longleftrightarrow> (\<exists>sub ob. e = Frame 0xA6 sub ob \<and> sub \<in> {0x56, 0x51, 0x52, 0x63})"

definition clears_pending :: "sleep_event \<Rightarrow> bool" where
  "clears_pending e \<longleftrightarrow> e = Taken
     \<or> (\<exists>cmd sub ob. e = Frame cmd sub ob
          \<and> (cmd = 0xA6 \<and> sub = 0x56 \<or> SleepProtocol_IsStateChanging cmd sub))"

definition asks_sleep :: "sleep_event \<Rightarrow> bool" where
  "asks_sleep e \<longleftrightarrow> e = Frame 0xA6 0x54 False"

lemma sleep_apply_flags:
  "unlocked (sleep_apply e st) \<longleftrightarrow> unlocked st \<or> is_unlock e"
  "autosleep (sleep_apply e st) \<longleftrightarrow> (autosleep st \<and> \<not> clears_auto e) \<or> (is_auto e \<and> unlocked st)"
  "sleep_pending (sleep_apply e st) \<longleftrightarrow>
     (sleep_pending st \<and> \<not> clears_pending e) \<or> (asks_sleep e \<and> unlocked st)"
  by (cases e; auto simp: SleepProtocol_OnFrame_def sleep_consts is_unlock_def clears_auto_def is_auto_def
      clears_pending_def asks_sleep_def SleepProtocol_IsStateChanging_def Let_def)+

text \<open>A flag that one kind of event sets (when enabled) and another clears, read off the history.\<close>

lemma flag_history:
  assumes "\<not> flag (f [])"
    and "\<And>es e. flag (f (es @ [e])) \<longleftrightarrow> (flag (f es) \<and> \<not> clr e) \<or> (set_by e \<and> enabled es)"
    and "\<And>e. set_by e \<Longrightarrow> \<not> clr e"
  shows "flag (f es) \<longleftrightarrow> (\<exists>xs e ys. es = xs @ e # ys \<and> set_by e \<and> enabled xs \<and> \<not> list_ex clr ys)"
proof (induction es rule: rev_induct)
  case Nil
  with assms(1) show ?case by simp
next
  case (snoc a es)
  note IH = snoc.IH
  show ?case
  proof
    assume "flag (f (es @ [a]))"
    with assms(2) consider "flag (f es)" "\<not> clr a" | "set_by a" "enabled es" by auto
    then show "\<exists>xs e ys. es @ [a] = xs @ e # ys \<and> set_by e \<and> enabled xs \<and> \<not> list_ex clr ys"
    proof cases
      case 1
      with snoc obtain xs e ys where "es = xs @ e # ys" "set_by e" "enabled xs" "\<not> list_ex clr ys" by auto
      with 1 have "es @ [a] = xs @ e # (ys @ [a]) \<and> set_by e \<and> enabled xs \<and> \<not> list_ex clr (ys @ [a])"
        by (simp add: list_ex_append)
      then show ?thesis by blast
    next
      case 2
      then have "es @ [a] = es @ a # [] \<and> set_by a \<and> enabled es \<and> \<not> list_ex clr []" by simp
      then show ?thesis by blast
    qed
  next
    assume "\<exists>xs e ys. es @ [a] = xs @ e # ys \<and> set_by e \<and> enabled xs \<and> \<not> list_ex clr ys"
    then obtain xs e ys where *: "es @ [a] = xs @ e # ys" "set_by e" "enabled xs" "\<not> list_ex clr ys" by auto
    show "flag (f (es @ [a]))"
    proof (cases ys rule: rev_cases)
      case Nil
      with * assms(2) show ?thesis by simp
    next
      case (snoc zs z)
      with * have "es = xs @ e # zs" and "z = a" and "\<not> clr a" and "\<not> list_ex clr zs"
        by (auto simp: list_ex_append)
      with * have "\<exists>xs e ys. es = xs @ e # ys \<and> set_by e \<and> enabled xs \<and> \<not> list_ex clr ys" by blast
      with IH have "flag (f es)" by simp
      with \<open>\<not> clr a\<close> assms(2) show ?thesis by simp
    qed
  qed
qed


text \<open>The flags after a run from reset, each read off the history.\<close>

lemma reset_flags [simp]:
  "\<not> unlocked (SleepProtocol_Reset st)" "\<not> sleep_pending (SleepProtocol_Reset st)"
  "\<not> autosleep (SleepProtocol_Reset st)"
  by (simp_all add: SleepProtocol_Reset_def)

lemma unlocked_history: "unlocked (sleep_run es (SleepProtocol_Reset st)) \<longleftrightarrow> list_ex is_unlock es"
  by (induction es rule: rev_induct) (simp_all add: sleep_apply_flags list_ex_append)

lemma autosleep_history:
  "autosleep (sleep_run es (SleepProtocol_Reset st)) \<longleftrightarrow>
     (\<exists>xs e ys. es = xs @ e # ys \<and> is_auto e \<and> list_ex is_unlock xs \<and> \<not> list_ex clears_auto ys)"
  by (rule flag_history [where flag = autosleep and f = "\<lambda>es. sleep_run es (SleepProtocol_Reset st)"])
    (auto simp: sleep_apply_flags unlocked_history is_auto_def clears_auto_def)

lemma pending_history:
  "sleep_pending (sleep_run es (SleepProtocol_Reset st)) \<longleftrightarrow>
     (\<exists>xs e ys. es = xs @ e # ys \<and> asks_sleep e \<and> list_ex is_unlock xs \<and> \<not> list_ex clears_pending ys)"
  by (rule flag_history [where flag = sleep_pending and f = "\<lambda>es. sleep_run es (SleepProtocol_Reset st)"])
    (auto simp: sleep_apply_flags unlocked_history asks_sleep_def clears_pending_def
      SleepProtocol_IsStateChanging_def)

section \<open>Properties\<close>

text \<open>
  The meaning of the three flags.  After boot and any history of frames and taken requests:
  the protocol is unlocked iff an A6 56 was seen; a sleep is pending iff some A6 54 came after an
  A6 56 and without the OTA veto, and nothing since it (no state-changing frame, no new A6 56, no
  take) withdrew it; auto-sleep is armed iff some A6 57 came after an A6 56 and no A6 56, 51, 52 or
  63 since.  In particular neither can hold on a module whose host never negotiated.
\<close>
theorem sleep_flags_meaning:
  "(unlocked (sleep_run es (SleepProtocol_Reset st)) \<longleftrightarrow> list_ex is_unlock es)
   \<and> (sleep_pending (sleep_run es (SleepProtocol_Reset st)) \<longleftrightarrow>
       (\<exists>xs e ys. es = xs @ e # ys \<and> asks_sleep e \<and> list_ex is_unlock xs \<and> \<not> list_ex clears_pending ys))
   \<and> (autosleep (sleep_run es (SleepProtocol_Reset st)) \<longleftrightarrow>
       (\<exists>xs e ys. es = xs @ e # ys \<and> is_auto e \<and> list_ex is_unlock xs \<and> \<not> list_ex clears_auto ys))"
  by (simp only: unlocked_history pending_history autosleep_history)

text \<open>
  The answers of the reducer.  READY goes out exactly for A6 56; ARM exactly when a sleep
  becomes pending, CANCEL exactly when a frame that is not A6 56 withdraws one, and that is a
  state-changing frame; under the OTA veto no frame makes a sleep pending.
\<close>
theorem sleep_actions:
  "let r = SleepProtocol_OnFrame cmd sub ob st in
     (snd r = SLEEP_PROTO_SEND_READY \<longleftrightarrow> cmd = 0xA6 \<and> sub = 0x56)
     \<and> (snd r = SLEEP_PROTO_ARM \<longleftrightarrow> \<not> sleep_pending st \<and> sleep_pending (fst r))
     \<and> (snd r = SLEEP_PROTO_CANCEL \<longleftrightarrow>
          sleep_pending st \<and> \<not> sleep_pending (fst r) \<and> \<not> (cmd = 0xA6 \<and> sub = 0x56))
     \<and> (snd r = SLEEP_PROTO_CANCEL \<longleftrightarrow> sleep_pending st \<and> SleepProtocol_IsStateChanging cmd sub)
     \<and> \<not> (ob \<and> \<not> sleep_pending st \<and> sleep_pending (fst r))"
  by (auto simp: SleepProtocol_OnFrame_def sleep_consts SleepProtocol_IsStateChanging_def Let_def)

end
