(* ===== verification/Uart_Parser.thy ===== *)
theory Uart_Parser
  imports OC_Prelude "HOL-Library.Sublist"
begin

text \<open>
  The UART receive parser of \<^verbatim>\<open>firmware/src/keyboard_uart.c\<close>: header lookup, checksum, frame
  validation, resynchronisation and dispatch, over the 24-byte buffer \<open>rx_buf\<close> with its byte-wide
  length.  What a dispatched frame does (the ACK, the frame callback pointer, the host-wake ACK) is
  a parameter, as it is in C, so the parser threads an arbitrary state \<open>'w\<close>.  The second half
  refines it to a parser on lists and shows soundness and the round trip with an encoder.
\<close>

section \<open>State\<close>

definition KBD_UART_MAX_FRAME :: nat where "KBD_UART_MAX_FRAME = 24"

record uart_parser =
  rx_buf :: "u8 list"
  rx_len :: u8
  rx_expected :: u8
  rx_frame_error_count :: u32
  rx_resync_count :: u32

text \<open>The callee side: the ACK reply, the installed callback (a null pointer is \<open>None\<close>; the payload
  pointer of an A6 frame is null too), and the host-wake machine's ACK input.\<close>

record 'w uart_env =
  env_ack :: "'w \<Rightarrow> 'w"
  env_frame_cb :: "(u8 \<Rightarrow> u8 \<Rightarrow> u8 list option \<Rightarrow> u8 \<Rightarrow> 'w \<Rightarrow> 'w) option"
  env_host_ack :: "'w \<Rightarrow> 'w"

section \<open>Operations\<close>

definition checksum :: "u8 list \<Rightarrow> u8 \<Rightarrow> u8" where
  "checksum buf len = fold (\<lambda>i sum. sum + buf ! i) [0..<unat len] 0"

definition reset_parser :: "uart_parser \<Rightarrow> uart_parser" where
  "reset_parser p = p\<lparr>rx_len := 0, rx_expected := 0\<rparr>"

definition expected_for_header :: "u8 \<Rightarrow> u8" where
  "expected_for_header b =
     (if b = 0xA6 \<or> b = 0x61 then 3 else if b = 0xA1 then 10 else if b = 0xA9 then 21 else 0)"

definition frame_is_valid :: "uart_parser \<Rightarrow> bool" where
  "frame_is_valid p =
     (let cmd = rx_buf p ! 0 in
      if cmd = 0xA6 then checksum (rx_buf p) 2 = rx_buf p ! 2
      else if cmd = 0xA1 then checksum (rx_buf p) 9 = rx_buf p ! 9
      else if cmd = 0xA9 then
        (let name_len = rx_buf p ! 1; chk_idx = 2 + name_len in
         name_len \<le> 18 \<and> chk_idx < 21 \<and> checksum (rx_buf p) chk_idx = rx_buf p ! unat chk_idx)
      else if cmd = 0x61 then rx_buf p ! 1 = 0x0D \<and> rx_buf p ! 2 = 0x0A
      else False)"

definition call_cb :: "'w uart_env \<Rightarrow> u8 \<Rightarrow> u8 \<Rightarrow> u8 list option \<Rightarrow> u8 \<Rightarrow> 'w \<Rightarrow> 'w" where
  "call_cb env cmd sub payload len w =
     (case env_frame_cb env of None \<Rightarrow> w | Some cb \<Rightarrow> cb cmd sub payload len w)"

definition dispatch_frame :: "'w uart_env \<Rightarrow> uart_parser \<Rightarrow> 'w \<Rightarrow> 'w" where
  "dispatch_frame env p w =
     (let cmd = rx_buf p ! 0 in
      if cmd = 0xA6 then call_cb env 0xA6 (rx_buf p ! 1) None 0 (env_ack env w)
      else if cmd = 0xA1 then call_cb env 0xA1 0 (Some (take 8 (drop 1 (rx_buf p)))) 8 (env_ack env w)
      else if cmd = 0xA9 then
        (let name_len = rx_buf p ! 1 in
         call_cb env 0xA9 name_len (Some (take (unat name_len) (drop 2 (rx_buf p)))) name_len (env_ack env w))
      else env_host_ack env w)"

definition shift_rx_buf :: "u8 \<Rightarrow> uart_parser \<Rightarrow> uart_parser" where
  "shift_rx_buf n p =
     (if rx_len p \<le> n then reset_parser p
      else
        (let len = rx_len p - n;
             buf = fold (\<lambda>i buf. buf[i := buf ! (i + unat n)]) [0..<unat len] (rx_buf p);
             p1 = p\<lparr>rx_len := len, rx_buf := buf, rx_expected := expected_for_header (buf ! 0)\<rparr>
         in if rx_expected p1 = 0 then reset_parser p1 else p1))"

text \<open>The search of \<open>resync_parser\<close>, from index \<open>i\<close> on.\<close>

definition resync_parser :: "uart_parser \<Rightarrow> uart_parser" where
  "resync_parser p =
     (case find (\<lambda>i. expected_for_header (rx_buf p ! i) \<noteq> 0) [1..<unat (rx_len p)] of
        Some i \<Rightarrow> shift_rx_buf (of_nat i) (p\<lparr>rx_resync_count := rx_resync_count p + 1\<rparr>)
      | None \<Rightarrow> reset_parser p)"

lemma rx_len_shift: "0 < n \<Longrightarrow> 0 < rx_len p \<Longrightarrow> rx_len (shift_rx_buf n p) < rx_len p"
  by (auto simp: shift_rx_buf_def reset_parser_def Let_def word_less_nat_alt word_le_nat_alt unat_sub_le)

lemma find_upt_range:
  assumes "find P [a..<b] = Some i"
  shows "a \<le> i \<and> i < b"
proof -
  have "i \<in> set [a..<b]" using assms by (auto simp: find_Some_iff dest: nth_mem)
  then show ?thesis by simp
qed

lemma rx_len_resync: "0 < rx_len p \<Longrightarrow> rx_len (resync_parser p) < rx_len p"
proof -
  assume pos: "0 < rx_len p"
  show ?thesis
  proof (cases "find (\<lambda>i. expected_for_header (rx_buf p ! i) \<noteq> 0) [1..<unat (rx_len p)]")
    case None
    with pos show ?thesis by (simp add: resync_parser_def reset_parser_def)
  next
    case (Some i)
    let ?q = "p\<lparr>rx_resync_count := rx_resync_count p + 1\<rparr>"
    have "1 \<le> i" and "i < 256"
      using find_upt_range [OF Some] unat_lt_u8 [of "rx_len p"] by simp_all
    then have "(0 :: u8) < of_nat i" by (simp add: word_less_nat_alt unat_of_nat)
    then have "rx_len (shift_rx_buf (of_nat i) ?q) < rx_len ?q" using pos by (intro rx_len_shift) simp_all
    with Some show ?thesis by (simp add: resync_parser_def)
  qed
qed

function process_rx_buf :: "'w uart_env \<Rightarrow> uart_parser \<Rightarrow> 'w \<Rightarrow> uart_parser \<times> 'w" where
  "process_rx_buf env p w =
     (if rx_len p \<noteq> 0 \<and> rx_expected p \<noteq> 0 \<and> rx_expected p \<le> rx_len p then
        (if frame_is_valid p then
           process_rx_buf env (shift_rx_buf (rx_expected p) p) (dispatch_frame env p w)
         else
           process_rx_buf env
             (resync_parser (p\<lparr>rx_frame_error_count := rx_frame_error_count p + 1\<rparr>)) w)
      else (p, w))"
  by pat_completeness auto
termination
proof (relation "measure (\<lambda>(env, p, w). unat (rx_len p))")
  fix env :: "'w uart_env" and p :: uart_parser and w :: 'w
  assume c: "rx_len p \<noteq> 0 \<and> rx_expected p \<noteq> 0 \<and> rx_expected p \<le> rx_len p"
  then have pos: "0 < rx_len p" "0 < rx_expected p" by (simp_all add: word_neq_0_conv)
  show "((env, shift_rx_buf (rx_expected p) p, dispatch_frame env p w), env, p, w)
      \<in> measure (\<lambda>(env, p, w). unat (rx_len p))"
    using rx_len_shift [OF pos(2,1)] by (simp add: word_less_nat_alt)
  let ?q = "p\<lparr>rx_frame_error_count := rx_frame_error_count p + 1\<rparr>"
  show "((env, resync_parser ?q, w), env, p, w) \<in> measure (\<lambda>(env, p, w). unat (rx_len p))"
    using rx_len_resync [of ?q] pos(1) by (simp add: word_less_nat_alt)
qed simp

declare process_rx_buf.simps [simp del]

definition feed_byte :: "'w uart_env \<Rightarrow> u8 \<Rightarrow> uart_parser \<Rightarrow> 'w \<Rightarrow> uart_parser \<times> 'w" where
  "feed_byte env b p w =
     (let p1 = (if rx_len p = 0 then p\<lparr>rx_expected := expected_for_header b\<rparr> else p) in
      if rx_len p = 0 \<and> rx_expected p1 = 0 then (p1, w)
      else if KBD_UART_MAX_FRAME \<le> unat (rx_len p1) then (reset_parser p1, w)
      else process_rx_buf env
             (p1\<lparr>rx_buf := (rx_buf p1)[unat (rx_len p1) := b], rx_len := rx_len p1 + 1\<rparr>) w)"

definition feed_bytes :: "'w uart_env \<Rightarrow> u8 list \<Rightarrow> uart_parser \<Rightarrow> 'w \<Rightarrow> uart_parser \<times> 'w" where
  "feed_bytes env bs p w = fold (\<lambda>b (p, w). feed_byte env b p w) bs (p, w)"

definition uart_parser_init :: uart_parser where
  "uart_parser_init = \<lparr>rx_buf = replicate 24 0, rx_len = 0, rx_expected = 0,
     rx_frame_error_count = 0, rx_resync_count = 0\<rparr>"

section \<open>The parser on lists\<close>

text \<open>The buffered bytes; the rest of the array is dead.\<close>

definition p_bytes :: "uart_parser \<Rightarrow> u8 list" where
  "p_bytes p = take (unat (rx_len p)) (rx_buf p)"

definition expects :: "u8 \<Rightarrow> nat" where
  "expects b = unat (expected_for_header b)"

definition list_checksum :: "u8 list \<Rightarrow> u8" where
  "list_checksum xs = sum_list xs"

definition valid_bytes :: "u8 list \<Rightarrow> bool" where
  "valid_bytes xs \<longleftrightarrow>
     (if xs ! 0 = 0xA6 then list_checksum (take 2 xs) = xs ! 2
      else if xs ! 0 = 0xA1 then list_checksum (take 9 xs) = xs ! 9
      else if xs ! 0 = 0xA9 then
        unat (xs ! 1) \<le> 18 \<and> list_checksum (take (2 + unat (xs ! 1)) xs) = xs ! (2 + unat (xs ! 1))
      else xs ! 0 = 0x61 \<and> xs ! 1 = 0x0D \<and> xs ! 2 = 0x0A)"

text \<open>Drop the first bytes; what is left must start with a header or goes too.\<close>

definition shift_bytes :: "nat \<Rightarrow> u8 list \<Rightarrow> u8 list" where
  "shift_bytes n xs = (case drop n xs of [] \<Rightarrow> [] | y # ys \<Rightarrow> if expects y = 0 then [] else y # ys)"

definition resync_bytes :: "u8 list \<Rightarrow> u8 list" where
  "resync_bytes xs = dropWhile (\<lambda>b. expects b = 0) (tl xs)"

text \<open>A decoded frame, and what its dispatch does.\<close>

datatype rx_frame = Cmd_A6 u8 | Hid_A1 "u8 list" | Name_A9 "u8 list" | Host_Ack

definition decode :: "u8 list \<Rightarrow> rx_frame" where
  "decode xs =
     (if xs ! 0 = 0xA6 then Cmd_A6 (xs ! 1)
      else if xs ! 0 = 0xA1 then Hid_A1 (take 8 (drop 1 xs))
      else if xs ! 0 = 0xA9 then Name_A9 (take (unat (xs ! 1)) (drop 2 xs))
      else Host_Ack)"

fun deliver :: "'w uart_env \<Rightarrow> rx_frame \<Rightarrow> 'w \<Rightarrow> 'w" where
  "deliver env (Cmd_A6 sub) w = call_cb env 0xA6 sub None 0 (env_ack env w)"
| "deliver env (Hid_A1 report) w = call_cb env 0xA1 0 (Some report) 8 (env_ack env w)"
| "deliver env (Name_A9 name) w =
     call_cb env 0xA9 (of_nat (length name)) (Some name) (of_nat (length name)) (env_ack env w)"
| "deliver env Host_Ack w = env_host_ack env w"

lemma expected_range: "expected_for_header b \<in> {0, 3, 10, 21}"
  by (simp add: expected_for_header_def)

lemma expects_cases:
  "expects b = (if b = 0xA6 \<or> b = 0x61 then 3 else if b = 0xA1 then 10 else if b = 0xA9 then 21 else 0)"
  by (simp add: expects_def expected_for_header_def)

lemma expects_le: "expects b \<le> 21"
  by (simp add: expects_cases)

lemma expects_eq_0: "expects b = 0 \<longleftrightarrow> expected_for_header b = 0"
  by (simp add: expects_def unat_eq_0)

lemma fold_sum_nth:
  "n \<le> length buf \<Longrightarrow> fold (\<lambda>i sum. sum + buf ! i) [0..<n] 0 = sum_list (take n buf)"
  for buf :: "'a :: comm_monoid_add list"
  by (induction n) (simp_all add: take_Suc_conv_app_nth)

lemma checksum_eq: "unat n \<le> length buf \<Longrightarrow> checksum buf n = list_checksum (take (unat n) buf)"
  by (simp add: checksum_def list_checksum_def fold_sum_nth)

lemma fold_shift:
  assumes "0 < n" and "m + n \<le> length buf"
  shows "length (fold (\<lambda>i b. b[i := b ! (i + n)]) [0..<m] buf) = length buf
       \<and> (\<forall>k < length buf. fold (\<lambda>i b. b[i := b ! (i + n)]) [0..<m] buf ! k =
            (if k < m then buf ! (k + n) else buf ! k))"
  using assms(2)
proof (induction m)
  case 0
  then show ?case by simp
next
  case (Suc m)
  then show ?case using assms(1) by (auto simp: nth_list_update)
qed

definition p_wf :: "uart_parser \<Rightarrow> bool" where
  "p_wf p \<longleftrightarrow> length (rx_buf p) = 24 \<and> unat (rx_len p) \<le> 24
     \<and> (rx_len p \<noteq> 0 \<longrightarrow> rx_expected p = expected_for_header (rx_buf p ! 0) \<and> rx_expected p \<noteq> 0)"

text \<open>Between bytes a frame is never complete.\<close>

definition p_ready :: "uart_parser \<Rightarrow> bool" where
  "p_ready p \<longleftrightarrow> p_wf p \<and> (rx_len p \<noteq> 0 \<longrightarrow> rx_len p < rx_expected p)"

lemma length_p_bytes: "p_wf p \<Longrightarrow> length (p_bytes p) = unat (rx_len p)"
  by (simp add: p_bytes_def p_wf_def)

lemma p_bytes_Nil: "p_wf p \<Longrightarrow> p_bytes p = [] \<longleftrightarrow> rx_len p = 0"
  by (auto simp: p_bytes_def p_wf_def unat_eq_0)

lemma nth_p_bytes: "k < unat (rx_len p) \<Longrightarrow> p_bytes p ! k = rx_buf p ! k"
  by (simp add: p_bytes_def)

lemma p_bytes_frame [simp]:
  "p_bytes (p\<lparr>rx_frame_error_count := a\<rparr>) = p_bytes p" "p_bytes (p\<lparr>rx_resync_count := b\<rparr>) = p_bytes p"
  "p_wf (p\<lparr>rx_frame_error_count := a\<rparr>) = p_wf p" "p_wf (p\<lparr>rx_resync_count := b\<rparr>) = p_wf p"
  by (simp_all add: p_bytes_def p_wf_def)

lemma p_bytes_reset [simp]: "p_bytes (reset_parser p) = []"
  by (simp add: p_bytes_def reset_parser_def)

lemma p_wf_reset: "p_wf p \<Longrightarrow> p_wf (reset_parser p)"
  by (simp add: p_wf_def reset_parser_def)

lemma shift_refines:
  assumes wf: "p_wf p" and n: "0 < n"
  shows "p_wf (shift_rx_buf n p) \<and> p_bytes (shift_rx_buf n p) = shift_bytes (unat n) (p_bytes p)"
proof (cases "rx_len p \<le> n")
  case True
  then have "drop (unat n) (p_bytes p) = []"
    using wf by (simp add: length_p_bytes word_le_nat_alt)
  with True wf show ?thesis by (simp add: shift_rx_buf_def shift_bytes_def p_wf_reset)
next
  case False
  define len where "len = rx_len p - n"
  define buf where "buf = fold (\<lambda>i b. b[i := b ! (i + unat n)]) [0..<unat len] (rx_buf p)"
  define p1 where "p1 = p\<lparr>rx_len := len, rx_buf := buf, rx_expected := expected_for_header (buf ! 0)\<rparr>"
  have unf: "shift_rx_buf n p = (if rx_expected p1 = 0 then reset_parser p1 else p1)"
    using False by (simp only: shift_rx_buf_def p1_def len_def buf_def Let_def if_False)
  have lt: "unat n < unat (rx_len p)" using False by (simp add: word_le_nat_alt)
  have ulen: "unat len = unat (rx_len p) - unat n"
    using False by (simp add: len_def unat_sub_le)
  have len24: "unat (rx_len p) \<le> length (rx_buf p)" using wf by (simp add: p_wf_def)
  have un: "0 < unat n" using n by (simp add: word_less_nat_alt)
  have sum: "unat len + unat n \<le> length (rx_buf p)" using ulen len24 lt by simp
  note sh = fold_shift [OF un sum, folded buf_def]
  have tk: "take (unat len) buf = drop (unat n) (p_bytes p)"
    using sh sum ulen len24 lt
    by (intro nth_equalityI) (auto simp: p_bytes_def add.commute)
  have ne: "len \<noteq> 0" using ulen lt by (metis unat_0 zero_less_diff less_numeral_extra(3))
  have pos: "0 < unat len" using ne by (simp add: unat_gt_0)
  have hd: "drop (unat n) (p_bytes p) = buf ! 0 # tl (take (unat len) buf)"
    using pos sh sum un by (cases buf) (auto simp: tk [symmetric] take_Cons' split: nat.splits)
  show ?thesis
  proof (cases "expected_for_header (buf ! 0) = 0")
    case True
    have "p_wf (reset_parser p1)" using wf sh by (simp add: p1_def p_wf_def reset_parser_def)
    with True hd show ?thesis unfolding unf by (simp add: p1_def shift_bytes_def expects_eq_0)
  next
    case ok: False
    then have "shift_rx_buf n p = p1" unfolding unf by (simp add: p1_def)
    moreover have "p_bytes p1 = drop (unat n) (p_bytes p)" by (simp add: p1_def p_bytes_def tk [unfolded p_bytes_def])
    moreover have "shift_bytes (unat n) (p_bytes p) = drop (unat n) (p_bytes p)"
      unfolding hd shift_bytes_def using ok by (simp add: expects_eq_0)
    moreover have "unat len \<le> 24" using ulen wf unfolding p_wf_def by linarith
    then have "p_wf p1" using ok wf sh by (simp add: p1_def p_wf_def)
    ultimately show ?thesis by simp
  qed
qed

lemma resync_refines:
  assumes wf: "p_wf p" and ne: "rx_len p \<noteq> 0"
  shows "p_wf (resync_parser p) \<and> p_bytes (resync_parser p) = resync_bytes (p_bytes p)"
proof -
  let ?P = "\<lambda>i. expected_for_header (rx_buf p ! i) \<noteq> 0"
  let ?n = "unat (rx_len p)"
  let ?xs = "p_bytes p"
  have len: "length ?xs = ?n" using wf by (rule length_p_bytes)
  have pos: "0 < ?n" using ne by (simp add: unat_gt_0)
  show ?thesis
  proof (cases "find ?P [1..<?n]")
    case None
    then have "\<forall>i \<in> {1..<?n}. expects (?xs ! i) = 0"
      by (auto simp: find_None_iff expects_eq_0 nth_p_bytes)
    then have "\<forall>b \<in> set (tl ?xs). expects b = 0"
      using len by (fastforce simp: in_set_conv_nth nth_tl)
    then have "resync_bytes ?xs = []" by (simp add: resync_bytes_def)
    with None wf show ?thesis by (simp add: resync_parser_def p_wf_reset)
  next
    case (Some i)
    have i: "1 \<le> i" "i < ?n" using find_upt_range [OF Some] by simp_all
    have hit: "expects (?xs ! i) \<noteq> 0"
      using Some i by (auto simp: find_Some_iff expects_eq_0 nth_p_bytes)
    obtain j where j: "j < length [1..<?n]" "[1..<?n] ! j = i" "\<forall>m < j. \<not> ?P ([1..<?n] ! m)"
      using Some unfolding find_Some_iff by blast
    have ji: "j = i - 1" using j(1,2) by simp
    have miss: "expects (?xs ! k) = 0" if "1 \<le> k" "k < i" for k
    proof -
      have lt: "k - 1 < j" using that ji by simp
      have "[1..<?n] ! (k - 1) = k" using that i by simp
      with j(3) [rule_format, OF lt] have "\<not> ?P k" by simp
      with that i show ?thesis by (simp add: expects_eq_0 nth_p_bytes)
    qed
    have u: "unat (of_nat i :: u8) = i" using i unat_lt_u8 [of "rx_len p"] by (simp add: unat_of_nat)
    then have "(0 :: u8) < of_nat i" using i by (simp add: word_less_nat_alt)
    from shift_refines [OF _ this, of "p\<lparr>rx_resync_count := rx_resync_count p + 1\<rparr>"] wf
    have sh: "p_wf (resync_parser p) \<and> p_bytes (resync_parser p) = shift_bytes i ?xs"
      using Some u by (simp add: resync_parser_def)
    have "drop (i - 1) (tl ?xs) = drop i ?xs" using i by (simp add: drop_Suc [symmetric])
    then have split: "tl ?xs = take (i - 1) (tl ?xs) @ drop i ?xs" by (metis append_take_drop_id)
    have d: "drop i ?xs = ?xs ! i # drop (Suc i) ?xs" using i len by (simp add: Cons_nth_drop_Suc)
    have "\<forall>b \<in> set (take (i - 1) (tl ?xs)). expects b = 0"
    proof
      fix b assume "b \<in> set (take (i - 1) (tl ?xs))"
      then obtain k where "k < i - 1" "b = tl ?xs ! k" using i len by (auto simp: in_set_conv_nth)
      with miss [of "Suc k"] i len show "expects b = 0" by (simp add: nth_tl)
    qed
    then have "resync_bytes ?xs = dropWhile (\<lambda>b. expects b = 0) (drop i ?xs)"
      unfolding resync_bytes_def by (subst split) (simp add: dropWhile_append2)
    also have "\<dots> = drop i ?xs" using hit by (simp add: d)
    finally have "resync_bytes ?xs = drop i ?xs" .
    moreover have "shift_bytes i ?xs = drop i ?xs" using hit by (simp add: shift_bytes_def d)
    ultimately show ?thesis using sh by simp
  qed
qed

lemma valid_refines:
  assumes wf: "p_wf p" and full: "rx_expected p \<le> rx_len p" and ne: "rx_len p \<noteq> 0"
  shows "frame_is_valid p = valid_bytes (p_bytes p)"
proof -
  have ex: "expects (rx_buf p ! 0) \<le> unat (rx_len p)" and pos: "0 < unat (rx_len p)"
    using wf full ne by (simp_all add: p_wf_def expects_def word_le_nat_alt unat_gt_0)
  have len: "length (rx_buf p) = 24" "unat (rx_len p) \<le> 24" using wf by (simp_all add: p_wf_def)
  have nth: "p_bytes p ! k = rx_buf p ! k" if "k < expects (rx_buf p ! 0)" for k
    using that ex by (simp add: nth_p_bytes)
  have tk: "take k (p_bytes p) = take k (rx_buf p)" if "k \<le> expects (rx_buf p ! 0)" for k
    using that ex by (simp add: p_bytes_def min_def)
  have hd: "p_bytes p ! 0 = rx_buf p ! 0" using pos by (simp add: nth_p_bytes)
  consider "rx_buf p ! 0 = 0xA6" | "rx_buf p ! 0 = 0xA1" | "rx_buf p ! 0 = 0xA9" | "rx_buf p ! 0 = 0x61"
    using wf ne by (auto simp: p_wf_def expected_for_header_def split: if_splits)
  then show ?thesis
  proof cases
    case 3
    then have e: "expects (rx_buf p ! 0) = 21" by (simp add: expects_cases)
    let ?m = "rx_buf p ! 1"
    have m: "p_bytes p ! 1 = ?m" using nth e by simp
    show ?thesis
    proof (cases "unat ?m \<le> 18")
      case True
      then have u: "unat (2 + ?m) = 2 + unat ?m" by (simp add: unat_word_ariths)
      have "checksum (rx_buf p) (2 + ?m) = list_checksum (take (2 + unat ?m) (rx_buf p))"
        using checksum_eq [of "2 + ?m" "rx_buf p"] True len u by simp
      then show ?thesis
        using 3 True hd m tk [of "2 + unat ?m"] nth [of "2 + unat ?m"] e u
        by (simp add: frame_is_valid_def valid_bytes_def Let_def word_le_nat_alt word_less_nat_alt)
    next
      case False
      with 3 hd m show ?thesis
        by (simp add: frame_is_valid_def valid_bytes_def Let_def word_le_nat_alt)
    qed
  qed (use hd nth tk len in \<open>simp_all add: frame_is_valid_def valid_bytes_def expects_cases checksum_eq\<close>)
qed

lemma deliver_refines:
  assumes wf: "p_wf p" and full: "rx_expected p \<le> rx_len p" and ne: "rx_len p \<noteq> 0"
    and valid: "frame_is_valid p"
  shows "dispatch_frame env p w = deliver env (decode (p_bytes p)) w"
proof -
  have ex: "expects (rx_buf p ! 0) \<le> unat (rx_len p)" and pos: "0 < unat (rx_len p)"
    using wf full ne by (simp_all add: p_wf_def expects_def word_le_nat_alt unat_gt_0)
  have len: "length (rx_buf p) = 24" "unat (rx_len p) \<le> 24" using wf by (simp_all add: p_wf_def)
  have hd: "p_bytes p ! 0 = rx_buf p ! 0" using pos by (simp add: nth_p_bytes)
  have nth: "p_bytes p ! k = rx_buf p ! k" if "k < expects (rx_buf p ! 0)" for k
    using that ex by (simp add: nth_p_bytes)
  have tk: "take k (drop j (p_bytes p)) = take k (drop j (rx_buf p))" if "k + j \<le> expects (rx_buf p ! 0)" for k j
    using that ex by (simp add: p_bytes_def take_drop min_def)
  consider "rx_buf p ! 0 = 0xA6" | "rx_buf p ! 0 = 0xA1" | "rx_buf p ! 0 = 0xA9" | "rx_buf p ! 0 = 0x61"
    using wf ne by (auto simp: p_wf_def expected_for_header_def split: if_splits)
  then show ?thesis
  proof cases
    case 3
    let ?m = "rx_buf p ! 1"
    have m: "unat ?m \<le> 18" using 3 valid by (simp add: frame_is_valid_def Let_def word_le_nat_alt)
    have e: "expects (rx_buf p ! 0) = 21" using 3 by (simp add: expects_cases)
    have "length (take (unat ?m) (drop 2 (rx_buf p))) = unat ?m" using m len by simp
    with 3 hd nth [of 1] tk [of "unat ?m" 2] m e show ?thesis
      by (simp add: dispatch_frame_def decode_def Let_def)
  qed (use hd nth tk in \<open>simp_all add: dispatch_frame_def decode_def Let_def expects_cases\<close>)
qed

text \<open>The loop on lists.\<close>

function list_process :: "'w uart_env \<Rightarrow> u8 list \<Rightarrow> 'w \<Rightarrow> u8 list \<times> 'w" where
  "list_process env xs w =
     (if xs \<noteq> [] \<and> expects (xs ! 0) \<noteq> 0 \<and> expects (xs ! 0) \<le> length xs then
        (if valid_bytes xs then
           list_process env (shift_bytes (expects (xs ! 0)) xs) (deliver env (decode xs) w)
         else list_process env (resync_bytes xs) w)
      else (xs, w))"
  by pat_completeness auto

lemma length_shift_bytes: "length (shift_bytes n xs) \<le> length xs - n"
proof (cases "drop n xs")
  case (Cons y ys)
  then have "length (y # ys) = length xs - n" by (metis length_drop)
  with Cons show ?thesis by (simp add: shift_bytes_def)
qed (simp add: shift_bytes_def)

lemma length_resync_bytes: "length (resync_bytes xs) \<le> length xs - 1"
  using length_dropWhile_le [of "\<lambda>b. expects b = 0" "tl xs"] by (simp add: resync_bytes_def)

termination list_process
proof (relation "measure (\<lambda>(env, xs, w). length xs)")
  fix env :: "'w uart_env" and xs and w :: 'w
  assume c: "xs \<noteq> [] \<and> expects (xs ! 0) \<noteq> 0 \<and> expects (xs ! 0) \<le> length xs"
  then have pos: "0 < length xs" and e: "0 < expects (xs ! 0)" by simp_all
  have a: "length (shift_bytes (expects (xs ! 0)) xs) < length xs"
    using length_shift_bytes [of "expects (xs ! 0)" xs] pos e by linarith
  have b: "length (resync_bytes xs) < length xs"
    using length_resync_bytes [of xs] pos by linarith
  show "((env, shift_bytes (expects (xs ! 0)) xs, deliver env (decode xs) w), env, xs, w)
      \<in> measure (\<lambda>(env, xs, w). length xs)" using a by simp
  show "((env, resync_bytes xs, w), env, xs, w) \<in> measure (\<lambda>(env, xs, w). length xs)" using b by simp
qed simp

declare list_process.simps [simp del]

text \<open>Every step of the loop drops bytes at the front: what is left is a suffix.\<close>

lemma suffix_shift_bytes: "suffix (shift_bytes n xs) xs"
proof (cases "drop n xs")
  case (Cons y ys)
  then have "suffix (y # ys) xs" using suffix_drop [of n xs] by simp
  with Cons show ?thesis by (simp add: shift_bytes_def)
qed (simp add: shift_bytes_def)

lemma suffix_resync_bytes: "suffix (resync_bytes xs) xs"
  unfolding resync_bytes_def by (rule suffix_order.order_trans [OF suffix_dropWhile suffix_tl])

lemma suffix_list_process: "suffix (fst (list_process env xs w)) xs"
proof (induction env xs w rule: list_process.induct)
  case (1 env xs w)
  then show ?case
    using suffix_shift_bytes [of "expects (xs ! 0)" xs] suffix_resync_bytes [of xs]
    by (auto simp: list_process.simps [of env xs] intro: suffix_order.order_trans)
qed

lemma process_refines:
  assumes "p_wf p"
  shows "p_ready (fst (process_rx_buf env p w))
       \<and> (p_bytes (fst (process_rx_buf env p w)), snd (process_rx_buf env p w))
           = list_process env (p_bytes p) w"
  using assms
proof (induction env p w rule: process_rx_buf.induct)
  case (1 env p w)
  note wf = 1(3)
  have len: "length (p_bytes p) = unat (rx_len p)" using wf by (rule length_p_bytes)
  show ?case
  proof (cases "rx_len p \<noteq> 0 \<and> rx_expected p \<noteq> 0 \<and> rx_expected p \<le> rx_len p")
    case True
    then have pos: "0 < unat (rx_len p)" by (simp add: unat_gt_0)
    then have hd: "p_bytes p ! 0 = rx_buf p ! 0" by (simp add: nth_p_bytes)
    have e: "expects (p_bytes p ! 0) = unat (rx_expected p)"
      using wf True by (simp add: p_wf_def expects_def hd)
    have cond: "p_bytes p \<noteq> [] \<and> expects (p_bytes p ! 0) \<noteq> 0 \<and> expects (p_bytes p ! 0) \<le> length (p_bytes p)"
      using True wf len e by (auto simp: p_bytes_Nil word_le_nat_alt unat_eq_0)
    show ?thesis
    proof (cases "frame_is_valid p")
      case v: True
      have "0 < rx_expected p" using True by (simp add: word_neq_0_conv)
      note sh = shift_refines [OF wf this]
      have "dispatch_frame env p w = deliver env (decode (p_bytes p)) w"
        using deliver_refines [OF wf _ _ v] True by simp
      then show ?thesis
        using 1(1) [OF True v] sh True v cond e valid_refines [OF wf, of] 
        by (simp add: process_rx_buf.simps [of env p] list_process.simps [of env "p_bytes p"])
    next
      case v: False
      let ?q = "p\<lparr>rx_frame_error_count := rx_frame_error_count p + 1\<rparr>"
      have rs: "p_wf (resync_parser ?q) \<and> p_bytes (resync_parser ?q) = resync_bytes (p_bytes p)"
        using resync_refines [of ?q] wf True by simp
      then show ?thesis
        using 1(2) [OF True v] True v cond valid_refines [OF wf, of]
        by (simp add: process_rx_buf.simps [of env p] list_process.simps [of env "p_bytes p"])
    qed
  next
    case False
    then have "rx_len p \<noteq> 0 \<Longrightarrow> rx_len p < rx_expected p" using wf by (auto simp: p_wf_def not_le)
    moreover have "\<not> (p_bytes p \<noteq> [] \<and> expects (p_bytes p ! 0) \<noteq> 0 \<and> expects (p_bytes p ! 0) \<le> length (p_bytes p))"
    proof
      assume c: "p_bytes p \<noteq> [] \<and> expects (p_bytes p ! 0) \<noteq> 0 \<and> expects (p_bytes p ! 0) \<le> length (p_bytes p)"
      then have "rx_len p \<noteq> 0" using wf by (simp add: p_bytes_Nil)
      moreover from this have "p_bytes p ! 0 = rx_buf p ! 0" by (simp add: nth_p_bytes unat_gt_0)
      ultimately show False using False c wf len by (simp add: p_wf_def expects_def word_le_nat_alt)
    qed
    ultimately show ?thesis
      using False wf by (auto simp: p_ready_def process_rx_buf.simps [of env p] list_process.simps [of env "p_bytes p"])
  qed
qed

section \<open>Feeding bytes\<close>

definition list_feed :: "'w uart_env \<Rightarrow> u8 \<Rightarrow> u8 list \<times> 'w \<Rightarrow> u8 list \<times> 'w" where
  "list_feed env b = (\<lambda>(xs, w).
     if xs = [] \<and> expects b = 0 then ([], w) else list_process env (xs @ [b]) w)"

lemma p_ready_init [simp]: "p_ready uart_parser_init" "p_bytes uart_parser_init = []"
  by (simp_all add: p_ready_def p_wf_def p_bytes_def uart_parser_init_def)

lemma ready_lt: "p_ready p \<Longrightarrow> unat (rx_len p) \<le> 20"
proof -
  assume r: "p_ready p"
  show ?thesis
  proof (cases "rx_len p = 0")
    case False
    with r have "unat (rx_len p) < expects (rx_buf p ! 0)"
      by (auto simp: p_ready_def p_wf_def expects_def word_less_nat_alt)
    with expects_le [of "rx_buf p ! 0"] show ?thesis by linarith
  qed simp
qed

lemma feed_refines:
  assumes r: "p_ready p"
  shows "p_ready (fst (feed_byte env b p w))
       \<and> (p_bytes (fst (feed_byte env b p w)), snd (feed_byte env b p w)) = list_feed env b (p_bytes p, w)"
proof -
  have wf: "p_wf p" using r by (simp add: p_ready_def)
  have len: "length (rx_buf p) = 24" using wf by (simp add: p_wf_def)
  define p1 where "p1 = (if rx_len p = 0 then p\<lparr>rx_expected := expected_for_header b\<rparr> else p)"
  have same: "rx_len p1 = rx_len p" "rx_buf p1 = rx_buf p" by (simp_all add: p1_def)
  have lt: "unat (rx_len p) \<le> 20" using r by (rule ready_lt)
  have unf: "feed_byte env b p w = (if rx_len p = 0 \<and> rx_expected p1 = 0 then (p1, w)
      else process_rx_buf env (p1\<lparr>rx_buf := (rx_buf p)[unat (rx_len p) := b], rx_len := rx_len p + 1\<rparr>) w)"
    using lt by (simp add: feed_byte_def Let_def KBD_UART_MAX_FRAME_def same flip: p1_def)
  show ?thesis
  proof (cases "rx_len p = 0 \<and> rx_expected p1 = 0")
    case True
    then have "expects b = 0" by (auto simp: p1_def expects_eq_0)
    with True wf r show ?thesis
      by (auto simp: unf p1_def p_ready_def p_wf_def p_bytes_def list_feed_def)
  next
    case False
    define p2 where "p2 = p1\<lparr>rx_buf := (rx_buf p)[unat (rx_len p) := b], rx_len := rx_len p + 1\<rparr>"
    have inc: "unat (rx_len p + 1) = Suc (unat (rx_len p))" using lt by (simp add: unat_inc_u8)
    have "rx_expected p1 = expected_for_header ((rx_buf p)[unat (rx_len p) := b] ! 0) \<and> rx_expected p1 \<noteq> 0"
    proof (cases "rx_len p = 0")
      case True
      with False len show ?thesis by (simp add: p1_def)
    next
      case ne: False
      then have "unat (rx_len p) \<noteq> 0" by (simp add: unat_eq_0)
      with ne wf show ?thesis by (auto simp: p1_def p_wf_def)
    qed
    then have wf2: "p_wf p2" using len lt inc by (auto simp: p2_def p_wf_def)
    have bytes2: "p_bytes p2 = p_bytes p @ [b]"
      using len lt inc by (simp add: p2_def p_bytes_def take_Suc_conv_app_nth)
    have "\<not> (p_bytes p = [] \<and> expects b = 0)"
      using False wf by (auto simp: p_bytes_Nil p1_def expects_eq_0)
    then have "list_feed env b (p_bytes p, w) = list_process env (p_bytes p2) w"
      unfolding list_feed_def bytes2 by auto
    moreover have "feed_byte env b p w = process_rx_buf env p2 w"
      unfolding unf p2_def using False by auto
    ultimately show ?thesis using process_refines [OF wf2, of env w] by simp
  qed
qed

lemma suffix_feed:
  assumes "p_ready p"
  shows "suffix (p_bytes (fst (feed_byte env b p w))) (p_bytes p @ [b])"
proof -
  have "p_bytes (fst (feed_byte env b p w)) = fst (list_feed env b (p_bytes p, w))"
    using feed_refines [OF assms, of env b w] by (metis fst_conv)
  then show ?thesis using suffix_list_process [of env "p_bytes p @ [b]" w] by (simp add: list_feed_def)
qed

definition list_feeds :: "'w uart_env \<Rightarrow> u8 list \<Rightarrow> u8 list \<times> 'w \<Rightarrow> u8 list \<times> 'w" where
  "list_feeds env bs s = fold (list_feed env) bs s"

lemma feeds_refine:
  assumes "p_ready p"
  shows "p_ready (fst (feed_bytes env bs p w))
       \<and> (p_bytes (fst (feed_bytes env bs p w)), snd (feed_bytes env bs p w)) = list_feeds env bs (p_bytes p, w)"
  using assms
proof (induction bs arbitrary: p w)
  case Nil
  then show ?case by (simp add: feed_bytes_def list_feeds_def)
next
  case (Cons b bs)
  note f = feed_refines [OF Cons.prems, of env b w]
  have "feed_bytes env (b # bs) p w = feed_bytes env bs (fst (feed_byte env b p w)) (snd (feed_byte env b p w))"
    by (simp add: feed_bytes_def split_beta)
  moreover have "list_feeds env (b # bs) (p_bytes p, w) = list_feeds env bs (list_feed env b (p_bytes p, w))"
    by (simp add: list_feeds_def)
  ultimately show ?case
    using Cons.IH [OF conjunct1 [OF f], of "snd (feed_byte env b p w)"] f by (metis prod.collapse)
qed

section \<open>Frames on the wire\<close>

fun encode :: "rx_frame \<Rightarrow> u8 list \<Rightarrow> u8 list" where
  "encode (Cmd_A6 sub) pad = [0xA6, sub, 0xA6 + sub]"
| "encode (Hid_A1 report) pad = 0xA1 # report @ [0xA1 + sum_list report]"
| "encode (Name_A9 name) pad =
     0xA9 # of_nat (length name) # name @ [0xA9 + of_nat (length name) + sum_list name] @ pad"
| "encode Host_Ack pad = [0x61, 0x0D, 0x0A]"

text \<open>A report has eight bytes; a name at most eighteen, padded so that the frame has 21 bytes.\<close>

fun frame_ok :: "rx_frame \<Rightarrow> u8 list \<Rightarrow> bool" where
  "frame_ok (Hid_A1 report) pad \<longleftrightarrow> length report = 8"
| "frame_ok (Name_A9 name) pad \<longleftrightarrow> length name + length pad = 18"
| "frame_ok _ pad \<longleftrightarrow> True"

lemma encode_facts:
  assumes "frame_ok f pad"
  shows "encode f pad \<noteq> []" "expects (encode f pad ! 0) = length (encode f pad)"
    "expects (encode f pad ! 0) \<noteq> 0" "valid_bytes (encode f pad)" "decode (encode f pad) = f"
proof -
  show "encode f pad \<noteq> []" by (cases f) simp_all
  show "expects (encode f pad ! 0) = length (encode f pad)" and "expects (encode f pad ! 0) \<noteq> 0"
    using assms by (cases f; simp add: expects_cases)+
  show "valid_bytes (encode f pad)"
    using assms
    by (cases f) (simp_all add: valid_bytes_def list_checksum_def unat_of_nat nth_append add.assoc)
  show "decode (encode f pad) = f"
    using assms by (cases f) (simp_all add: decode_def unat_of_nat)
qed

text \<open>What arrives between resynchronisations: frames, and between them bytes that start none.\<close>

datatype wire_item = Noise u8 | Wire_Frame rx_frame "u8 list"

fun item_bytes :: "wire_item \<Rightarrow> u8 list" where
  "item_bytes (Noise b) = [b]"
| "item_bytes (Wire_Frame f pad) = encode f pad"

fun item_ok :: "wire_item \<Rightarrow> bool" where
  "item_ok (Noise b) \<longleftrightarrow> expected_for_header b = 0"
| "item_ok (Wire_Frame f pad) \<longleftrightarrow> frame_ok f pad"

fun item_deliver :: "'w uart_env \<Rightarrow> wire_item \<Rightarrow> 'w \<Rightarrow> 'w" where
  "item_deliver env (Noise b) w = w"
| "item_deliver env (Wire_Frame f pad) w = deliver env f w"

lemma list_feeds_append: "list_feeds env (xs @ ys) s = list_feeds env ys (list_feeds env xs s)"
  by (simp add: list_feeds_def)

lemma list_feeds_partial:
  assumes "xs \<noteq> []" and "length (xs @ bs) < expects (xs ! 0)"
  shows "list_feeds env bs (xs, w) = (xs @ bs, w)"
  using assms
proof (induction bs arbitrary: xs)
  case Nil
  then show ?case by (simp add: list_feeds_def)
next
  case (Cons b bs)
  have hd: "(xs @ [b]) ! 0 = xs ! 0" using Cons.prems(1) by (simp add: nth_append)
  have "list_process env (xs @ [b]) w = (xs @ [b], w)"
    using Cons.prems hd by (simp add: list_process.simps [of env "xs @ [b]"])
  moreover have "list_feeds env bs (xs @ [b], w) = ((xs @ [b]) @ bs, w)"
    using Cons.prems hd by (intro Cons.IH) simp_all
  ultimately show ?case using Cons.prems(1) by (simp add: list_feeds_def list_feed_def)
qed

lemma list_feed_last:
  assumes "xs @ [b] = ys" and "expects (ys ! 0) = length ys" and "expects (ys ! 0) \<noteq> 0"
    and "valid_bytes ys" and "xs \<noteq> []"
  shows "list_feed env b (xs, w) = ([], deliver env (decode ys) w)"
proof -
  have "list_process env ys w = list_process env (shift_bytes (length ys) ys) (deliver env (decode ys) w)"
    using assms by (subst list_process.simps) auto
  also have "\<dots> = ([], deliver env (decode ys) w)"
    by (simp add: shift_bytes_def list_process.simps [of env "[]"])
  finally show ?thesis using assms(1,5) by (simp add: list_feed_def)
qed

lemma list_feeds_frame:
  assumes "frame_ok f pad"
  shows "list_feeds env (encode f pad) ([], w) = ([], deliver env f w)"
proof -
  note enc = encode_facts [OF assms]
  obtain h mid l where e: "encode f pad = h # mid @ [l]"
  proof -
    have "tl (encode f pad) \<noteq> []" by (cases f) simp_all
    moreover have "encode f pad = hd (encode f pad) # tl (encode f pad)" using enc(1) by simp
    ultimately have "encode f pad = hd (encode f pad) # butlast (tl (encode f pad)) @ [last (tl (encode f pad))]"
      by simp
    then show thesis by (rule that)
  qed
  have hd: "expects h \<noteq> 0" and len: "expects h = length (h # mid @ [l])"
    using enc(2,3) unfolding e by simp_all
  have "list_feed env h ([], w) = ([h], w)"
    using hd len by (simp add: list_feed_def list_process.simps [of env "[h]"])
  moreover have "list_feeds env mid ([h], w) = ([h] @ mid, w)"
    using len by (intro list_feeds_partial) simp_all
  moreover have "list_feed env l ([h] @ mid, w) = ([], deliver env (decode (encode f pad)) w)"
  proof (rule list_feed_last)
    show "([h] @ mid) @ [l] = encode f pad" by (simp add: e)
  qed (use enc(2-4) in simp_all)
  ultimately show ?thesis unfolding enc(5) unfolding e by (simp add: list_feeds_def)
qed

lemma list_feeds_items:
  "list_all item_ok its \<Longrightarrow>
    list_feeds env (concat (map item_bytes its)) ([], w) = ([], fold (item_deliver env) its w)"
proof (induction its arbitrary: w)
  case Nil
  then show ?case by (simp add: list_feeds_def)
next
  case (Cons it its)
  have "list_feeds env (item_bytes it) ([], w) = ([], item_deliver env it w)"
    using Cons.prems
    by (cases it) (simp_all add: list_feeds_frame, simp add: list_feeds_def list_feed_def expects_eq_0)
  with Cons show ?case by (simp add: list_feeds_append)
qed

section \<open>No frame out of thin air\<close>

text \<open>A history: pieces of input dropped, each followed by a frame delivered, and a last piece
  dropped.\<close>

definition accounts :: "'w uart_env \<Rightarrow> 'w \<Rightarrow> u8 list \<Rightarrow> (u8 list \<times> u8 list) list \<Rightarrow> u8 list \<Rightarrow> u8 list \<times> 'w \<Rightarrow> bool" where
  "accounts env w0 input parts gap s \<longleftrightarrow>
     input = concat (map (\<lambda>(g, f). g @ f) parts) @ gap @ fst s
     \<and> snd s = fold (\<lambda>(g, f). deliver env (decode f)) parts w0
     \<and> list_all (\<lambda>(g, f). f \<noteq> [] \<and> length f = expects (f ! 0) \<and> valid_bytes f) parts"

lemma valid_bytes_take:
  assumes "expects (xs ! 0) \<noteq> 0" and "expects (xs ! 0) \<le> length xs"
  shows "valid_bytes (take (expects (xs ! 0)) xs) = valid_bytes xs"
    and "valid_bytes xs \<Longrightarrow> decode (take (expects (xs ! 0)) xs) = decode xs"
proof -
  have h: "take (expects (xs ! 0)) xs ! 0 = xs ! 0" using assms by simp
  consider "xs ! 0 = 0xA6" | "xs ! 0 = 0xA1" | "xs ! 0 = 0xA9" | "xs ! 0 = 0x61"
    using assms(1) by (auto simp: expects_cases split: if_splits)
  note cs = this
  from cs show "valid_bytes (take (expects (xs ! 0)) xs) = valid_bytes xs"
  proof cases
    case 3
    then show ?thesis
      using assms unfolding valid_bytes_def h by (cases "unat (xs ! 1) \<le> 18") (simp_all add: expects_cases min_def)
  qed (use assms in \<open>simp_all add: valid_bytes_def h expects_cases min_def\<close>)
  assume v: "valid_bytes xs"
  from cs show "decode (take (expects (xs ! 0)) xs) = decode xs"
  proof cases
    case 3
    then have "unat (xs ! 1) \<le> 18" using v by (simp add: valid_bytes_def)
    with 3 assms show ?thesis unfolding decode_def h by (simp add: expects_cases min_def drop_take)
  qed (use assms in \<open>simp_all add: decode_def h expects_cases min_def drop_take\<close>)
qed

lemma process_accounts:
  "accounts env w0 input parts gap (xs, w) \<Longrightarrow>
    \<exists>parts gap. accounts env w0 input parts gap (list_process env xs w)"
proof (induction env xs w arbitrary: parts gap rule: list_process.induct)
  case (1 env xs w)
  show ?case
  proof (cases "xs \<noteq> [] \<and> expects (xs ! 0) \<noteq> 0 \<and> expects (xs ! 0) \<le> length xs")
    case c: True
    let ?e = "expects (xs ! 0)"
    show ?thesis
    proof (cases "valid_bytes xs")
      case v: True
      have "shift_bytes ?e xs = drop ?e xs \<or> shift_bytes ?e xs = []"
        by (simp add: shift_bytes_def split: list.split)
      then obtain rest where rest: "rest @ shift_bytes ?e xs = drop ?e xs" by (metis append_Nil append_Nil2)
      have "take ?e xs ! 0 = xs ! 0" using c by simp
      then have "accounts env w0 input (parts @ [(gap, take ?e xs)]) rest
          (shift_bytes ?e xs, deliver env (decode xs) w)"
        using 1(3) c v rest valid_bytes_take [of xs] by (auto simp: accounts_def)
      then show ?thesis using 1(1) [OF c v] c v by (simp add: list_process.simps [of env xs])
    next
      case v: False
      have "xs = (hd xs # takeWhile (\<lambda>b. expects b = 0) (tl xs)) @ resync_bytes xs"
        using c by (simp add: resync_bytes_def)
      with 1(3) have "accounts env w0 input parts
          (gap @ hd xs # takeWhile (\<lambda>b. expects b = 0) (tl xs)) (resync_bytes xs, w)"
        by (simp add: accounts_def)
      then show ?thesis using 1(2) [OF c v] c v by (simp add: list_process.simps [of env xs])
    qed
  next
    case False
    then show ?thesis using 1(3) by (auto simp: list_process.simps [of env xs])
  qed
qed

lemma feeds_account: "\<exists>parts gap. accounts env w bs parts gap (list_feeds env bs ([], w))"
proof (induction bs rule: rev_induct)
  case Nil
  have "accounts env w [] [] [] ([], w)" by (simp add: accounts_def)
  then show ?case by (auto simp: list_feeds_def)
next
  case (snoc b bs)
  then obtain parts gap xs w' where s: "list_feeds env bs ([], w) = (xs, w')"
    and a: "accounts env w bs parts gap (xs, w')" by (metis prod.collapse)
  show ?case
  proof (cases "xs = [] \<and> expects b = 0")
    case True
    then have "list_feeds env (bs @ [b]) ([], w) = ([], w')"
      using s by (simp add: list_feeds_def list_feed_def)
    moreover have "accounts env w (bs @ [b]) parts (gap @ [b]) ([], w')" using a True by (simp add: accounts_def)
    ultimately show ?thesis by auto
  next
    case False
    then have "list_feeds env (bs @ [b]) ([], w) = list_process env (xs @ [b]) w'"
      using s by (auto simp: list_feeds_def list_feed_def)
    moreover have "accounts env w (bs @ [b]) parts gap (xs @ [b], w')" using a by (simp add: accounts_def)
    ultimately show ?thesis using process_accounts by metis
  qed
qed

section \<open>Properties\<close>

lemma p_ready_fresh: "p_ready p \<Longrightarrow> rx_len p = 0 \<Longrightarrow> p_bytes p = []"
  by (simp add: p_ready_def p_bytes_Nil)

text \<open>
  C34: the round trip.  From a parser with an empty buffer, any stream of well-formed frames (A6
  commands, A1 reports, padded A9 names, host ACKs) with noise between them that starts no frame is
  delivered frame by frame, in order, each once and with its payload, and the buffer ends empty.
\<close>
theorem uart_parser_roundtrip:
  assumes "p_ready p" and "rx_len p = 0" and "list_all item_ok its"
  shows "snd (feed_bytes env (concat (map item_bytes its)) p w) = fold (item_deliver env) its w
       \<and> rx_len (fst (feed_bytes env (concat (map item_bytes its)) p w)) = 0"
  using feeds_refine [OF assms(1), of env "concat (map item_bytes its)" w]
    list_feeds_items [OF assms(3), of env w] p_ready_fresh [OF assms(1,2)] p_bytes_Nil
  by (auto simp: p_ready_def)

theorem uart_parser_roundtrip_witness:
  "snd (feed_bytes \<lparr>env_ack = \<lambda>w. w @ [0x61], env_frame_cb = Some (\<lambda>c s pl n w. w @ [c, s, n]), env_host_ack = \<lambda>w. w @ [0]\<rparr>
      [0x00, 0xA6, 0x30, 0xD6, 0x61, 0x0D, 0x0A] uart_parser_init ([] :: u8 list)) = [0x61, 0xA6, 0x30, 0, 0]"
  using uart_parser_roundtrip [of uart_parser_init "[Noise 0, Wire_Frame (Cmd_A6 0x30) [], Wire_Frame Host_Ack []]"
    "\<lparr>env_ack = \<lambda>w. w @ [0x61], env_frame_cb = Some (\<lambda>c s pl n w. w @ [c, s, n]), env_host_ack = \<lambda>w. w @ [0]\<rparr>" "[]"]
  by (simp add: expected_for_header_def call_cb_def) (simp add: uart_parser_init_def)

text \<open>
  C35: no frame out of thin air.  Whatever bytes arrive, garbage included, every delivery is
  accounted for by a segment of the input: the input splits into dropped pieces and frames, in
  order and without overlap, followed by what is still buffered; the frames are complete, with a
  header, that header's length and a correct checksum; and the effect is exactly the delivery of
  those frames, in that order.
\<close>
theorem uart_parser_sound:
  "\<exists>parts gap. bs = concat (map (\<lambda>(g, f). g @ f) parts) @ gap @ p_bytes (fst (feed_bytes env bs uart_parser_init w))
     \<and> snd (feed_bytes env bs uart_parser_init w) = fold (\<lambda>(g, f). deliver env (decode f)) parts w
     \<and> list_all (\<lambda>(g, f). f \<noteq> [] \<and> length f = expects (f ! 0) \<and> valid_bytes f) parts"
proof -
  have "\<exists>parts gap. accounts env w bs parts gap
      (p_bytes (fst (feed_bytes env bs uart_parser_init w)), snd (feed_bytes env bs uart_parser_init w))"
    using feeds_refine [OF p_ready_init(1), of env bs w] feeds_account [of env w bs] by simp
  then show ?thesis unfolding accounts_def by simp
qed

text \<open>
  Bounds.  After any bytes the parser is between frames: the buffer keeps its 24 bytes, at most
  20 of them are in use, fewer than the frame they start will have, and the stored length is that
  of its header.  So no read or write leaves the buffer and the overflow reset of \<open>feed_byte\<close> is
  never taken.
\<close>
theorem uart_parser_bounds:
  "let p = fst (feed_bytes env bs uart_parser_init w) in
     length (rx_buf p) = 24 \<and> unat (rx_len p) \<le> 20
     \<and> (rx_len p = 0 \<or> (rx_len p < rx_expected p \<and> rx_expected p = expected_for_header (rx_buf p ! 0)))"
  using feeds_refine [OF p_ready_init(1), of env bs w] ready_lt [of "fst (feed_bytes env bs uart_parser_init w)"]
  by (auto simp: Let_def p_ready_def p_wf_def)

end
