(* ===== verification/Uart_Ring.thy ===== *)
theory Uart_Ring
  imports Bounded_Queue Uart_Parser
begin

text \<open>
  The receive path of \<^verbatim>\<open>firmware/src/keyboard_uart.c\<close> above the parser: the 64-byte ring between
  \<open>UART1_IRQHandler\<close> and \<open>KeyboardUart_Poll\<close>, the overrun latch, and the activity latch.  The
  handler's view of the hardware (the pending cause, the overrun flag, the bytes in the FIFO) is
  its argument.  The ring is an instance of the dropping queue; the poll is modelled whole and, for
  interleavings with the interrupt, in the phases between which the interrupt can fire.
\<close>

section \<open>State and operations\<close>

definition KBD_UART_RING_SIZE :: nat where "KBD_UART_RING_SIZE = 64"

record uart_rx =
  rx_ring :: "u8 list"
  rx_ring_head :: u8
  rx_ring_tail :: u8
  rx_overrun_latch :: bool
  rx_activity_latch :: bool
  rx_overrun_count :: u32
  rx_parser :: uart_parser

text \<open>One turn of the handler's drain loop: a byte read from \<open>RBR\<close>.\<close>

definition isr_byte :: "u8 \<Rightarrow> uart_rx \<Rightarrow> uart_rx" where
  "isr_byte b u0 =
     (let u = u0\<lparr>rx_activity_latch := True\<rparr> in
      if unat (rx_ring_head u - rx_ring_tail u) < KBD_UART_RING_SIZE then
        u\<lparr>rx_ring := (rx_ring u)[unat (rx_ring_head u AND 63) := b],
          rx_ring_head := rx_ring_head u + 1\<rparr>
      else u\<lparr>rx_overrun_latch := True\<rparr>)"

definition UART1_IRQHandler :: "bool \<Rightarrow> bool \<Rightarrow> u8 list \<Rightarrow> uart_rx \<Rightarrow> uart_rx" where
  "UART1_IRQHandler line_stat over_err fifo u =
     (let u1 = (if line_stat \<and> over_err then u\<lparr>rx_overrun_latch := True\<rparr> else u)
      in fold isr_byte fifo u1)"

definition rx_pop :: "uart_rx \<Rightarrow> uart_rx" where
  "rx_pop u = u\<lparr>rx_ring_tail := rx_ring_tail u + 1\<rparr>"

definition poll_hole :: "uart_rx \<Rightarrow> uart_rx" where
  "poll_hole u = u\<lparr>rx_ring_tail := rx_ring_head u, rx_overrun_latch := False,
                   rx_overrun_count := rx_overrun_count u + 1, rx_parser := reset_parser (rx_parser u)\<rparr>"

definition poll_feed :: "'w uart_env \<Rightarrow> uart_rx \<Rightarrow> 'w \<Rightarrow> uart_rx \<times> 'w" where
  "poll_feed env u w =
     (let r = feed_byte env (rx_ring u ! unat (rx_ring_tail u AND 63)) (rx_parser u) w
      in (u\<lparr>rx_parser := fst r\<rparr>, snd r))"

function KeyboardUart_Poll :: "'w uart_env \<Rightarrow> uart_rx \<Rightarrow> 'w \<Rightarrow> uart_rx \<times> 'w" where
  "KeyboardUart_Poll env u w =
     (if rx_overrun_latch u then KeyboardUart_Poll env (poll_hole u) w
      else if rx_ring_tail u = rx_ring_head u then (u, w)
      else (let r = poll_feed env u w in KeyboardUart_Poll env (rx_pop (fst r)) (snd r)))"
  by pat_completeness auto
termination
proof (relation "measure (\<lambda>(env, u, w). unat (rx_ring_head u - rx_ring_tail u)
    + (if rx_overrun_latch u then 1 else 0))")
  fix env :: "'w uart_env" and u :: uart_rx and w :: 'w and r
  assume "\<not> rx_overrun_latch u" and ne: "rx_ring_tail u \<noteq> rx_ring_head u" and r: "r = poll_feed env u w"
  moreover have "unat (rx_ring_head u - (rx_ring_tail u + 1)) < unat (rx_ring_head u - rx_ring_tail u)"
    using unat_diff_inc_left [of "rx_ring_head u" "rx_ring_tail u"] ne
    by (simp add: unat_gt_0)
  ultimately show "((env, rx_pop (fst r), snd r), env, u, w) \<in> measure (\<lambda>(env, u, w).
      unat (rx_ring_head u - rx_ring_tail u) + (if rx_overrun_latch u then 1 else 0))"
    by (simp add: rx_pop_def poll_feed_def Let_def)
qed (simp_all add: poll_hole_def)

declare KeyboardUart_Poll.simps [simp del]

definition KeyboardUart_RxQuiet :: "uart_rx \<Rightarrow> bool" where
  "KeyboardUart_RxQuiet u \<longleftrightarrow>
     rx_ring_tail u = rx_ring_head u \<and> rx_len (rx_parser u) = 0 \<and> \<not> rx_overrun_latch u"

definition KeyboardUart_TakeRxActivity :: "uart_rx \<Rightarrow> uart_rx \<times> bool" where
  "KeyboardUart_TakeRxActivity u =
     (let v = rx_activity_latch u in (if v then u\<lparr>rx_activity_latch := False\<rparr> else u, v))"

definition uart_rx_init :: uart_rx where
  "uart_rx_init = \<lparr>rx_ring = replicate 64 0, rx_ring_head = 0, rx_ring_tail = 0,
     rx_overrun_latch = False, rx_activity_latch = False, rx_overrun_count = 0,
     rx_parser = uart_parser_init\<rparr>"

section \<open>The ring is a dropping queue\<close>

definition rx_items :: "uart_rx \<Rightarrow> u8 list" where
  "rx_items u = ring_items 64 (rx_ring u) (rx_ring_tail u) (rx_ring_head u)"

definition rx_wf :: "uart_rx \<Rightarrow> bool" where
  "rx_wf u \<longleftrightarrow> length (rx_ring u) = 64 \<and> unat (rx_ring_head u - rx_ring_tail u) \<le> 64"

lemma length_rx_items: "length (rx_items u) = unat (rx_ring_head u - rx_ring_tail u)"
  by (simp add: rx_items_def)

lemma rx_items_empty: "rx_items u = [] \<longleftrightarrow> rx_ring_head u = rx_ring_tail u"
  by (simp add: rx_items_def ring_items_empty_iff)

lemma rx_items_isr: "rx_wf u \<Longrightarrow> rx_items (isr_byte b u) = list_put 64 keep_old b (rx_items u)"
  by (simp add: isr_byte_def KBD_UART_RING_SIZE_def Let_def list_put_def length_rx_items keep_old_def)
    (simp add: rx_items_def rx_wf_def unat_and_63 ring_push)

lemma rx_items_pop: "rx_items u \<noteq> [] \<Longrightarrow> rx_items (rx_pop u) = tl (rx_items u)"
  by (simp add: rx_items_empty) (simp add: rx_items_def rx_pop_def ring_pop)

lemma rx_wf_isr: "rx_wf u \<Longrightarrow> rx_wf (isr_byte b u)"
  using unat_diff_inc_right [of "rx_ring_head u" "rx_ring_tail u"]
  by (auto simp: rx_wf_def isr_byte_def KBD_UART_RING_SIZE_def Let_def)

lemma rx_wf_pop: "rx_wf u \<Longrightarrow> rx_items u \<noteq> [] \<Longrightarrow> rx_wf (rx_pop u)"
  using unat_diff_inc_left [of "rx_ring_head u" "rx_ring_tail u"]
  by (auto simp: rx_items_empty rx_wf_def rx_pop_def)

interpretation rxq: dropping_queue rx_items rx_wf 64 isr_byte rx_pop
proof unfold_locales
  fix u assume "rx_wf u"
  then show "length (rx_items u) \<le> 64" by (simp add: length_rx_items rx_wf_def)
qed (simp_all add: keep_old_def rx_items_isr rx_items_pop rx_wf_isr rx_wf_pop)

section \<open>Polling\<close>

lemma rx_head_byte: "rx_ring_head u \<noteq> rx_ring_tail u \<Longrightarrow>
    rx_ring u ! unat (rx_ring_tail u AND 63) = hd (rx_items u)"
  by (simp add: rx_items_def ring_hd unat_and_63)

lemma poll_feed_frame [simp]:
  "rx_items (fst (poll_feed env u w)) = rx_items u" "rx_wf (fst (poll_feed env u w)) = rx_wf u"
  "rx_ring_head (fst (poll_feed env u w)) = rx_ring_head u"
  "rx_ring_tail (fst (poll_feed env u w)) = rx_ring_tail u"
  "rx_overrun_latch (fst (poll_feed env u w)) = rx_overrun_latch u"
  "rx_overrun_latch (rx_pop u) = rx_overrun_latch u" "rx_parser (rx_pop u) = rx_parser u"
  by (simp_all add: poll_feed_def Let_def rx_items_def rx_wf_def rx_pop_def)

lemma poll_feed_result:
  "rx_items u = b # bs \<Longrightarrow>
    rx_parser (fst (poll_feed env u w)) = fst (feed_byte env b (rx_parser u) w)
    \<and> snd (poll_feed env u w) = snd (feed_byte env b (rx_parser u) w)"
  using rx_head_byte [of u] rx_items_empty [of u] by (auto simp: poll_feed_def Let_def)

lemma feed_bytes_Cons:
  "feed_bytes env (b # bs) p w = feed_bytes env bs (fst (feed_byte env b p w)) (snd (feed_byte env b p w))"
  by (simp add: feed_bytes_def split_beta)

text \<open>Without a hole the poll feeds exactly the ring's contents.\<close>

lemma poll_drains:
  assumes "rx_wf u" and "\<not> rx_overrun_latch u"
  shows "rx_items (fst (KeyboardUart_Poll env u w)) = []
       \<and> (rx_parser (fst (KeyboardUart_Poll env u w)), snd (KeyboardUart_Poll env u w))
           = feed_bytes env (rx_items u) (rx_parser u) w
       \<and> \<not> rx_overrun_latch (fst (KeyboardUart_Poll env u w))"
  using assms
proof (induction "rx_items u" arbitrary: u w)
  case Nil
  then have "rx_ring_tail u = rx_ring_head u" using rx_items_empty [of u] by simp
  with Nil show ?case
    by (simp add: KeyboardUart_Poll.simps [of env u] feed_bytes_def flip: Nil(1))
next
  case (Cons b bs)
  have ne: "rx_ring_tail u \<noteq> rx_ring_head u" using Cons.hyps(2) rx_items_empty [of u] by auto
  let ?r = "poll_feed env u w"
  have items: "rx_items (rx_pop (fst ?r)) = bs"
    using Cons.hyps(2) rx_items_pop [of "fst ?r"] by (metis list.distinct(1) list.sel(3) poll_feed_frame(1))
  have "rx_wf (rx_pop (fst ?r))"
    using Cons.prems(1) Cons.hyps(2) by (intro rx_wf_pop) (simp_all, metis list.distinct(1))
  with Cons.hyps(1) [OF items [symmetric], of "snd ?r"] Cons.prems(2) items
    poll_feed_result [OF Cons.hyps(2) [symmetric], of env w]
  show ?case
    using ne by (simp add: KeyboardUart_Poll.simps [of env u] Let_def feed_bytes_Cons flip: Cons.hyps(2))
qed

lemma poll_after_hole:
  assumes "rx_overrun_latch u"
  shows "rx_items (fst (KeyboardUart_Poll env u w)) = [] \<and> \<not> rx_overrun_latch (fst (KeyboardUart_Poll env u w))
       \<and> rx_len (rx_parser (fst (KeyboardUart_Poll env u w))) = 0 \<and> snd (KeyboardUart_Poll env u w) = w"
  using assms
  by (simp add: KeyboardUart_Poll.simps [of env u] KeyboardUart_Poll.simps [of env "poll_hole u"])
    (simp add: poll_hole_def rx_items_def reset_parser_def)

section \<open>Interrupts inside the poll\<close>

text \<open>
  The poll loop cut where the interrupt can strike: before the latch is read, between that and the
  feeding of a byte, and between feeding and advancing the tail.  Next to the state an observer
  keeps the line itself, byte by byte (\<open>None\<close> for a byte the hardware lost), and the positions on it of
  the bytes in the ring and of all the bytes ever fed to the parser; a byte dropped by a full ring uses
  up its position.  The observer follows the ring and the feeding only: it does not know of holes or of
  the parser's resets.
\<close>

datatype poll_pc = At_Latch | At_Byte | At_Advance

record 'w rx_world =
  x_rx :: uart_rx
  x_w :: 'w
  x_pc :: poll_pc
  x_ring :: "nat list"
  x_fed :: "nat list"
  x_line :: "u8 option list"

definition poll_phase :: "'w uart_env \<Rightarrow> 'w rx_world \<Rightarrow> 'w rx_world" where
  "poll_phase env x =
     (case x_pc x of
        At_Latch \<Rightarrow>
          if rx_overrun_latch (x_rx x)
          then x\<lparr>x_rx := poll_hole (x_rx x), x_ring := []\<rparr>
          else x\<lparr>x_pc := At_Byte\<rparr>
      | At_Byte \<Rightarrow>
          if rx_ring_tail (x_rx x) = rx_ring_head (x_rx x) then x\<lparr>x_pc := At_Latch\<rparr>
          else x\<lparr>x_rx := fst (poll_feed env (x_rx x) (x_w x)), x_w := snd (poll_feed env (x_rx x) (x_w x)),
                 x_fed := x_fed x @ [hd (x_ring x)], x_pc := At_Advance\<rparr>
      | At_Advance \<Rightarrow> x\<lparr>x_rx := rx_pop (x_rx x), x_ring := tl (x_ring x), x_pc := At_Latch\<rparr>)"

definition isr_one :: "u8 \<Rightarrow> 'w rx_world \<Rightarrow> 'w rx_world" where
  "isr_one b x =
     x\<lparr>x_rx := isr_byte b (x_rx x), x_line := x_line x @ [Some b],
       x_ring := (if length (rx_items (x_rx x)) < 64 then x_ring x @ [length (x_line x)] else x_ring x)\<rparr>"

text \<open>One interrupt: the bytes drained, and where among them the hardware lost one, if it did.\<close>

definition isr_event :: "nat option \<Rightarrow> u8 list \<Rightarrow> 'w rx_world \<Rightarrow> 'w rx_world" where
  "isr_event lost fifo x =
     (case lost of
        None \<Rightarrow> fold isr_one fifo x
      | Some k \<Rightarrow>
          (let y = fold isr_one (take k fifo) (x\<lparr>x_rx := (x_rx x)\<lparr>rx_overrun_latch := True\<rparr>\<rparr>)
           in fold isr_one (drop k fifo) (y\<lparr>x_line := x_line y @ [None]\<rparr>)))"

lemma isr_fold_rx: "x_rx (fold isr_one fs x) = fold isr_byte fs (x_rx x)"
  by (induction fs arbitrary: x) (simp_all add: isr_one_def)

lemma isr_event_handler:
  "x_rx (isr_event lost fifo x) = UART1_IRQHandler (lost \<noteq> None) (lost \<noteq> None) fifo (x_rx x)"
  by (cases lost)
    (simp_all add: isr_event_def isr_fold_rx UART1_IRQHandler_def Let_def flip: fold_append [THEN fun_cong, unfolded comp_def])

datatype rx_act = Phase | Irq "nat option" "u8 list"

text \<open>The interrupt strikes anywhere but between the latch test and the byte it guards.\<close>

fun rx_do :: "'w uart_env \<Rightarrow> rx_act \<Rightarrow> 'w rx_world \<Rightarrow> 'w rx_world" where
  "rx_do env Phase x = poll_phase env x"
| "rx_do env (Irq lost fifo) x = isr_event lost fifo x"

fun rx_acts :: "'w uart_env \<Rightarrow> rx_act list \<Rightarrow> 'w rx_world \<Rightarrow> 'w rx_world" where
  "rx_acts env [] x = x"
| "rx_acts env (a # as) x = rx_acts env as (rx_do env a x)"

fun irq_outside_window :: "'w uart_env \<Rightarrow> rx_act list \<Rightarrow> 'w rx_world \<Rightarrow> bool" where
  "irq_outside_window env [] x = True"
| "irq_outside_window env (a # as) x =
     ((case a of Phase \<Rightarrow> True | Irq lost fifo \<Rightarrow> x_pc x \<noteq> At_Byte)
      \<and> irq_outside_window env as (rx_do env a x))"

fun contiguous :: "nat list \<Rightarrow> bool" where
  "contiguous (a # b # ps) = (b = Suc a \<and> contiguous (b # ps))"
| "contiguous ps = True"

lemma contiguous_prefix: "contiguous (xs @ ys) \<Longrightarrow> contiguous xs"
  by (induction xs rule: contiguous.induct) auto

lemma contiguous_suffix: "contiguous (xs @ ys) \<Longrightarrow> contiguous ys"
proof (induction xs)
  case (Cons x xs)
  then have "contiguous (xs @ ys)" by (cases "xs @ ys") simp_all
  with Cons.IH show ?case .
qed simp

lemma contiguous_snoc: "contiguous ps \<Longrightarrow> (ps \<noteq> [] \<Longrightarrow> p = Suc (last ps)) \<Longrightarrow> contiguous (ps @ [p])"
  by (induction ps rule: contiguous.induct) auto

text \<open>The positions of the bytes the parser holds: as many of the last bytes fed as it has buffered.
  That they are those bytes is part of the invariant.\<close>

definition x_held :: "'w rx_world \<Rightarrow> nat list" where
  "x_held x = drop (length (x_fed x) - length (p_bytes (rx_parser (x_rx x)))) (x_fed x)"

definition on_line :: "u8 option list \<Rightarrow> nat list \<Rightarrow> u8 list \<Rightarrow> bool" where
  "on_line l ps bs \<longleftrightarrow> list_all2 (\<lambda>p b. p < length l \<and> l ! p = Some b) ps bs"

lemma on_line_length: "on_line l ps bs \<Longrightarrow> length ps = length bs"
  by (simp add: on_line_def list_all2_lengthD)

lemma on_line_more: "on_line l ps bs \<Longrightarrow> on_line (l @ [m]) ps bs"
  unfolding on_line_def by (erule list_all2_mono) (simp add: nth_append)

lemma on_line_snoc: "on_line l ps bs \<Longrightarrow> on_line (l @ [Some b]) (ps @ [length l]) (bs @ [b])"
  using on_line_more [of l ps bs "Some b"] by (simp add: on_line_def list_all2_appendI)

lemma on_line_append: "on_line l ps bs \<Longrightarrow> on_line l qs cs \<Longrightarrow> on_line l (ps @ qs) (bs @ cs)"
  by (simp add: on_line_def list_all2_appendI)

lemma on_line_drop: "on_line l ps bs \<Longrightarrow> on_line l (drop n ps) (drop n bs)"
  by (simp add: on_line_def list_all2_dropI)

lemma on_line_Nil [simp]: "on_line l [] []"
  by (simp add: on_line_def)

text \<open>Without a hole pending, what the parser holds and what is queued are one segment of the line, up
  to its end; with one pending, what the parser holds still is a segment.\<close>

definition x_pending :: "'w rx_world \<Rightarrow> nat list" where
  "x_pending x = (if x_pc x = At_Advance then tl (x_ring x) else x_ring x)"

definition x_joined :: "nat list \<Rightarrow> u8 option list \<Rightarrow> bool" where
  "x_joined ps l \<longleftrightarrow> contiguous ps \<and> (ps \<noteq> [] \<longrightarrow> length l = Suc (last ps))"

definition x_inv :: "'w rx_world \<Rightarrow> bool" where
  "x_inv x \<longleftrightarrow>
     rx_wf (x_rx x) \<and> p_ready (rx_parser (x_rx x))
     \<and> length (p_bytes (rx_parser (x_rx x))) \<le> length (x_fed x)
     \<and> on_line (x_line x) (x_held x) (p_bytes (rx_parser (x_rx x)))
     \<and> on_line (x_line x) (x_ring x) (rx_items (x_rx x))
     \<and> contiguous (x_held x)
     \<and> (x_pc x = At_Advance \<longrightarrow> x_ring x \<noteq> [])
     \<and> (x_pc x = At_Byte \<longrightarrow> \<not> rx_overrun_latch (x_rx x))
     \<and> (\<not> rx_overrun_latch (x_rx x) \<longrightarrow> x_joined (x_held x @ x_pending x) (x_line x))"

lemma isr_byte_latch: "rx_overrun_latch (isr_byte b u) \<longleftrightarrow>
    rx_overrun_latch u \<or> \<not> length (rx_items u) < 64"
  by (simp add: isr_byte_def Let_def length_rx_items KBD_UART_RING_SIZE_def)

lemma isr_byte_parser [simp]: "rx_parser (isr_byte b u) = rx_parser u"
  by (simp add: isr_byte_def Let_def)

lemma x_joined_snoc: "x_joined ps l \<Longrightarrow> x_joined (ps @ [length l]) (l @ [m])"
  by (simp add: x_joined_def contiguous_snoc)

lemma isr_one_fields [simp]:
  "x_rx (isr_one b x) = isr_byte b (x_rx x)" "x_fed (isr_one b x) = x_fed x" "x_pc (isr_one b x) = x_pc x"
  "x_line (isr_one b x) = x_line x @ [Some b]" "x_held (isr_one b x) = x_held x"
  by (simp_all add: isr_one_def x_held_def)

lemma x_inv_isr_one: "x_inv x \<Longrightarrow> x_pc x \<noteq> At_Byte \<Longrightarrow> x_inv (isr_one b x)"
proof (cases "length (rx_items (x_rx x)) < 64")
  case True
  assume inv: "x_inv x" and pc: "x_pc x \<noteq> At_Byte"
  then have wf: "rx_wf (x_rx x)" by (simp add: x_inv_def)
  have ring: "x_ring (isr_one b x) = x_ring x @ [length (x_line x)]" using True by (simp add: isr_one_def)
  have pend: "x_pending (isr_one b x) = x_pending x @ [length (x_line x)]"
    using inv by (auto simp: x_pending_def ring x_inv_def)
  have items: "rx_items (isr_byte b (x_rx x)) = rx_items (x_rx x) @ [b]"
    using True wf by (simp add: rx_items_isr list_put_def)
  have seg: "x_joined (x_held x @ x_pending x @ [length (x_line x)]) (x_line x @ [Some b])"
    if "x_joined (x_held x @ x_pending x) (x_line x)"
    using x_joined_snoc [OF that] by simp
  show ?thesis
    using inv pc True rx_wf_isr [OF wf] seg on_line_more on_line_snoc
    by (simp add: x_inv_def ring pend isr_byte_latch items)
next
  case False
  assume inv: "x_inv x" and pc: "x_pc x \<noteq> At_Byte"
  then have wf: "rx_wf (x_rx x)" by (simp add: x_inv_def)
  have ring: "x_ring (isr_one b x) = x_ring x" using False by (simp add: isr_one_def)
  have "rx_items (isr_byte b (x_rx x)) = rx_items (x_rx x)"
    using False wf by (simp add: rx_items_isr list_put_def keep_old_def)
  with False inv pc rx_wf_isr [OF wf] on_line_more show ?thesis
    by (simp add: x_inv_def ring isr_byte_latch)
qed

lemma x_inv_isr_fold: "x_inv x \<Longrightarrow> x_pc x \<noteq> At_Byte \<Longrightarrow> x_inv (fold isr_one fs x)"
  by (induction fs arbitrary: x) (simp_all add: x_inv_isr_one)

lemma isr_fold_frame [simp]:
  "x_pc (fold isr_one fs x) = x_pc x"
  "rx_overrun_latch (x_rx x) \<Longrightarrow> rx_overrun_latch (x_rx (fold isr_one fs x))"
  by (induction fs arbitrary: x) (simp_all add: isr_byte_latch)

lemma x_inv_irq:
  assumes inv: "x_inv x" and pc: "x_pc x \<noteq> At_Byte"
  shows "x_inv (isr_event lost fifo x)"
proof (cases lost)
  case None
  then show ?thesis using x_inv_isr_fold [OF inv pc] by (simp add: isr_event_def)
next
  case (Some k)
  define x1 where "x1 = x\<lparr>x_rx := (x_rx x)\<lparr>rx_overrun_latch := True\<rparr>\<rparr>"
  define y where "y = fold isr_one (take k fifo) x1"
  have "x_inv x1" and pc1: "x_pc x1 \<noteq> At_Byte"
    using inv pc by (simp_all add: x1_def x_inv_def rx_wf_def rx_items_def x_held_def)
  then have "x_inv y" by (simp add: y_def x_inv_isr_fold)
  moreover have "rx_overrun_latch (x_rx y)" and "x_pc y \<noteq> At_Byte"
    using pc1 by (simp_all add: y_def) (simp add: x1_def)
  ultimately have "x_inv (y\<lparr>x_line := x_line y @ [None]\<rparr>)" and "x_pc (y\<lparr>x_line := x_line y @ [None]\<rparr>) \<noteq> At_Byte"
    using on_line_more by (simp_all add: x_inv_def x_held_def)
  then have "x_inv (fold isr_one (drop k fifo) (y\<lparr>x_line := x_line y @ [None]\<rparr>))" by (rule x_inv_isr_fold)
  then show ?thesis using Some by (simp add: isr_event_def Let_def x1_def y_def)
qed

text \<open>Feeding the oldest byte: the parser keeps a suffix of what it held and that byte, and the positions
  follow.\<close>

lemma x_held_feed:
  fixes env :: "'w uart_env"
  assumes inv: "x_inv x" and pc: "x_pc x = At_Byte" and ne: "rx_ring_tail (x_rx x) \<noteq> rx_ring_head (x_rx x)"
  defines "y \<equiv> poll_phase env x"
  shows "\<exists>k \<le> Suc (length (x_held x)). x_held y = drop k (x_held x @ [hd (x_ring x)])
           \<and> p_bytes (rx_parser (x_rx y)) = drop k (p_bytes (rx_parser (x_rx x)) @ [hd (rx_items (x_rx x))])
           \<and> p_ready (rx_parser (x_rx y)) \<and> length (p_bytes (rx_parser (x_rx y))) \<le> length (x_fed y)"
proof -
  let ?p = "rx_parser (x_rx x)" and ?q = "rx_parser (x_rx y)"
  obtain b bs where items: "rx_items (x_rx x) = b # bs"
    using ne rx_items_empty [of "x_rx x"] by (cases "rx_items (x_rx x)") auto
  have ready: "p_ready ?p" and le: "length (p_bytes ?p) \<le> length (x_fed x)"
    using inv by (simp_all add: x_inv_def)
  have q: "?q = fst (feed_byte env b ?p (x_w x))"
    using pc ne poll_feed_result [OF items, of env "x_w x"] by (simp add: y_def poll_phase_def)
  have fed: "x_fed y = x_fed x @ [hd (x_ring x)]" using pc ne by (simp add: y_def poll_phase_def)
  obtain pre where pre: "p_bytes ?p @ [b] = pre @ p_bytes ?q"
    using suffix_feed [OF ready, of env b "x_w x"] unfolding q suffix_def by blast
  have lens: "length pre + length (p_bytes ?q) = Suc (length (p_bytes ?p))"
    using arg_cong [OF pre, of length] by simp
  have held: "length (x_held x) = length (p_bytes ?p)" using le by (simp add: x_held_def)
  have "x_held y = drop (length pre) (x_held x @ [hd (x_ring x)])"
  proof -
    have "length (x_fed y) - length (p_bytes ?q) = length (x_fed x) - length (p_bytes ?p) + length pre"
      using lens le by (simp add: fed)
    then show ?thesis by (simp add: x_held_def fed add.commute flip: drop_drop)
  qed
  moreover have "p_bytes ?q = drop (length pre) (p_bytes ?p @ [hd (rx_items (x_rx x))])"
    using pre by (simp add: items)
  moreover have "p_ready ?q" using feed_refines [OF ready, of env b "x_w x"] by (simp add: q)
  moreover have "length (p_bytes ?q) \<le> length (x_fed y)" using lens le by (simp add: fed)
  moreover have "length pre \<le> Suc (length (x_held x))" using lens held by simp
  ultimately show ?thesis by blast
qed

lemma x_joined_drop: "k \<le> length ps \<Longrightarrow> x_joined (ps @ qs) l \<Longrightarrow> x_joined (drop k ps @ qs) l"
proof -
  assume k: "k \<le> length ps" and j: "x_joined (ps @ qs) l"
  have eq: "ps @ qs = take k ps @ (drop k ps @ qs)" by simp
  have "contiguous (ps @ qs)" using j by (simp add: x_joined_def)
  then have "contiguous (take k ps @ (drop k ps @ qs))" by (simp only: flip: eq)
  then have "contiguous (drop k ps @ qs)" by (rule contiguous_suffix)
  moreover have "last (drop k ps @ qs) = last (ps @ qs)" if "drop k ps @ qs \<noteq> []"
    using last_appendR [OF that, of "take k ps"] by (simp only: flip: eq)
  ultimately show ?thesis using j by (auto simp: x_joined_def)
qed

lemma x_inv_phase: "x_inv x \<Longrightarrow> x_inv (poll_phase env x)"
proof (cases "x_pc x")
  case At_Latch
  assume inv: "x_inv x"
  have "p_ready (reset_parser (rx_parser (x_rx x)))"
    using inv by (simp add: x_inv_def p_ready_def p_wf_reset) (simp add: reset_parser_def)
  then have "rx_wf (poll_hole (x_rx x))" and "rx_items (poll_hole (x_rx x)) = []"
    and "p_ready (rx_parser (poll_hole (x_rx x)))" and "p_bytes (rx_parser (poll_hole (x_rx x))) = []"
    using inv by (simp_all add: x_inv_def rx_wf_def poll_hole_def rx_items_def)
  with At_Latch inv show ?thesis
    by (cases "rx_overrun_latch (x_rx x)")
      (simp_all add: x_inv_def poll_phase_def x_pending_def x_held_def x_joined_def)
next
  case At_Byte
  assume inv: "x_inv x"
  show ?thesis
  proof (cases "rx_ring_tail (x_rx x) = rx_ring_head (x_rx x)")
    case True
    with At_Byte inv show ?thesis by (auto simp: x_inv_def poll_phase_def x_pending_def x_held_def)
  next
    case False
    let ?y = "poll_phase env x"
    obtain k where k: "k \<le> Suc (length (x_held x))" "x_held ?y = drop k (x_held x @ [hd (x_ring x)])"
      "p_bytes (rx_parser (x_rx ?y)) = drop k (p_bytes (rx_parser (x_rx x)) @ [hd (rx_items (x_rx x))])"
      "p_ready (rx_parser (x_rx ?y))" "length (p_bytes (rx_parser (x_rx ?y))) \<le> length (x_fed ?y)"
      using x_held_feed [OF inv At_Byte False, of env] by blast
    have fr: "x_line ?y = x_line x" "x_ring ?y = x_ring x" "rx_items (x_rx ?y) = rx_items (x_rx x)"
      "rx_wf (x_rx ?y) = rx_wf (x_rx x)" "x_pc ?y = At_Advance"
      "rx_overrun_latch (x_rx ?y) = rx_overrun_latch (x_rx x)"
      using At_Byte False by (simp_all add: poll_phase_def)
    obtain p ps b bs where r: "x_ring x = p # ps" "rx_items (x_rx x) = b # bs"
      and pb: "on_line (x_line x) [p] [b]"
      using inv False rx_items_empty [of "x_rx x"]
      by (cases "rx_items (x_rx x)"; cases "x_ring x") (auto simp: x_inv_def on_line_def)
    have "on_line (x_line x) (x_held x @ [p]) (p_bytes (rx_parser (x_rx x)) @ [b])"
      using inv pb by (intro on_line_append) (simp_all add: x_inv_def)
    then have held: "on_line (x_line x) (x_held ?y) (p_bytes (rx_parser (x_rx ?y)))"
      unfolding k r list.sel by (rule on_line_drop)
    have "x_joined ((x_held x @ [p]) @ ps) (x_line x)"
      using inv At_Byte r by (simp add: x_inv_def x_pending_def)
    then have "x_joined (drop k (x_held x @ [p]) @ ps) (x_line x)" using k(1) by (intro x_joined_drop) simp
    then have j: "x_joined (x_held ?y @ x_pending ?y) (x_line ?y)"
      by (simp add: k fr r x_pending_def)
    then have "contiguous (x_held ?y)" unfolding x_joined_def using contiguous_prefix by blast
    with held j k(4,5) inv r show ?thesis unfolding x_inv_def fr by auto
  qed
next
  case At_Advance
  assume inv: "x_inv x"
  obtain p ps b bs where r: "x_ring x = p # ps" "rx_items (x_rx x) = b # bs"
    using inv At_Advance by (cases "rx_items (x_rx x)"; cases "x_ring x") (auto simp: x_inv_def on_line_def)
  then have ne: "rx_items (x_rx x) \<noteq> []" by simp
  show ?thesis
    using At_Advance inv rx_items_pop [OF ne] rx_wf_pop [OF _ ne] r
    by (auto simp: x_inv_def poll_phase_def x_pending_def x_held_def on_line_def)
qed

lemma x_inv_acts:
  "x_inv x \<Longrightarrow> irq_outside_window env as x \<Longrightarrow> x_inv (rx_acts env as x)"
proof (induction as arbitrary: x)
  case (Cons a as)
  then show ?case by (cases a) (auto simp: x_inv_irq x_inv_phase)
qed simp

definition rx_world_init :: "'w \<Rightarrow> 'w rx_world" where
  "rx_world_init w = \<lparr>x_rx = uart_rx_init, x_w = w, x_pc = At_Latch, x_ring = [], x_fed = [], x_line = []\<rparr>"

lemma x_inv_init: "x_inv (rx_world_init w)"
proof -
  have "rx_parser uart_rx_init = uart_parser_init" by (simp add: uart_rx_init_def)
  then show ?thesis
    by (simp add: x_inv_def rx_world_init_def x_held_def x_pending_def x_joined_def)
      (simp add: uart_rx_init_def rx_wf_def rx_items_def)
qed

section \<open>Properties\<close>

text \<open>
  The ring is a FIFO that only drops at its end.  For any sequence of received bytes and
  takes, the bytes taken followed by those still in the ring are exactly the bytes that found room
  (fewer than 64 waiting), in order; the byte-wide indices wrap without any other effect.
\<close>
theorem uart_ring_fifo:
  assumes "q_run rx_items isr_byte rx_pop ops uart_rx_init = (u, out)"
  shows "out @ rx_items u = list_accepted 64 ops []"
  using rxq.run_fifo [of uart_rx_init ops u out] assms
  by (simp add: rx_wf_def rx_items_def uart_rx_init_def)

theorem uart_ring_fifo_witness:
  "snd (q_run rx_items isr_byte rx_pop [Put 1, Put 2, Pop, Put 3] uart_rx_init)
     @ rx_items (fst (q_run rx_items isr_byte rx_pop [Put 1, Put 2, Pop, Put 3] uart_rx_init)) = [1, 2, 3]"
  using uart_ring_fifo [of "[Put 1, Put 2, Pop, Put 3]"
      "fst (q_run rx_items isr_byte rx_pop [Put 1, Put 2, Pop, Put 3] uart_rx_init)"
      "snd (q_run rx_items isr_byte rx_pop [Put 1, Put 2, Pop, Put 3] uart_rx_init)"]
  by simp

lemma isr_fold_items:
  "rx_wf u \<Longrightarrow> length (rx_items u) + length fs \<le> 64 \<Longrightarrow>
    rx_items (fold isr_byte fs u) = rx_items u @ fs \<and> rx_wf (fold isr_byte fs u)
    \<and> rx_overrun_latch (fold isr_byte fs u) = rx_overrun_latch u
    \<and> rx_parser (fold isr_byte fs u) = rx_parser u"
proof (induction fs arbitrary: u)
  case (Cons f fs)
  have room: "length (rx_items u) < 64" using Cons.prems(2) by simp
  have "rx_items (isr_byte f u) = rx_items u @ [f]"
    using Cons.prems(1) room by (simp add: rx_items_isr list_put_def)
  moreover have "rx_parser (isr_byte f u) = rx_parser u" by (simp add: isr_byte_def Let_def)
  ultimately show ?case
    using Cons.IH [of "isr_byte f u"] Cons.prems room rx_wf_isr [of u f]
    by (simp add: isr_byte_latch)
qed simp

lemma uart_rx_init_facts [simp]:
  "KeyboardUart_RxQuiet uart_rx_init" "rx_wf uart_rx_init" "p_ready (rx_parser uart_rx_init)"
proof -
  show "KeyboardUart_RxQuiet uart_rx_init"
    by (simp add: KeyboardUart_RxQuiet_def uart_rx_init_def uart_parser_init_def)
  show "rx_wf uart_rx_init" by (simp add: rx_wf_def uart_rx_init_def)
  have "rx_parser uart_rx_init = uart_parser_init" by (simp add: uart_rx_init_def)
  then show "p_ready (rx_parser uart_rx_init)" by simp
qed

text \<open>
  C36: reception end to end.  A quiet receiver (ring empty, parser between frames, no hole) that gets
  up to 64 bytes of well-formed frames and headerless noise in one interrupt delivers at the next
  poll exactly those frames, in order, and is quiet again.
\<close>
theorem uart_receive_frames:
  assumes "KeyboardUart_RxQuiet u" and "rx_wf u" and "p_ready (rx_parser u)"
    and "list_all item_ok its" and "length (concat (map item_bytes its)) \<le> 64"
  shows "let r = KeyboardUart_Poll env (UART1_IRQHandler False over (concat (map item_bytes its)) u) w in
           snd r = fold (item_deliver env) its w \<and> KeyboardUart_RxQuiet (fst r)"
proof -
  let ?bs = "concat (map item_bytes its)"
  let ?u = "UART1_IRQHandler False over ?bs u"
  have q: "rx_items u = []" "rx_len (rx_parser u) = 0" "\<not> rx_overrun_latch u"
    using assms(1) rx_items_empty [of u] by (simp_all add: KeyboardUart_RxQuiet_def)
  have u: "rx_items ?u = ?bs" "rx_wf ?u" "\<not> rx_overrun_latch ?u" "rx_parser ?u = rx_parser u"
    using isr_fold_items [OF assms(2), of ?bs] assms(5) q by (simp_all add: UART1_IRQHandler_def)
  have fed: "feed_bytes env ?bs (rx_parser u) w =
      (fst (feed_bytes env ?bs (rx_parser u) w), fold (item_deliver env) its w)"
    "rx_len (fst (feed_bytes env ?bs (rx_parser u) w)) = 0"
    using feeds_refine [OF assms(3), of env ?bs w] list_feeds_items [OF assms(4), of env w]
      p_ready_fresh [OF assms(3) q(2)] p_bytes_Nil
    by (auto simp: p_ready_def prod_eq_iff)
  have "rx_items (fst (KeyboardUart_Poll env ?u w)) = [] \<and> \<not> rx_overrun_latch (fst (KeyboardUart_Poll env ?u w))
      \<and> rx_parser (fst (KeyboardUart_Poll env ?u w)) = fst (feed_bytes env ?bs (rx_parser u) w)
      \<and> snd (KeyboardUart_Poll env ?u w) = fold (item_deliver env) its w"
    using poll_drains [OF u(2,3), of env w] u fed(1) by (metis fst_conv snd_conv)
  then show ?thesis
    using fed(2) rx_items_empty [of "fst (KeyboardUart_Poll env ?u w)"]
    by (auto simp: Let_def KeyboardUart_RxQuiet_def)
qed

theorem uart_receive_frames_witness:
  "snd (KeyboardUart_Poll \<lparr>env_ack = id, env_frame_cb = Some (\<lambda>c s pl n w. w @ [(c, s)]), env_host_ack = id\<rparr>
     (UART1_IRQHandler False False [0xA6, 0x51, 0xF7, 0xA6, 0x53, 0xF9] uart_rx_init) [])
   = [(0xA6, 0x51), (0xA6, 0x53)]"
  using uart_receive_frames [of uart_rx_init "[Wire_Frame (Cmd_A6 0x51) [], Wire_Frame (Cmd_A6 0x53) []]"
      "\<lparr>env_ack = id, env_frame_cb = Some (\<lambda>c s pl n w. w @ [(c, s)]), env_host_ack = id\<rparr>" False "[]"]
  by (simp add: Let_def call_cb_def)

text \<open>
  C37: the parser never holds a mixture of bytes from before and after a hole.  Under any interleaving of
  poll phases with interrupts (ring overflows and hardware overruns included), as long as no interrupt
  strikes between the latch test and the byte it guards, the bytes the parser has buffered are the last
  bytes fed to it, they stand next to each other on the line, with nothing lost between them, and the
  byte about to be fed is the one that follows them on the line.
\<close>
theorem uart_poll_no_gap:
  assumes "irq_outside_window env as (rx_world_init w)"
  defines "x \<equiv> rx_acts env as (rx_world_init w)"
  shows "map (\<lambda>p. x_line x ! p) (x_held x) = map Some (p_bytes (rx_parser (x_rx x)))
       \<and> contiguous (x_held x)
       \<and> (x_pc x = At_Byte \<and> rx_items (x_rx x) \<noteq> [] \<longrightarrow>
            contiguous (x_held x @ [hd (x_ring x)]) \<and> x_line x ! hd (x_ring x) = Some (hd (rx_items (x_rx x))))"
proof -
  have inv: "x_inv x" unfolding x_def by (rule x_inv_acts [OF x_inv_init assms(1)])
  have "map (\<lambda>p. x_line x ! p) (x_held x) = map Some (p_bytes (rx_parser (x_rx x)))"
    using inv by (auto simp: x_inv_def on_line_def list_all2_conv_all_nth intro: nth_equalityI)
  moreover have "contiguous (x_held x @ [hd (x_ring x)]) \<and> x_line x ! hd (x_ring x) = Some (hd (rx_items (x_rx x)))"
    if at: "x_pc x = At_Byte" and ne: "rx_items (x_rx x) \<noteq> []"
  proof -
    obtain p ps where r: "x_ring x = p # ps" and l: "x_line x ! p = Some (hd (rx_items (x_rx x)))"
      using inv ne by (cases "rx_items (x_rx x)"; cases "x_ring x") (auto simp: x_inv_def on_line_def)
    have "contiguous ((x_held x @ [p]) @ ps)"
      using inv at r by (simp add: x_inv_def x_joined_def x_pending_def)
    then have "contiguous (x_held x @ [p])" by (rule contiguous_prefix)
    with r l show ?thesis by simp
  qed
  ultimately show ?thesis using inv by (auto simp: x_inv_def)
qed

text \<open>A header is fed, the hardware loses a byte, the poll takes the hole and goes on with the next frame.\<close>

definition hole_acts :: "rx_act list" where
  "hole_acts = [Irq None [0xA1], Phase, Phase, Phase, Irq (Some 0) [0x30], Phase,
                Irq None [0xA6, 0x51], Phase, Phase, Phase, Phase]"

theorem uart_poll_no_gap_witness:
  "let x = rx_acts \<lparr>env_ack = id, env_frame_cb = None, env_host_ack = id\<rparr> hole_acts (rx_world_init ()) in
     x_held x = [3] \<and> p_bytes (rx_parser (x_rx x)) = [0xA6] \<and> x_line x = [Some 0xA1, None, Some 0x30, Some 0xA6, Some 0x51]
     \<and> contiguous (x_held x @ [hd (x_ring x)]) \<and> x_line x ! hd (x_ring x) = Some 0x51"
proof -
  let ?env = "\<lparr>env_ack = id, env_frame_cb = None, env_host_ack = id\<rparr>"
  let ?x = "rx_acts ?env hole_acts (rx_world_init ())"
  have w: "irq_outside_window ?env hole_acts (rx_world_init ())" by code_simp
  have c: "x_held ?x = [3] \<and> p_bytes (rx_parser (x_rx ?x)) = [0xA6] \<and> x_pc ?x = At_Byte
      \<and> x_line ?x = [Some 0xA1, None, Some 0x30, Some 0xA6, Some 0x51] \<and> rx_items (x_rx ?x) = [0x51]"
    by code_simp
  with uart_poll_no_gap [OF w] show ?thesis by (simp add: Let_def)
qed

text \<open>Inside that window the guarantee is lost: the parser holds a header from before the hole and a byte
  from after it.\<close>

lemma uart_poll_gap_in_window:
  "let x = rx_acts \<lparr>env_ack = id, env_frame_cb = None, env_host_ack = id\<rparr>
     [Irq None [0xA6], Phase, Phase, Phase, Phase, Irq (Some 0) [0x30], Phase] (rx_world_init ()) in
   x_held x = [0, 2] \<and> p_bytes (rx_parser (x_rx x)) = [0xA6, 0x30]"
  by code_simp

end
