(* ===== verification/Uart_Polled.thy ===== *)
theory Uart_Polled
  imports Uart_Ring
begin

text \<open>
  The receive path of \<^verbatim>\<open>firmware/src/keyboard_uart.c\<close> in a build without interrupt-driven idle
  (\<open>KBD_IDLE_WFI = 0\<close>): \<open>KeyboardUart_Poll\<close> reads the hardware FIFO itself and asks for an overrun before
  and after each byte.  What the registers answer during one call is its argument: the overrun flag on entry,
  and for each byte of the FIFO its value and the flag after it.  The state is that of the other build, whose
  ring this one does not have.
\<close>

section \<open>Operations\<close>

definition check_uart_line_status :: "bool \<Rightarrow> uart_rx \<Rightarrow> uart_rx" where
  "check_uart_line_status over_err u =
     (if over_err then u\<lparr>rx_overrun_count := rx_overrun_count u + 1, rx_parser := reset_parser (rx_parser u)\<rparr> else u)"

fun poll_fifo :: "'w uart_env \<Rightarrow> (u8 \<times> bool) list \<Rightarrow> uart_rx \<Rightarrow> 'w \<Rightarrow> uart_rx \<times> 'w" where
  "poll_fifo env [] u w = (u, w)"
| "poll_fifo env ((b, over_err) # fifo) u w =
     (let u = u\<lparr>rx_activity_latch := True\<rparr>;
          r = feed_byte env b (rx_parser u) w;
          u = u\<lparr>rx_parser := fst r\<rparr>
      in poll_fifo env fifo (check_uart_line_status over_err u) (snd r))"

definition KeyboardUart_Poll_polled :: "'w uart_env \<Rightarrow> bool \<Rightarrow> (u8 \<times> bool) list \<Rightarrow> uart_rx \<Rightarrow> 'w \<Rightarrow> uart_rx \<times> 'w" where
  "KeyboardUart_Poll_polled env over_err fifo u w = poll_fifo env fifo (check_uart_line_status over_err u) w"

definition KeyboardUart_RxQuiet_polled :: "uart_rx \<Rightarrow> bool" where
  "KeyboardUart_RxQuiet_polled u \<longleftrightarrow> rx_len (rx_parser u) = 0"

section \<open>Lemmas\<close>

lemma feed_bytes_append:
  "feed_bytes env (xs @ ys) p w = (let r = feed_bytes env xs p w in feed_bytes env ys (fst r) (snd r))"
  by (simp add: feed_bytes_def Let_def)

text \<open>What the FIFO leaves behind: the bytes after the last overrun, fed to a parser reset there.\<close>

fun since_overrun :: "'w uart_env \<Rightarrow> (u8 \<times> bool) list \<Rightarrow> uart_parser \<times> 'w \<Rightarrow> uart_parser \<times> 'w" where
  "since_overrun env [] s = s"
| "since_overrun env ((b, over_err) # fifo) s =
     (let r = feed_byte env b (fst s) (snd s)
      in since_overrun env fifo (if over_err then (reset_parser (fst r), snd r) else r))"

lemma poll_fifo_parser:
  "(rx_parser (fst (poll_fifo env fifo u w)), snd (poll_fifo env fifo u w)) = since_overrun env fifo (rx_parser u, w)"
  by (induction fifo arbitrary: u w) (auto simp: check_uart_line_status_def Let_def split: prod.splits)

lemma since_overrun_clean:
  "\<forall>x \<in> set fifo. \<not> snd x \<Longrightarrow> since_overrun env fifo s = feed_bytes env (map fst fifo) (fst s) (snd s)"
proof (induction fifo arbitrary: s)
  case Nil
  show ?case by (simp add: feed_bytes_def)
next
  case (Cons x fifo)
  then show ?case by (cases x) (simp add: feed_bytes_Cons Let_def)
qed

lemma since_overrun_append:
  "since_overrun env (xs @ ys) s = since_overrun env ys (since_overrun env xs s)"
  by (induction env xs s rule: since_overrun.induct) (simp_all add: Let_def)

lemma poll_fifo_counts:
  "rx_overrun_count (fst (poll_fifo env fifo u w)) = rx_overrun_count u + of_nat (length (filter snd fifo))
   \<and> (rx_activity_latch (fst (poll_fifo env fifo u w)) \<longleftrightarrow> rx_activity_latch u \<or> fifo \<noteq> [])"
  by (induction fifo arbitrary: u w) (auto simp: check_uart_line_status_def Let_def)

lemma poll_fifo_ring:
  "rx_items (fst (poll_fifo env fifo u w)) = rx_items u"
  by (induction fifo arbitrary: u w) (auto simp: check_uart_line_status_def rx_items_def Let_def)

section \<open>Properties\<close>

text \<open>
  An overrun cuts the stream: whatever was read up to it, the bytes after it meet a parser that holds
  nothing, and every overrun is counted.
\<close>
theorem polled_overrun_cuts:
  assumes "\<forall>x \<in> set rest. \<not> snd x"
  shows "let u' = fst (KeyboardUart_Poll_polled env ov (fifo @ (b, True) # rest) u w) in
     \<exists>p w1. rx_len p = 0
       \<and> (rx_parser u', snd (KeyboardUart_Poll_polled env ov (fifo @ (b, True) # rest) u w))
           = feed_bytes env (map fst rest) p w1
       \<and> rx_overrun_count u' = rx_overrun_count u + of_nat (length (filter id (ov # map snd fifo @ [True])))"
proof -
  let ?u = "check_uart_line_status ov u" and ?f = "fifo @ (b, True) # rest"
  let ?s = "since_overrun env fifo (rx_parser ?u, w)"
  let ?r = "feed_byte env b (fst ?s) (snd ?s)"
  have p: "(rx_parser (fst (poll_fifo env ?f ?u w)), snd (poll_fifo env ?f ?u w))
      = feed_bytes env (map fst rest) (reset_parser (fst ?r)) (snd ?r)"
    by (simp add: poll_fifo_parser since_overrun_append Let_def since_overrun_clean [OF assms])
  have l: "rx_len (reset_parser (fst ?r)) = 0" by (simp add: reset_parser_def)
  have "filter snd rest = []" using assms by (simp add: filter_empty_conv)
  moreover have "length (filter id (map snd fifo)) = length (filter snd fifo)" by (induction fifo) auto
  ultimately have n: "rx_overrun_count (fst (poll_fifo env ?f ?u w))
      = rx_overrun_count u + of_nat (length (filter id (ov # map snd fifo @ [True])))"
    using poll_fifo_counts [of env ?f ?u w] by (simp add: check_uart_line_status_def)
  show ?thesis
    unfolding Let_def KeyboardUart_Poll_polled_def using p l n by blast
qed

theorem polled_overrun_cuts_witness:
  "rx_overrun_count (fst (KeyboardUart_Poll_polled \<lparr>env_ack = id, env_frame_cb = None, env_host_ack = id\<rparr> False
     ([(0xA6, False)] @ (0x52, True) # [(0x0D, False)]) uart_rx_init ())) = 1"
  using polled_overrun_cuts [of "[(0x0D, False)]" "\<lparr>env_ack = id, env_frame_cb = None, env_host_ack = id\<rparr>" False
      "[(0xA6, False)]" "0x52" uart_rx_init "()"]
  by (auto simp: Let_def uart_rx_init_def)

text \<open>The interrupt's bytes and the poll of the ring, in a run without overruns.\<close>

lemma isr_fold_activity:
  "rx_activity_latch (fold isr_byte bs u) \<longleftrightarrow> rx_activity_latch u \<or> bs \<noteq> []"
  by (induction bs arbitrary: u) (auto simp: isr_byte_def Let_def)

lemma poll_keeps_activity: "rx_activity_latch (fst (KeyboardUart_Poll env u w)) = rx_activity_latch u"
proof (induction env u w rule: KeyboardUart_Poll.induct)
  case (1 env u w)
  then show ?case
    by (subst KeyboardUart_Poll.simps) (auto simp: poll_hole_def poll_feed_def rx_pop_def Let_def)
qed

text \<open>
  C29: The two builds of the receive path parse alike.  Up to 64 bytes that arrive without an overrun, whether
  read by the poll itself or queued by the interrupt and fed from the ring, leave the same parser, cause the
  same calls of the frame callback and the acknowledgement, set the same activity latch, and are reported
  quiet in the same cases.
\<close>
theorem polled_same_as_interrupt:
  fixes env :: "'w uart_env" and line_stat :: bool and w :: 'w
  assumes "rx_wf u" and "rx_items u = []" and "\<not> rx_overrun_latch u" and "length bs \<le> 64"
  defines "by_irq \<equiv> KeyboardUart_Poll env (UART1_IRQHandler line_stat False bs u) w"
    and "by_poll \<equiv> KeyboardUart_Poll_polled env False (map (\<lambda>b. (b, False)) bs) u w"
  shows "rx_parser (fst by_irq) = rx_parser (fst by_poll) \<and> snd by_irq = snd by_poll
       \<and> rx_activity_latch (fst by_irq) = rx_activity_latch (fst by_poll)
       \<and> KeyboardUart_RxQuiet (fst by_irq) = KeyboardUart_RxQuiet_polled (fst by_poll)"
proof -
  let ?u = "fold isr_byte bs u"
  have h: "UART1_IRQHandler line_stat False bs u = ?u" by (simp add: UART1_IRQHandler_def)
  have items: "rx_items ?u = bs" "rx_wf ?u" "\<not> rx_overrun_latch ?u"
    and par: "rx_parser ?u = rx_parser u"
    using isr_fold_items [of u bs] assms(1-4) by simp_all
  note d = poll_drains [OF items(2,3), of env w, unfolded items(1) par]
  have p: "(rx_parser (fst by_poll), snd by_poll) = feed_bytes env bs (rx_parser u) w"
    by (simp add: by_poll_def KeyboardUart_Poll_polled_def check_uart_line_status_def poll_fifo_parser
        since_overrun_clean comp_def)
  have act: "rx_activity_latch (fst by_irq) = rx_activity_latch (fst by_poll)"
    by (simp add: by_irq_def by_poll_def h poll_keeps_activity isr_fold_activity KeyboardUart_Poll_polled_def
        check_uart_line_status_def poll_fifo_counts)
  have "rx_ring_tail (fst by_irq) = rx_ring_head (fst by_irq)"
    using d rx_items_empty [of "fst by_irq"] by (simp add: by_irq_def h)
  moreover have "(rx_parser (fst by_irq), snd by_irq) = (rx_parser (fst by_poll), snd by_poll)"
    using d p by (simp add: by_irq_def h)
  moreover have "\<not> rx_overrun_latch (fst by_irq)" using d by (simp add: by_irq_def h)
  ultimately show ?thesis
    using act by (simp add: KeyboardUart_RxQuiet_def KeyboardUart_RxQuiet_polled_def)
qed

lemma rx_init_empty: "rx_items uart_rx_init = []" "\<not> rx_overrun_latch uart_rx_init"
  by (simp_all add: rx_items_empty uart_rx_init_def)

theorem polled_same_as_interrupt_witness:
  "snd (KeyboardUart_Poll_polled \<lparr>env_ack = id, env_frame_cb = Some (\<lambda>c s pl n w. w @ [(c, s)]), env_host_ack = id\<rparr> False
     (map (\<lambda>b. (b, False)) [0xA6, 0x51, 0xF7, 0xA6]) uart_rx_init [])
   = snd (KeyboardUart_Poll \<lparr>env_ack = id, env_frame_cb = Some (\<lambda>c s pl n w. w @ [(c, s)]), env_host_ack = id\<rparr>
     (UART1_IRQHandler True False [0xA6, 0x51, 0xF7, 0xA6] uart_rx_init) [])"
  using polled_same_as_interrupt [of uart_rx_init "[0xA6, 0x51, 0xF7, 0xA6]"
      "\<lparr>env_ack = id, env_frame_cb = Some (\<lambda>c s pl n w. w @ [(c, s)]), env_host_ack = id\<rparr>" True "[]"] rx_init_empty
  by simp

end
