(* ===== verification/Keyboard_Uart.thy ===== *)
theory Keyboard_Uart
  imports Rtc_Time Host_Wake Uart_Ring
begin

text \<open>
  The sending side of \<^verbatim>\<open>firmware/src/keyboard_uart.c\<close>: the bounded byte send, frames and ACKs, the
  functions the application calls, and \<open>KeyboardUart_Service\<close>, which drives CHWAKE and the wire
  from the host wake machine.  The readings of the transmit-FIFO level and of the RTC that the code
  will see are part of the state (\<open>tfc_reads\<close>, \<open>rtc_reads\<close>, consumed from the front); a send that
  still spins when they run out is \<open>None\<close>.  The FIFO size and the RTC frequency are constants of
  the vendor headers and parameters here; \<open>hwk\<close> is the build option \<open>KBD_HOST_WAKE\<close>.
\<close>

section \<open>State\<close>

record uart_tx =
  thr :: "u8 list"
  tfc_reads :: "u8 list"
  rtc_reads :: "u32 list"

record kbd_uart =
  k_tx :: uart_tx
  host_wake :: host_wake_t
  chwake_level :: bool
  chwake_pin :: "bool list"

definition KBD_UART_TX_WAIT_US :: u32 where "KBD_UART_TX_WAIT_US = 150"

section \<open>Sending\<close>

text \<open>The spin: read the FIFO level; while it is full, read the clock and give up when \<open>wait\<close> ticks
  have passed since \<open>start\<close>.\<close>

fun tx_spin :: "u8 \<Rightarrow> u32 \<Rightarrow> u32 \<Rightarrow> u8 list \<Rightarrow> u32 list \<Rightarrow> (bool \<times> u8 list \<times> u32 list) option" where
  "tx_spin UART_FIFO_SIZE wait start [] rs = None"
| "tx_spin UART_FIFO_SIZE wait start (c # cs) rs =
     (if c = UART_FIFO_SIZE then
        (case rs of
           [] \<Rightarrow> None
         | r # rs' \<Rightarrow> if wait \<le> r - start then Some (False, cs, rs')
                     else tx_spin UART_FIFO_SIZE wait start cs rs')
      else Some (True, cs, rs))"

definition uart_send_byte :: "u8 \<Rightarrow> u32 \<Rightarrow> u8 \<Rightarrow> uart_tx \<Rightarrow> (bool \<times> uart_tx) option" where
  "uart_send_byte UART_FIFO_SIZE FREQ_RTC b tx =
     (case tfc_reads tx of
        [] \<Rightarrow> None
      | c # cs \<Rightarrow>
          if c = UART_FIFO_SIZE then
            (case rtc_reads tx of
               [] \<Rightarrow> None
             | start # rs \<Rightarrow>
                 (case tx_spin UART_FIFO_SIZE (RTC_CLOCK_TICKS_US FREQ_RTC KBD_UART_TX_WAIT_US) start cs rs of
                    None \<Rightarrow> None
                  | Some (ok, cs', rs') \<Rightarrow>
                      Some (ok, tx\<lparr>thr := (if ok then thr tx @ [b] else thr tx),
                                   tfc_reads := cs', rtc_reads := rs'\<rparr>)))
          else Some (True, tx\<lparr>thr := thr tx @ [b], tfc_reads := cs\<rparr>))"

text \<open>Bytes one after the other, stopping at the first that fails: the shape of every sender.\<close>

definition uart_send_frame :: "u8 \<Rightarrow> u32 \<Rightarrow> u8 \<Rightarrow> u8 \<Rightarrow> uart_tx \<Rightarrow> (bool \<times> uart_tx) option" where
  "uart_send_frame F Q cmd val tx =
     (case uart_send_byte F Q cmd tx of
        None \<Rightarrow> None
      | Some (ok1, tx1) \<Rightarrow>
          if \<not> ok1 then Some (False, tx1)
          else (case uart_send_byte F Q val tx1 of
                  None \<Rightarrow> None
                | Some (ok2, tx2) \<Rightarrow>
                    if \<not> ok2 then Some (False, tx2) else uart_send_byte F Q (cmd + val) tx2))"

definition KeyboardUart_SendAck :: "u8 \<Rightarrow> u32 \<Rightarrow> uart_tx \<Rightarrow> uart_tx option" where
  "KeyboardUart_SendAck F Q tx =
     (case uart_send_byte F Q 0x61 tx of
        None \<Rightarrow> None
      | Some (ok1, tx1) \<Rightarrow>
          if \<not> ok1 then Some tx1
          else (case uart_send_byte F Q 0x0D tx1 of
                  None \<Rightarrow> None
                | Some (ok2, tx2) \<Rightarrow>
                    if \<not> ok2 then Some tx2 else map_option snd (uart_send_byte F Q 0x0A tx2)))"

text \<open>The loop of \<open>KeyboardUart_SendRaw\<close> from index \<open>i\<close>; the result is the number of bytes sent.\<close>

fun send_raw_from :: "u8 \<Rightarrow> u32 \<Rightarrow> u8 list \<Rightarrow> nat \<Rightarrow> uart_tx \<Rightarrow> (nat \<times> uart_tx) option" where
  "send_raw_from F Q [] i tx = Some (i, tx)"
| "send_raw_from F Q (b # bs) i tx =
     (case uart_send_byte F Q b tx of
        None \<Rightarrow> None
      | Some (ok, tx1) \<Rightarrow> if ok then send_raw_from F Q bs (Suc i) tx1 else Some (i, tx1))"

definition KeyboardUart_SendRaw :: "u8 \<Rightarrow> u32 \<Rightarrow> u8 list \<Rightarrow> u8 \<Rightarrow> uart_tx \<Rightarrow> (u8 \<times> uart_tx) option" where
  "KeyboardUart_SendRaw F Q buf len tx =
     map_option (\<lambda>(i, tx'). (of_nat i, tx')) (send_raw_from F Q (take (unat len) buf) 0 tx)"

section \<open>What the application calls\<close>

definition send_host_frame :: "bool \<Rightarrow> u8 \<Rightarrow> u32 \<Rightarrow> u8 \<Rightarrow> u8 \<Rightarrow> kbd_uart \<Rightarrow> kbd_uart option" where
  "send_host_frame hwk F Q cmd val k =
     (if hwk then Some (k\<lparr>host_wake := fst (HostWake_Enqueue cmd val (host_wake k))\<rparr>)
      else map_option (\<lambda>(ok, tx). k\<lparr>k_tx := tx\<rparr>) (uart_send_frame F Q cmd val (k_tx k)))"

definition KeyboardUart_SendStatus :: "bool \<Rightarrow> u8 \<Rightarrow> u32 \<Rightarrow> u8 \<Rightarrow> kbd_uart \<Rightarrow> kbd_uart option" where
  "KeyboardUart_SendStatus hwk F Q sub k = send_host_frame hwk F Q 0x5B sub k"

definition KeyboardUart_SendBattery :: "bool \<Rightarrow> u8 \<Rightarrow> u32 \<Rightarrow> u8 \<Rightarrow> kbd_uart \<Rightarrow> kbd_uart option" where
  "KeyboardUart_SendBattery hwk F Q percent k = send_host_frame hwk F Q 0x5C percent k"

definition KeyboardUart_SendLed :: "bool \<Rightarrow> u8 \<Rightarrow> u32 \<Rightarrow> u8 \<Rightarrow> kbd_uart \<Rightarrow> kbd_uart option" where
  "KeyboardUart_SendLed hwk F Q led_mask k =
     (if hwk then Some (k\<lparr>host_wake := HostWake_SetLatest 0x5A led_mask (host_wake k)\<rparr>)
      else map_option (\<lambda>(ok, tx). k\<lparr>k_tx := tx\<rparr>) (uart_send_frame F Q 0x5A led_mask (k_tx k)))"

definition KeyboardUart_Service :: "bool \<Rightarrow> u8 \<Rightarrow> u32 \<Rightarrow> u32 \<Rightarrow> kbd_uart \<Rightarrow> kbd_uart option" where
  "KeyboardUart_Service hwk F Q now k =
     (if \<not> hwk then Some k
      else
        (let r = HostWake_Step now (host_wake k); step = snd r;
             k1 = k\<lparr>host_wake := fst r\<rparr>;
             k2 = (if step_line step \<noteq> chwake_level k1
                   then k1\<lparr>chwake_pin := chwake_pin k1 @ [step_line step], chwake_level := step_line step\<rparr>
                   else k1)
         in if step_send step then
              map_option (\<lambda>(ok, tx). k2\<lparr>k_tx := tx\<rparr>)
                (uart_send_frame F Q (step_cmd step) (step_val step) (k_tx k2))
            else Some k2))"

definition KeyboardUart_TakeLedLost :: "bool \<Rightarrow> kbd_uart \<Rightarrow> kbd_uart \<times> bool" where
  "KeyboardUart_TakeLedLost hwk k =
     (if hwk then (k\<lparr>host_wake := (host_wake k)\<lparr>latest_lost := False\<rparr>\<rparr>, latest_lost (host_wake k))
      else (k, False))"

definition KeyboardUart_HostWakeIdle :: "bool \<Rightarrow> kbd_uart \<Rightarrow> bool" where
  "KeyboardUart_HostWakeIdle hwk k \<longleftrightarrow> (if hwk then HostWake_Idle (host_wake k) else True)"

definition KeyboardUart_FifoIdle :: "u8 \<Rightarrow> bool \<Rightarrow> bool" where
  "KeyboardUart_FifoIdle tfc lsr_all_emp \<longleftrightarrow> tfc = 0 \<and> lsr_all_emp"

definition KeyboardUart_TxIdle :: "bool \<Rightarrow> u8 \<Rightarrow> bool \<Rightarrow> kbd_uart \<Rightarrow> bool" where
  "KeyboardUart_TxIdle hwk tfc lsr_all_emp k \<longleftrightarrow>
     KeyboardUart_FifoIdle tfc lsr_all_emp \<and> KeyboardUart_HostWakeIdle hwk k"

text \<open>Initialisation, less the pin and peripheral configuration.\<close>

definition KBD_HOST_WAKE_GUARD_US :: u32 where "KBD_HOST_WAKE_GUARD_US = 1000"
definition KBD_HOST_WAKE_ACK_TIMEOUT_US :: u32 where "KBD_HOST_WAKE_ACK_TIMEOUT_US = 20000"
definition KBD_HOST_WAKE_ATTEMPTS :: u8 where "KBD_HOST_WAKE_ATTEMPTS = 3"

definition KeyboardUart_Init :: "bool \<Rightarrow> u32 \<Rightarrow> kbd_uart \<Rightarrow> kbd_uart" where
  "KeyboardUart_Init hwk FREQ_RTC k =
     (if hwk then
        k\<lparr>chwake_pin := chwake_pin k @ [False], chwake_level := False,
          host_wake := HostWake_Init (RTC_CLOCK_TICKS_US FREQ_RTC KBD_HOST_WAKE_GUARD_US)
             (RTC_CLOCK_TICKS_US FREQ_RTC KBD_HOST_WAKE_ACK_TIMEOUT_US) KBD_HOST_WAKE_ATTEMPTS\<rparr>
      else k)"

section \<open>Lemmas on sending\<close>

lemma send_byte_thr:
  "uart_send_byte F Q b tx = Some (ok, tx') \<Longrightarrow> thr tx' = thr tx @ (if ok then [b] else [])"
  by (auto simp: uart_send_byte_def split: list.splits option.splits if_splits)

lemma send_raw_thr:
  "send_raw_from F Q bs i tx = Some (n, tx') \<Longrightarrow>
    i \<le> n \<and> n - i \<le> length bs \<and> thr tx' = thr tx @ take (n - i) bs"
proof (induction bs arbitrary: i tx)
  case Nil
  then show ?case by simp
next
  case (Cons b bs)
  then obtain ok tx1 where b: "uart_send_byte F Q b tx = Some (ok, tx1)"
    by (auto split: option.splits)
  note w = send_byte_thr [OF b]
  show ?case
  proof (cases ok)
    case True
    with Cons.prems b have "send_raw_from F Q bs (Suc i) tx1 = Some (n, tx')" by simp
    from Cons.IH [OF this] have "Suc i \<le> n" "n - Suc i \<le> length bs"
      and t: "thr tx' = thr tx1 @ take (n - Suc i) bs" by simp_all
    moreover from this have "n - i = Suc (n - Suc i)" by simp
    ultimately show ?thesis using w True by simp
  next
    case False
    with Cons.prems b w show ?thesis by simp
  qed
qed

text \<open>The three-byte senders send as \<open>SendRaw\<close> would.\<close>

lemma send_frame_raw:
  "uart_send_frame F Q cmd val tx =
     map_option (\<lambda>(n, tx'). (n = 3, tx')) (send_raw_from F Q [cmd, val, cmd + val] 0 tx)"
  by (auto simp: uart_send_frame_def split: option.splits prod.splits if_splits)

lemma send_ack_raw:
  "KeyboardUart_SendAck F Q tx = map_option snd (send_raw_from F Q [0x61, 0x0D, 0x0A] 0 tx)"
  by (auto simp: KeyboardUart_SendAck_def split: option.splits prod.splits if_splits)

lemma spin_returns:
  "i < length rs \<Longrightarrow> wait \<le> rs ! i - start \<Longrightarrow> i < length cs \<Longrightarrow>
    \<exists>ok cs' rs'. tx_spin F wait start cs rs = Some (ok, cs', rs') \<and> length rs \<le> length rs' + Suc i"
proof (induction cs arbitrary: rs i)
  case Nil
  then show ?case by simp
next
  case (Cons c cs)
  then obtain r rs1 where rs: "rs = r # rs1" by (cases rs) auto
  show ?case
  proof (cases "c = F \<and> \<not> wait \<le> r - start")
    case True
    with Cons.prems rs obtain j where i: "i = Suc j" by (cases i) auto
    with Cons.prems rs Cons.IH [of j rs1] True show ?thesis by auto
  next
    case False
    with rs show ?thesis by (cases "c = F") auto
  qed
qed

section \<open>CHWAKE follows the machine\<close>

definition chwake_ok :: "kbd_uart \<Rightarrow> bool" where
  "chwake_ok k \<longleftrightarrow> chwake_level k = (hw_state (host_wake k) \<noteq> HOST_WAKE_STATE_IDLE)
     \<and> chwake_pin k \<noteq> [] \<and> last (chwake_pin k) = chwake_level k
     \<and> distinct_adj (chwake_pin k)"

lemma step_line_state:
  "step_line (snd (HostWake_Step now hw)) = (hw_state (fst (HostWake_Step now hw)) \<noteq> HOST_WAKE_STATE_IDLE)"
  by (auto simp: HostWake_Step_def retire_def send_next_def transmit_def Let_def split: host_wake_state.split)

lemma step_send_line: "step_send (snd (HostWake_Step now hw)) \<Longrightarrow> step_line (snd (HostWake_Step now hw))"
  by (auto simp: HostWake_Step_def retire_def send_next_def transmit_def Let_def split: host_wake_state.splits if_splits)

datatype kbd_event = K_Status u8 | K_Battery u8 | K_Led u8 | K_Ack | K_LedLost | K_Service u32

fun kbd_apply :: "u8 \<Rightarrow> u32 \<Rightarrow> kbd_event \<Rightarrow> kbd_uart \<Rightarrow> kbd_uart option" where
  "kbd_apply F Q (K_Status s) k = KeyboardUart_SendStatus True F Q s k"
| "kbd_apply F Q (K_Battery p) k = KeyboardUart_SendBattery True F Q p k"
| "kbd_apply F Q (K_Led m) k = KeyboardUart_SendLed True F Q m k"
| "kbd_apply F Q K_Ack k = Some (k\<lparr>host_wake := HostWake_OnAck (host_wake k)\<rparr>)"
| "kbd_apply F Q K_LedLost k = Some (fst (KeyboardUart_TakeLedLost True k))"
| "kbd_apply F Q (K_Service now) k = KeyboardUart_Service True F Q now k"

fun kbd_run :: "u8 \<Rightarrow> u32 \<Rightarrow> kbd_event list \<Rightarrow> kbd_uart \<Rightarrow> kbd_uart option" where
  "kbd_run F Q [] k = Some k"
| "kbd_run F Q (e # es) k = (case kbd_apply F Q e k of None \<Rightarrow> None | Some k1 \<Rightarrow> kbd_run F Q es k1)"

lemma chwake_ok_frame:
  "hw_state (host_wake k') = hw_state (host_wake k) \<Longrightarrow> chwake_level k' = chwake_level k \<Longrightarrow>
    chwake_pin k' = chwake_pin k \<Longrightarrow> chwake_ok k' = chwake_ok k"
  by (simp add: chwake_ok_def)

lemma chwake_service:
  assumes ok: "chwake_ok k" and run: "KeyboardUart_Service True F Q now k = Some k'"
  shows "chwake_ok k' \<and> (thr (k_tx k') \<noteq> thr (k_tx k) \<longrightarrow> chwake_level k')"
proof -
  let ?r = "HostWake_Step now (host_wake k)"
  define k2 where "k2 = (if step_line (snd ?r) \<noteq> chwake_level k
      then k\<lparr>host_wake := fst ?r, chwake_pin := chwake_pin k @ [step_line (snd ?r)], chwake_level := step_line (snd ?r)\<rparr>
      else k\<lparr>host_wake := fst ?r\<rparr>)"
  have lvl: "chwake_level k2 = step_line (snd ?r)" and tx: "k_tx k2 = k_tx k" by (simp_all add: k2_def)
  have "chwake_ok k2"
    using ok by (auto simp: chwake_ok_def k2_def step_line_state distinct_adj_append_iff)
  moreover have k': "if step_send (snd ?r)
      then \<exists>ok tx. k' = k2\<lparr>k_tx := tx\<rparr> else k' = k2"
    using run by (auto simp: KeyboardUart_Service_def Let_def k2_def split: if_splits option.splits)
  ultimately show ?thesis
    using lvl tx step_send_line [of now "host_wake k"]
    by (cases "step_send (snd ?r)") (auto simp: chwake_ok_def)
qed

lemma chwake_apply:
  assumes "chwake_ok k" and "kbd_apply F Q e k = Some k'"
  shows "chwake_ok k' \<and> (thr (k_tx k') \<noteq> thr (k_tx k) \<longrightarrow> chwake_level k')"
proof (cases e)
  case (K_Service now)
  with assms chwake_service show ?thesis by simp
qed (use assms in \<open>auto simp: KeyboardUart_SendStatus_def KeyboardUart_SendBattery_def KeyboardUart_SendLed_def
      send_host_frame_def HostWake_SetLatest_def HostWake_OnAck_def KeyboardUart_TakeLedLost_def chwake_ok_def split: if_splits\<close>)

lemma chwake_run:
  "chwake_ok k \<Longrightarrow> kbd_run F Q es k = Some k' \<Longrightarrow> chwake_ok k'"
proof (induction es arbitrary: k)
  case (Cons e es)
  then obtain k1 where "kbd_apply F Q e k = Some k1" and "kbd_run F Q es k1 = Some k'"
    by (auto split: option.splits)
  with Cons chwake_apply [of k F Q e k1] show ?case by blast
qed simp

lemma chwake_init: "chwake_ok (KeyboardUart_Init True Q (k\<lparr>chwake_pin := []\<rparr>))"
  by (simp add: chwake_ok_def KeyboardUart_Init_def HostWake_Init_def)

section \<open>Properties\<close>

text \<open>
  A frame is sent whole or cut short, never garbled.  If a send of command, value and checksum
  returns, the bytes it put on the wire are a prefix of those three, and it reports success exactly
  when all three went out.  The same holds for the raw sender: it reports the number of bytes sent,
  and these are the first ones of the buffer.
\<close>
theorem uart_send_prefix:
  assumes "uart_send_frame F Q cmd val tx = Some (ok, tx')"
    and "KeyboardUart_SendRaw F Q buf len tx1 = Some (sent, tx2)" and "unat len \<le> length buf"
  shows "(\<exists>n \<le> 3. thr tx' = thr tx @ take n [cmd, val, cmd + val] \<and> (ok \<longleftrightarrow> n = 3))
       \<and> thr tx2 = thr tx1 @ take (unat sent) buf \<and> sent \<le> len"
proof -
  obtain n where n: "send_raw_from F Q [cmd, val, cmd + val] 0 tx = Some (n, tx')" and ok: "ok = (n = 3)"
    using assms(1) by (auto simp: send_frame_raw)
  obtain m where m: "send_raw_from F Q (take (unat len) buf) 0 tx1 = Some (m, tx2)" and sent: "sent = of_nat m"
    using assms(2) by (auto simp: KeyboardUart_SendRaw_def)
  have "m \<le> unat len" and thr: "thr tx2 = thr tx1 @ take m (take (unat len) buf)"
    using send_raw_thr [OF m] assms(3) by simp_all
  moreover from this have "unat sent = m"
    using sent unat_lt_u8 [of len] by (simp add: unat_of_nat)
  ultimately have "thr tx2 = thr tx1 @ take (unat sent) buf \<and> sent \<le> len"
    by (simp add: word_le_nat_alt)
  moreover have "n \<le> 3 \<and> thr tx' = thr tx @ take n [cmd, val, cmd + val]"
    using send_raw_thr [OF n] by simp
  ultimately show ?thesis using ok by blast
qed

theorem uart_send_prefix_witness:
  "uart_send_frame 8 32768 0x5B 0x31 \<lparr>thr = [], tfc_reads = [3, 8, 8, 7, 8, 8], rtc_reads = [100, 103, 105, 111]\<rparr>
     = Some (False, \<lparr>thr = [0x5B, 0x31], tfc_reads = [], rtc_reads = []\<rparr>)
   \<and> (\<exists>n \<le> 3. [0x5B, 0x31] = take n [0x5B, 0x31, 0x5B + 0x31 :: u8] \<and> (False \<longleftrightarrow> n = 3))"
proof -
  let ?tx = "\<lparr>thr = [], tfc_reads = [3, 8, 8, 7, 8, 8], rtc_reads = [100, 103, 105, 111]\<rparr>"
  have f: "uart_send_frame 8 32768 0x5B 0x31 ?tx = Some (False, \<lparr>thr = [0x5B, 0x31], tfc_reads = [], rtc_reads = []\<rparr>)"
    by (simp add: uart_send_frame_def uart_send_byte_def RTC_CLOCK_TICKS_US_def KBD_UART_TX_WAIT_US_def)
  have r: "KeyboardUart_SendRaw 8 32768 [] 0 ?tx = Some (0, ?tx)" by (simp add: KeyboardUart_SendRaw_def)
  show ?thesis using uart_send_prefix [OF f r] f by simp
qed

text \<open>
  C38: a send cannot freeze the main loop.  When the FIFO stays full, the wait for a free place ends
  at the latest with the first clock reading that lies \<open>RTC_CLOCK_TICKS_US(150)\<close> ticks after the
  first one: the send returns, having used no more clock readings than those.
\<close>
theorem uart_send_bounded:
  assumes "rtc_reads tx = start # rs" and "i < length rs"
    and "RTC_CLOCK_TICKS_US FREQ_RTC KBD_UART_TX_WAIT_US \<le> rs ! i - start"
    and "i + 1 < length (tfc_reads tx)"
  shows "\<exists>ok tx'. uart_send_byte F FREQ_RTC b tx = Some (ok, tx')
           \<and> length (rtc_reads tx) \<le> length (rtc_reads tx') + i + 2"
proof -
  obtain c cs where c: "tfc_reads tx = c # cs" and len: "i < length cs"
    using assms(4) by (cases "tfc_reads tx") auto
  show ?thesis
  proof (cases "c = F")
    case True
    obtain ok cs' rs' where "tx_spin F (RTC_CLOCK_TICKS_US FREQ_RTC KBD_UART_TX_WAIT_US) start cs rs = Some (ok, cs', rs')"
      and "length rs \<le> length rs' + Suc i"
      using spin_returns [OF assms(2,3) len] by blast
    with True c assms(1) show ?thesis by (auto simp: uart_send_byte_def)
  next
    case False
    with c show ?thesis by (auto simp: uart_send_byte_def)
  qed
qed

theorem uart_send_bounded_witness:
  "\<exists>ok tx'. uart_send_byte 8 32768 0x61 \<lparr>thr = [], tfc_reads = [8, 8, 8, 8], rtc_reads = [10, 11, 14, 16]\<rparr> = Some (ok, tx')
     \<and> 4 \<le> length (rtc_reads tx') + 4"
  using uart_send_bounded [where tx = "\<lparr>thr = [], tfc_reads = [8, 8, 8, 8], rtc_reads = [10, 11, 14, 16]\<rparr>"
      and start = 10 and rs = "[11, 14, 16]" and i = 2 and FREQ_RTC = 32768 and F = 8 and b = "0x61"]
  by (simp add: RTC_CLOCK_TICKS_US_def KBD_UART_TX_WAIT_US_def)

text \<open>
  CHWAKE.  In a host-wake build, after any sequence of status, battery and LED frames, host
  ACKs and service calls that return, the pin has the level of the machine's state (high exactly
  when it is not idle), it was only written when it changed, and a byte goes on the wire for a
  module frame only inside a service call that leaves the pin high.
\<close>
theorem chwake_follows:
  assumes "kbd_run F Q es (KeyboardUart_Init True Q (k\<lparr>chwake_pin := []\<rparr>)) = Some k1"
    and "kbd_apply F Q e k1 = Some k2"
  shows "chwake_level k2 = (hw_state (host_wake k2) \<noteq> HOST_WAKE_STATE_IDLE)
       \<and> last (chwake_pin k2) = chwake_level k2 \<and> distinct_adj (chwake_pin k2)
       \<and> (thr (k_tx k2) \<noteq> thr (k_tx k1) \<longrightarrow> chwake_level k2)"
  using chwake_apply [OF chwake_run [OF chwake_init assms(1)] assms(2)]
  unfolding chwake_ok_def by blast

theorem chwake_follows_witness:
  "let k = \<lparr>k_tx = \<lparr>thr = [], tfc_reads = [0, 0, 0], rtc_reads = []\<rparr>, host_wake = HostWake_Init 0 0 0,
            chwake_level = False, chwake_pin = []\<rparr>;
       k1 = the (kbd_run 8 32768 [K_Status 0x31, K_Service 100] (KeyboardUart_Init True 32768 k));
       k2 = the (kbd_apply 8 32768 (K_Service 200) k1)
   in thr (k_tx k1) = [] \<and> thr (k_tx k2) = [0x5B, 0x31, 0x8C] \<and> chwake_level k2"
proof -
  let ?k = "\<lparr>k_tx = \<lparr>thr = [], tfc_reads = [0, 0, 0], rtc_reads = []\<rparr>, host_wake = HostWake_Init 0 0 0,
            chwake_level = False, chwake_pin = []\<rparr>"
  let ?r1 = "kbd_run 8 32768 [K_Status 0x31, K_Service 100] (KeyboardUart_Init True 32768 ?k)"
  let ?r2 = "kbd_apply 8 32768 (K_Service 200) (the ?r1)"
  have "?r1 \<noteq> None \<and> ?r2 \<noteq> None \<and> thr (k_tx (the ?r1)) = [] \<and> thr (k_tx (the ?r2)) = [0x5B, 0x31, 0x8C]"
    by code_simp
  with chwake_follows [of 8 32768 "[K_Status 0x31, K_Service 100]" ?k "the ?r1" "K_Service 200" "the ?r2"]
  show ?thesis by (auto simp: Let_def)
qed

end
