(* ===== verification/Diag_Frame.thy ===== *)
theory Diag_Frame
  imports Keyboard_Uart Le_Bytes
begin

text \<open>
  The diagnostic dump of \<^verbatim>\<open>firmware/src/diag_frame.c\<close> and \<^verbatim>\<open>firmware/src/diag_dump.c\<close>: the byte
  layout of the snapshot frame, its send with the thaw of the forensic record, and the zeroing of
  the counters.  The output pointer of the C formatter is the list of bytes written so far.  The
  counters and the raw forensic bytes, which other files own, are the fields of one record of live
  values; the deep-sleep and idle build options are on.
\<close>

section \<open>The frame\<close>

definition DIAG_FRAME_HEADER :: u8 where "DIAG_FRAME_HEADER = 0x5D"
definition DIAG_PAYLOAD_VERSION :: u8 where "DIAG_PAYLOAD_VERSION = 3"
definition DIAG_PAYLOAD_LEN :: u8 where "DIAG_PAYLOAD_LEN = 89"

record diag_snapshot_t =
  ds_rf_state :: u8
  ds_ll_boot_count :: u32
  ds_rf_pair_bcast_count :: u32
  ds_rf_valid_rx_count :: u32
  ds_entered_connected_count :: u32
  ds_rf_config_count :: u32
  ds_pwr_pair_rx_off_count :: u32
  ds_pwr_wfi_count :: u32
  ds_pwr_sleep_attempt :: u16
  ds_pwr_sleep_entered :: u16
  ds_pwr_sleep_aborted :: u16
  ds_pwr_wake_gpio :: u16
  ds_pwr_wake_rtc :: u16
  ds_pwr_last_abort_reason :: u8
  ds_rf_last_config_status :: u8
  ds_rf_last_rx_status :: u8
  ds_rf_last_tx_status :: u8
  ds_ll_drop_count :: u32
  ds_boot_reset_status :: u8
  ds_fault_marker :: u8
  ds_fault_mepc :: u32
  ds_fault_mcause :: u32
  ds_fault_mtval :: u32
  ds_pwr_loop_passes :: u16
  ds_pwr_loop_stage :: u8
  ds_ll_hid_rx :: u32
  ds_ll_hid_tx :: u32
  ds_ll_hid_rx_down :: u32
  ds_ll_hid_tx_down :: u32
  ds_ll_hid_tx_done_down :: u32
  ds_ll_hid_fifo_drop :: u32

definition put8 :: "u8 list \<Rightarrow> u8 \<Rightarrow> u8 list" where "put8 p v = p @ [v]"

definition put16 :: "u8 list \<Rightarrow> u16 \<Rightarrow> u8 list" where
  "put16 p v = p @ [ucast v, ucast (drop_bit 8 v)]"

definition put32 :: "u8 list \<Rightarrow> u32 \<Rightarrow> u8 list" where
  "put32 p v = put16 (put16 p (ucast v)) (ucast (drop_bit 16 v))"

text \<open>The checksum byte and the frame's length, which is returned.\<close>

definition finish :: "u8 list \<Rightarrow> u8 list \<times> u8" where
  "finish p = (let sum = fold (\<lambda>q sum. sum + q) p 0; out = p @ [sum] in (out, of_nat (length out)))"

definition DiagFrame_FormatEmpty :: "u8 list \<times> u8" where
  "DiagFrame_FormatEmpty = finish (put8 (put8 [] DIAG_FRAME_HEADER) 0)"

definition DiagFrame_Format :: "diag_snapshot_t \<Rightarrow> u8 list \<times> u8" where
  "DiagFrame_Format s =
     (let p = put8 [] DIAG_FRAME_HEADER;
          p = put8 p DIAG_PAYLOAD_LEN;
          p = put8 p DIAG_PAYLOAD_VERSION;
          p = put8 p (ds_rf_state s);
          p = put32 p (ds_ll_boot_count s);
          p = put32 p (ds_rf_pair_bcast_count s);
          p = put32 p (ds_rf_valid_rx_count s);
          p = put32 p (ds_entered_connected_count s);
          p = put32 p (ds_rf_config_count s);
          p = put32 p (ds_pwr_pair_rx_off_count s);
          p = put32 p (ds_pwr_wfi_count s);
          p = put16 p (ds_pwr_sleep_attempt s);
          p = put16 p (ds_pwr_sleep_entered s);
          p = put16 p (ds_pwr_sleep_aborted s);
          p = put16 p (ds_pwr_wake_gpio s);
          p = put16 p (ds_pwr_wake_rtc s);
          p = put8 p (ds_pwr_last_abort_reason s);
          p = put8 p (ds_rf_last_config_status s);
          p = put8 p (ds_rf_last_rx_status s);
          p = put8 p (ds_rf_last_tx_status s);
          p = put32 p (ds_ll_drop_count s);
          p = put8 p (ds_boot_reset_status s);
          p = put8 p (ds_fault_marker s);
          p = put32 p (ds_fault_mepc s);
          p = put32 p (ds_fault_mcause s);
          p = put32 p (ds_fault_mtval s);
          p = put16 p (ds_pwr_loop_passes s);
          p = put8 p (ds_pwr_loop_stage s);
          p = put32 p (ds_ll_hid_rx s);
          p = put32 p (ds_ll_hid_tx s);
          p = put32 p (ds_ll_hid_rx_down s);
          p = put32 p (ds_ll_hid_tx_down s);
          p = put32 p (ds_ll_hid_tx_done_down s);
          p = put32 p (ds_ll_hid_fifo_drop s)
      in finish p)"

section \<open>A reader of the documented layout\<close>

definition diag_parse :: "u8 list \<Rightarrow> diag_snapshot_t option" where
  "diag_parse f =
     (if length f = 92 \<and> f ! 0 = 0x5D \<and> f ! 1 = 89 \<and> f ! 2 = 3 \<and> sum_list (take 91 f) = f ! 91 then
        Some \<lparr>ds_rf_state = f ! 3,
              ds_ll_boot_count = le32 (f ! 4) (f ! 5) (f ! 6) (f ! 7),
              ds_rf_pair_bcast_count = le32 (f ! 8) (f ! 9) (f ! 10) (f ! 11),
              ds_rf_valid_rx_count = le32 (f ! 12) (f ! 13) (f ! 14) (f ! 15),
              ds_entered_connected_count = le32 (f ! 16) (f ! 17) (f ! 18) (f ! 19),
              ds_rf_config_count = le32 (f ! 20) (f ! 21) (f ! 22) (f ! 23),
              ds_pwr_pair_rx_off_count = le32 (f ! 24) (f ! 25) (f ! 26) (f ! 27),
              ds_pwr_wfi_count = le32 (f ! 28) (f ! 29) (f ! 30) (f ! 31),
              ds_pwr_sleep_attempt = le16 (f ! 32) (f ! 33),
              ds_pwr_sleep_entered = le16 (f ! 34) (f ! 35),
              ds_pwr_sleep_aborted = le16 (f ! 36) (f ! 37),
              ds_pwr_wake_gpio = le16 (f ! 38) (f ! 39),
              ds_pwr_wake_rtc = le16 (f ! 40) (f ! 41),
              ds_pwr_last_abort_reason = f ! 42,
              ds_rf_last_config_status = f ! 43,
              ds_rf_last_rx_status = f ! 44,
              ds_rf_last_tx_status = f ! 45,
              ds_ll_drop_count = le32 (f ! 46) (f ! 47) (f ! 48) (f ! 49),
              ds_boot_reset_status = f ! 50,
              ds_fault_marker = f ! 51,
              ds_fault_mepc = le32 (f ! 52) (f ! 53) (f ! 54) (f ! 55),
              ds_fault_mcause = le32 (f ! 56) (f ! 57) (f ! 58) (f ! 59),
              ds_fault_mtval = le32 (f ! 60) (f ! 61) (f ! 62) (f ! 63),
              ds_pwr_loop_passes = le16 (f ! 64) (f ! 65),
              ds_pwr_loop_stage = f ! 66,
              ds_ll_hid_rx = le32 (f ! 67) (f ! 68) (f ! 69) (f ! 70),
              ds_ll_hid_tx = le32 (f ! 71) (f ! 72) (f ! 73) (f ! 74),
              ds_ll_hid_rx_down = le32 (f ! 75) (f ! 76) (f ! 77) (f ! 78),
              ds_ll_hid_tx_down = le32 (f ! 79) (f ! 80) (f ! 81) (f ! 82),
              ds_ll_hid_tx_done_down = le32 (f ! 83) (f ! 84) (f ! 85) (f ! 86),
              ds_ll_hid_fifo_drop = le32 (f ! 87) (f ! 88) (f ! 89) (f ! 90)\<rparr>
      else None)"

lemma le32_split:
  "le32 (ucast (ucast v :: u16)) (ucast (drop_bit 8 (ucast v :: u16)))
     (ucast (ucast (drop_bit 16 v) :: u16)) (ucast (drop_bit 8 (ucast (drop_bit 16 v) :: u16))) = v"
proof (rule bit_word_eqI)
  fix n assume "n < LENGTH(32)"
  then show "bit (le32 (ucast (ucast v :: u16)) (ucast (drop_bit 8 (ucast v :: u16)))
     (ucast (ucast (drop_bit 16 v) :: u16)) (ucast (drop_bit 8 (ucast (drop_bit 16 v) :: u16)))) n = bit v n"
    by (cases "n < 24") (auto simp: le32_def bit_simps)
qed

lemma fold_plus_sum_list: "fold (\<lambda>q sum. sum + q) p a = a + sum_list p" for a :: u8
  by (induction p arbitrary: a) (simp_all add: add.assoc)

section \<open>The dump\<close>

record diag_state =
  diag_live :: diag_snapshot_t
  pwr_forensics_frozen :: bool

definition RF_STATE_CONNECTED_BYTE :: u8 where "RF_STATE_CONNECTED_BYTE = 2"

definition DiagDump_Send :: "u8 \<Rightarrow> u32 \<Rightarrow> u8 \<Rightarrow> diag_state \<Rightarrow> uart_tx \<Rightarrow> (diag_state \<times> uart_tx) option" where
  "DiagDump_Send F Q rf_state d tx =
     (let connected = (rf_state = RF_STATE_CONNECTED_BYTE);
          r = (if connected then DiagFrame_FormatEmpty
               else DiagFrame_Format ((diag_live d)\<lparr>ds_rf_state := rf_state\<rparr>));
          frame = fst r; n = snd r
      in case KeyboardUart_SendRaw F Q frame n tx of
           None \<Rightarrow> None
         | Some (sent, tx') \<Rightarrow>
             Some (if \<not> connected \<and> sent = n then d\<lparr>pwr_forensics_frozen := False\<rparr> else d, tx'))"

definition DiagDump_Zero :: "u8 \<Rightarrow> diag_state \<Rightarrow> diag_state" where
  "DiagDump_Zero rf_state d =
     (if rf_state = RF_STATE_CONNECTED_BYTE then d
      else d\<lparr>diag_live := (diag_live d)
            \<lparr>ds_rf_pair_bcast_count := 0,
             ds_rf_valid_rx_count := 0,
             ds_entered_connected_count := 0,
             ds_rf_config_count := 0,
             ds_pwr_pair_rx_off_count := 0,
             ds_ll_drop_count := 0,
             ds_rf_last_config_status := 0,
             ds_rf_last_rx_status := 0,
             ds_rf_last_tx_status := 0,
             ds_ll_hid_rx := 0,
             ds_ll_hid_tx := 0,
             ds_ll_hid_rx_down := 0,
             ds_ll_hid_tx_down := 0,
             ds_ll_hid_tx_done_down := 0,
             ds_ll_hid_fifo_drop := 0,
             ds_pwr_wfi_count := 0,
             ds_pwr_sleep_attempt := 0,
             ds_pwr_sleep_entered := 0,
             ds_pwr_sleep_aborted := 0,
             ds_pwr_wake_gpio := 0,
             ds_pwr_wake_rtc := 0,
             ds_pwr_last_abort_reason := 0,
             ds_fault_marker := 0,
             ds_fault_mepc := 0,
             ds_fault_mcause := 0,
             ds_fault_mtval := 0,
             ds_pwr_loop_passes := 0,
             ds_pwr_loop_stage := 0\<rparr>,
            pwr_forensics_frozen := False\<rparr>)"

section \<open>Properties\<close>

lemma put_app [simp]:
  "put8 p v = p @ [v]" "put16 p x = p @ [ucast x, ucast (drop_bit 8 x)]"
  "put32 p y = p @ [ucast (ucast y :: u16), ucast (drop_bit 8 (ucast y :: u16)),
     ucast (ucast (drop_bit 16 y) :: u16), ucast (drop_bit 8 (ucast (drop_bit 16 y) :: u16))]"
  by (simp_all add: put8_def put16_def put32_def)

lemma finish_eq: "finish p = (p @ [sum_list p], of_nat (Suc (length p)))"
  by (simp add: finish_def fold_plus_sum_list Let_def)

text \<open>The bytes before the checksum, in order.\<close>

definition diag_bytes :: "diag_snapshot_t \<Rightarrow> u8 list" where
  "diag_bytes s =
     [0x5D,
      89,
      3,
      ds_rf_state s,
      ucast (ucast (ds_ll_boot_count s) :: u16),
      ucast (drop_bit 8 (ucast (ds_ll_boot_count s) :: u16)),
      ucast (ucast (drop_bit 16 (ds_ll_boot_count s)) :: u16),
      ucast (drop_bit 8 (ucast (drop_bit 16 (ds_ll_boot_count s)) :: u16)),
      ucast (ucast (ds_rf_pair_bcast_count s) :: u16),
      ucast (drop_bit 8 (ucast (ds_rf_pair_bcast_count s) :: u16)),
      ucast (ucast (drop_bit 16 (ds_rf_pair_bcast_count s)) :: u16),
      ucast (drop_bit 8 (ucast (drop_bit 16 (ds_rf_pair_bcast_count s)) :: u16)),
      ucast (ucast (ds_rf_valid_rx_count s) :: u16),
      ucast (drop_bit 8 (ucast (ds_rf_valid_rx_count s) :: u16)),
      ucast (ucast (drop_bit 16 (ds_rf_valid_rx_count s)) :: u16),
      ucast (drop_bit 8 (ucast (drop_bit 16 (ds_rf_valid_rx_count s)) :: u16)),
      ucast (ucast (ds_entered_connected_count s) :: u16),
      ucast (drop_bit 8 (ucast (ds_entered_connected_count s) :: u16)),
      ucast (ucast (drop_bit 16 (ds_entered_connected_count s)) :: u16),
      ucast (drop_bit 8 (ucast (drop_bit 16 (ds_entered_connected_count s)) :: u16)),
      ucast (ucast (ds_rf_config_count s) :: u16),
      ucast (drop_bit 8 (ucast (ds_rf_config_count s) :: u16)),
      ucast (ucast (drop_bit 16 (ds_rf_config_count s)) :: u16),
      ucast (drop_bit 8 (ucast (drop_bit 16 (ds_rf_config_count s)) :: u16)),
      ucast (ucast (ds_pwr_pair_rx_off_count s) :: u16),
      ucast (drop_bit 8 (ucast (ds_pwr_pair_rx_off_count s) :: u16)),
      ucast (ucast (drop_bit 16 (ds_pwr_pair_rx_off_count s)) :: u16),
      ucast (drop_bit 8 (ucast (drop_bit 16 (ds_pwr_pair_rx_off_count s)) :: u16)),
      ucast (ucast (ds_pwr_wfi_count s) :: u16),
      ucast (drop_bit 8 (ucast (ds_pwr_wfi_count s) :: u16)),
      ucast (ucast (drop_bit 16 (ds_pwr_wfi_count s)) :: u16),
      ucast (drop_bit 8 (ucast (drop_bit 16 (ds_pwr_wfi_count s)) :: u16)),
      ucast (ds_pwr_sleep_attempt s),
      ucast (drop_bit 8 (ds_pwr_sleep_attempt s)),
      ucast (ds_pwr_sleep_entered s),
      ucast (drop_bit 8 (ds_pwr_sleep_entered s)),
      ucast (ds_pwr_sleep_aborted s),
      ucast (drop_bit 8 (ds_pwr_sleep_aborted s)),
      ucast (ds_pwr_wake_gpio s),
      ucast (drop_bit 8 (ds_pwr_wake_gpio s)),
      ucast (ds_pwr_wake_rtc s),
      ucast (drop_bit 8 (ds_pwr_wake_rtc s)),
      ds_pwr_last_abort_reason s,
      ds_rf_last_config_status s,
      ds_rf_last_rx_status s,
      ds_rf_last_tx_status s,
      ucast (ucast (ds_ll_drop_count s) :: u16),
      ucast (drop_bit 8 (ucast (ds_ll_drop_count s) :: u16)),
      ucast (ucast (drop_bit 16 (ds_ll_drop_count s)) :: u16),
      ucast (drop_bit 8 (ucast (drop_bit 16 (ds_ll_drop_count s)) :: u16)),
      ds_boot_reset_status s,
      ds_fault_marker s,
      ucast (ucast (ds_fault_mepc s) :: u16),
      ucast (drop_bit 8 (ucast (ds_fault_mepc s) :: u16)),
      ucast (ucast (drop_bit 16 (ds_fault_mepc s)) :: u16),
      ucast (drop_bit 8 (ucast (drop_bit 16 (ds_fault_mepc s)) :: u16)),
      ucast (ucast (ds_fault_mcause s) :: u16),
      ucast (drop_bit 8 (ucast (ds_fault_mcause s) :: u16)),
      ucast (ucast (drop_bit 16 (ds_fault_mcause s)) :: u16),
      ucast (drop_bit 8 (ucast (drop_bit 16 (ds_fault_mcause s)) :: u16)),
      ucast (ucast (ds_fault_mtval s) :: u16),
      ucast (drop_bit 8 (ucast (ds_fault_mtval s) :: u16)),
      ucast (ucast (drop_bit 16 (ds_fault_mtval s)) :: u16),
      ucast (drop_bit 8 (ucast (drop_bit 16 (ds_fault_mtval s)) :: u16)),
      ucast (ds_pwr_loop_passes s),
      ucast (drop_bit 8 (ds_pwr_loop_passes s)),
      ds_pwr_loop_stage s,
      ucast (ucast (ds_ll_hid_rx s) :: u16),
      ucast (drop_bit 8 (ucast (ds_ll_hid_rx s) :: u16)),
      ucast (ucast (drop_bit 16 (ds_ll_hid_rx s)) :: u16),
      ucast (drop_bit 8 (ucast (drop_bit 16 (ds_ll_hid_rx s)) :: u16)),
      ucast (ucast (ds_ll_hid_tx s) :: u16),
      ucast (drop_bit 8 (ucast (ds_ll_hid_tx s) :: u16)),
      ucast (ucast (drop_bit 16 (ds_ll_hid_tx s)) :: u16),
      ucast (drop_bit 8 (ucast (drop_bit 16 (ds_ll_hid_tx s)) :: u16)),
      ucast (ucast (ds_ll_hid_rx_down s) :: u16),
      ucast (drop_bit 8 (ucast (ds_ll_hid_rx_down s) :: u16)),
      ucast (ucast (drop_bit 16 (ds_ll_hid_rx_down s)) :: u16),
      ucast (drop_bit 8 (ucast (drop_bit 16 (ds_ll_hid_rx_down s)) :: u16)),
      ucast (ucast (ds_ll_hid_tx_down s) :: u16),
      ucast (drop_bit 8 (ucast (ds_ll_hid_tx_down s) :: u16)),
      ucast (ucast (drop_bit 16 (ds_ll_hid_tx_down s)) :: u16),
      ucast (drop_bit 8 (ucast (drop_bit 16 (ds_ll_hid_tx_down s)) :: u16)),
      ucast (ucast (ds_ll_hid_tx_done_down s) :: u16),
      ucast (drop_bit 8 (ucast (ds_ll_hid_tx_done_down s) :: u16)),
      ucast (ucast (drop_bit 16 (ds_ll_hid_tx_done_down s)) :: u16),
      ucast (drop_bit 8 (ucast (drop_bit 16 (ds_ll_hid_tx_done_down s)) :: u16)),
      ucast (ucast (ds_ll_hid_fifo_drop s) :: u16),
      ucast (drop_bit 8 (ucast (ds_ll_hid_fifo_drop s) :: u16)),
      ucast (ucast (drop_bit 16 (ds_ll_hid_fifo_drop s)) :: u16),
      ucast (drop_bit 8 (ucast (drop_bit 16 (ds_ll_hid_fifo_drop s)) :: u16))]"

lemma format_bytes: "DiagFrame_Format s = finish (diag_bytes s)"
  by (simp only: DiagFrame_Format_def Let_def put_app append_Cons append_Nil append_assoc diag_bytes_def
      DIAG_FRAME_HEADER_def DIAG_PAYLOAD_LEN_def DIAG_PAYLOAD_VERSION_def)

lemma length_diag_bytes: "length (diag_bytes s) = 91"
  by (simp add: diag_bytes_def)

lemma format_split:
  "DiagFrame_Format s = (diag_bytes s @ [sum_list (diag_bytes s)], 92)"
  by (simp add: format_bytes finish_eq length_diag_bytes)

lemma format_nth: "k < 91 \<Longrightarrow> fst (DiagFrame_Format s) ! k = diag_bytes s ! k"
  by (simp add: format_split nth_append length_diag_bytes)

lemma diag_parse_fields:
  "diag_bytes s ! 3 = ds_rf_state s"
  "le32 (diag_bytes s ! 4) (diag_bytes s ! 5) (diag_bytes s ! 6) (diag_bytes s ! 7) = ds_ll_boot_count s"
  "le32 (diag_bytes s ! 8) (diag_bytes s ! 9) (diag_bytes s ! 10) (diag_bytes s ! 11) = ds_rf_pair_bcast_count s"
  "le32 (diag_bytes s ! 12) (diag_bytes s ! 13) (diag_bytes s ! 14) (diag_bytes s ! 15) = ds_rf_valid_rx_count s"
  "le32 (diag_bytes s ! 16) (diag_bytes s ! 17) (diag_bytes s ! 18) (diag_bytes s ! 19) = ds_entered_connected_count s"
  "le32 (diag_bytes s ! 20) (diag_bytes s ! 21) (diag_bytes s ! 22) (diag_bytes s ! 23) = ds_rf_config_count s"
  "le32 (diag_bytes s ! 24) (diag_bytes s ! 25) (diag_bytes s ! 26) (diag_bytes s ! 27) = ds_pwr_pair_rx_off_count s"
  "le32 (diag_bytes s ! 28) (diag_bytes s ! 29) (diag_bytes s ! 30) (diag_bytes s ! 31) = ds_pwr_wfi_count s"
  "le16 (diag_bytes s ! 32) (diag_bytes s ! 33) = ds_pwr_sleep_attempt s"
  "le16 (diag_bytes s ! 34) (diag_bytes s ! 35) = ds_pwr_sleep_entered s"
  "le16 (diag_bytes s ! 36) (diag_bytes s ! 37) = ds_pwr_sleep_aborted s"
  "le16 (diag_bytes s ! 38) (diag_bytes s ! 39) = ds_pwr_wake_gpio s"
  "le16 (diag_bytes s ! 40) (diag_bytes s ! 41) = ds_pwr_wake_rtc s"
  "diag_bytes s ! 42 = ds_pwr_last_abort_reason s"
  "diag_bytes s ! 43 = ds_rf_last_config_status s"
  "diag_bytes s ! 44 = ds_rf_last_rx_status s"
  "diag_bytes s ! 45 = ds_rf_last_tx_status s"
  "le32 (diag_bytes s ! 46) (diag_bytes s ! 47) (diag_bytes s ! 48) (diag_bytes s ! 49) = ds_ll_drop_count s"
  "diag_bytes s ! 50 = ds_boot_reset_status s"
  "diag_bytes s ! 51 = ds_fault_marker s"
  "le32 (diag_bytes s ! 52) (diag_bytes s ! 53) (diag_bytes s ! 54) (diag_bytes s ! 55) = ds_fault_mepc s"
  "le32 (diag_bytes s ! 56) (diag_bytes s ! 57) (diag_bytes s ! 58) (diag_bytes s ! 59) = ds_fault_mcause s"
  "le32 (diag_bytes s ! 60) (diag_bytes s ! 61) (diag_bytes s ! 62) (diag_bytes s ! 63) = ds_fault_mtval s"
  "le16 (diag_bytes s ! 64) (diag_bytes s ! 65) = ds_pwr_loop_passes s"
  "diag_bytes s ! 66 = ds_pwr_loop_stage s"
  "le32 (diag_bytes s ! 67) (diag_bytes s ! 68) (diag_bytes s ! 69) (diag_bytes s ! 70) = ds_ll_hid_rx s"
  "le32 (diag_bytes s ! 71) (diag_bytes s ! 72) (diag_bytes s ! 73) (diag_bytes s ! 74) = ds_ll_hid_tx s"
  "le32 (diag_bytes s ! 75) (diag_bytes s ! 76) (diag_bytes s ! 77) (diag_bytes s ! 78) = ds_ll_hid_rx_down s"
  "le32 (diag_bytes s ! 79) (diag_bytes s ! 80) (diag_bytes s ! 81) (diag_bytes s ! 82) = ds_ll_hid_tx_down s"
  "le32 (diag_bytes s ! 83) (diag_bytes s ! 84) (diag_bytes s ! 85) (diag_bytes s ! 86) = ds_ll_hid_tx_done_down s"
  "le32 (diag_bytes s ! 87) (diag_bytes s ! 88) (diag_bytes s ! 89) (diag_bytes s ! 90) = ds_ll_hid_fifo_drop s"
  by (simp_all add: diag_bytes_def le16_bytes le32_split)

text \<open>
  C39: the dump frame.  It has exactly 92 bytes, the length returned, and a reader of the documented
  layout (header, length byte, version, fields at their fixed little-endian offsets, checksum over
  everything before it) gets every field of the snapshot back; the refused frame is 5D 00 5D.
\<close>
theorem diag_frame_roundtrip:
  "length (fst (DiagFrame_Format s)) = 92 \<and> snd (DiagFrame_Format s) = 92
   \<and> diag_parse (fst (DiagFrame_Format s)) = Some s
   \<and> DiagFrame_FormatEmpty = ([0x5D, 0, 0x5D], 3)"
proof -
  let ?f = "fst (DiagFrame_Format s)"
  have len: "length ?f = 92 \<and> snd (DiagFrame_Format s) = 92"
    by (simp add: format_split length_diag_bytes)
  moreover have "diag_parse ?f = Some s"
  proof -
    have hdr: "?f ! 0 = 0x5D \<and> ?f ! 1 = 89 \<and> ?f ! 2 = 3"
      by (simp add: format_nth) (simp add: diag_bytes_def)
    have chk: "sum_list (take 91 ?f) = ?f ! 91"
      by (simp add: format_split nth_append length_diag_bytes)
    show ?thesis
      unfolding diag_parse_def using len hdr chk by (simp add: format_nth diag_parse_fields)
  qed
  moreover have "DiagFrame_FormatEmpty = ([0x5D, 0, 0x5D], 3)"
    by (simp add: DiagFrame_FormatEmpty_def finish_eq DIAG_FRAME_HEADER_def)
  ultimately show ?thesis by blast
qed

lemma diag_frame_len:
  "unat (snd (DiagFrame_Format s)) = length (fst (DiagFrame_Format s))"
  "unat (snd DiagFrame_FormatEmpty) = length (fst DiagFrame_FormatEmpty)"
proof -
  show "unat (snd (DiagFrame_Format s)) = length (fst (DiagFrame_Format s))"
    by (simp add: format_split length_diag_bytes)
  show "unat (snd DiagFrame_FormatEmpty) = length (fst DiagFrame_FormatEmpty)"
    by (simp add: DiagFrame_FormatEmpty_def finish_eq)
qed

text \<open>
  The forensic record is thawed only once it was read out.  If a dump returns, the frozen flag
  is cleared exactly when the link is down and the complete frame of the snapshot (its current RF
  state included) is what went on the wire; a refusal while connected or a cut-short send keeps it.
  Zeroing is refused while connected.
\<close>
theorem diag_dump_thaw:
  assumes "DiagDump_Send F Q rf d tx = Some (d', tx')"
  shows "diag_live d' = diag_live d
       \<and> pwr_forensics_frozen d' = (pwr_forensics_frozen d
            \<and> (rf = 2 \<or> thr tx' \<noteq> thr tx @ fst (DiagFrame_Format ((diag_live d)\<lparr>ds_rf_state := rf\<rparr>))))
       \<and> (rf = 2 \<longrightarrow> DiagDump_Zero rf d = d)"
proof -
  define s where "s = (diag_live d)\<lparr>ds_rf_state := rf\<rparr>"
  define r where "r = (if rf = 2 then DiagFrame_FormatEmpty else DiagFrame_Format s)"
  obtain sent where send: "KeyboardUart_SendRaw F Q (fst r) (snd r) tx = Some (sent, tx')"
    and d': "d' = (if rf \<noteq> 2 \<and> sent = snd r then d\<lparr>pwr_forensics_frozen := False\<rparr> else d)"
  proof -
    have "(case KeyboardUart_SendRaw F Q (fst r) (snd r) tx of None \<Rightarrow> None
        | Some (sent, tx'') \<Rightarrow>
            Some (if rf \<noteq> 2 \<and> sent = snd r then d\<lparr>pwr_forensics_frozen := False\<rparr> else d, tx'')) = Some (d', tx')"
      using assms unfolding DiagDump_Send_def RF_STATE_CONNECTED_BYTE_def Let_def r_def s_def .
    then show thesis
      using that by (cases "KeyboardUart_SendRaw F Q (fst r) (snd r) tx") auto
  qed
  have len: "unat (snd r) = length (fst r)"
    using diag_frame_len(1) [of s] diag_frame_len(2) by (simp add: r_def)
  obtain n where n: "send_raw_from F Q (fst r) 0 tx = Some (n, tx')" and sent: "sent = of_nat n"
    using send len by (auto simp: KeyboardUart_SendRaw_def)
  have le: "n \<le> length (fst r)" and thr: "thr tx' = thr tx @ take n (fst r)"
    using send_raw_thr [OF n] by simp_all
  have "unat sent = n" using le len sent unat_lt_u8 [of "snd r"] by (simp add: unat_of_nat)
  then have "sent = snd r \<longleftrightarrow> n = length (fst r)" using len by (metis word_unat_eq_iff)
  also have "\<dots> \<longleftrightarrow> thr tx' = thr tx @ fst r"
    using le by (auto simp: thr)
  finally have all: "sent = snd r \<longleftrightarrow> thr tx' = thr tx @ fst r" .
  have "DiagDump_Zero rf d = d" if "rf = 2" using that by (simp add: DiagDump_Zero_def RF_STATE_CONNECTED_BYTE_def)
  moreover have "fst r = fst (DiagFrame_Format s)" if "rf \<noteq> 2" using that by (simp add: r_def)
  ultimately show ?thesis
    unfolding d' all s_def [symmetric] by (cases "rf = 2") simp_all
qed

theorem diag_dump_thaw_witness:
  "map_option (\<lambda>(d, tx). pwr_forensics_frozen d)
     (DiagDump_Send 8 32768 2 \<lparr>diag_live = undefined, pwr_forensics_frozen = True\<rparr>
        \<lparr>thr = [], tfc_reads = [0, 0, 0], rtc_reads = []\<rparr>) = Some True"
proof -
  let ?d = "\<lparr>diag_live = undefined, pwr_forensics_frozen = True\<rparr>"
  let ?tx = "\<lparr>thr = [], tfc_reads = [0, 0, 0], rtc_reads = []\<rparr>"
  have run: "DiagDump_Send 8 32768 2 ?d ?tx = Some (?d, \<lparr>thr = [0x5D, 0, 0x5D], tfc_reads = [], rtc_reads = []\<rparr>)"
    by (simp add: DiagDump_Send_def RF_STATE_CONNECTED_BYTE_def DiagFrame_FormatEmpty_def finish_eq
        DIAG_FRAME_HEADER_def KeyboardUart_SendRaw_def uart_send_byte_def)
  show ?thesis using diag_dump_thaw [OF run] run by simp
qed

end
