(* ===== verification/Rf_Hop.thy ===== *)
theory Rf_Hop
  imports Rtc_Time
begin

text \<open>
  The connected-mode hop of \<^verbatim>\<open>firmware/src/rf_task.c\<close>: the phase servo that the receive interrupt runs on
  every caught poll (\<open>hop_servo\<close>, in the shipped form and in the earlier form the build can still
  select), and the critical section of \<open>RF_ConnectedTick\<close> that advances the listen channel by elapsed
  RTC time.  The lemmas give the servo in closed form and show that the channel index counts elapsed
  connection intervals.
\<close>

section \<open>State and operations\<close>

record hop_t =
  prev_data_idx :: u8
  hop_anchor :: u32
  since_rx :: u16
  provisional :: bool

definition SERVO_DEADBAND :: int where "SERVO_DEADBAND = 1"
definition NUM_DATA_CHANNELS :: u32 where "NUM_DATA_CHANNELS = 5"
definition data_channels :: "u8 list" where "data_channels = [4, 13, 20, 28, 33]"
definition RF_HOP_MAX_STEP :: u32 where "RF_HOP_MAX_STEP = NUM_DATA_CHANNELS"
definition RF_POLL_BACKDATE_BASE :: u32 where "RF_POLL_BACKDATE_BASE = 12"
definition RF_HOP_ANCHOR_BACKDATE :: u32 where "RF_HOP_ANCHOR_BACKDATE = RF_POLL_BACKDATE_BASE + 1"
definition RF_HOP_DESYNC_INTERVALS :: u32 where "RF_HOP_DESYNC_INTERVALS = 64"

text \<open>The servo on the anchor, as shipped (\<open>LINK_LOCK_SERVO_FIX\<close> is 1) and before.\<close>

definition hop_servo :: "u32 \<Rightarrow> u32 \<Rightarrow> u32" where
  "hop_servo ref anchor =
     (let err = rtc_signed_delta_32k ref anchor in
      if SERVO_DEADBAND < err then rtc_add_32k anchor 1
      else if err < - SERVO_DEADBAND then rtc_backdate_32k anchor 1
      else anchor)"

definition hop_servo_old :: "u32 \<Rightarrow> u32 \<Rightarrow> u32" where
  "hop_servo_old ref a =
     (let fwd = rtc_delta_32k ref a; bwd = RTC32K_WRAP - fwd in
      if fwd = 0 then a
      else if fwd \<le> bwd then rtc_add_32k a 1
      else rtc_backdate_32k a 1)"

text \<open>
  The critical section of \<open>RF_ConnectedTick\<close>: from the reading \<open>now\<close> to the new hop state and
  whether the receiver has to be re-armed.
\<close>

definition hop_advance :: "u16 \<Rightarrow> u32 \<Rightarrow> hop_t \<Rightarrow> hop_t \<times> bool" where
  "hop_advance interval now h =
     (let elapsed = rtc_delta_32k now (hop_anchor h); iv = ucast interval in
      if provisional h then
        (if iv < elapsed then (h\<lparr>hop_anchor := rtc_add_32k (hop_anchor h) iv\<rparr>, True) else (h, False))
      else if iv * RF_HOP_DESYNC_INTERVALS < elapsed then
        (h\<lparr>hop_anchor := rtc_backdate_32k now RF_HOP_ANCHOR_BACKDATE\<rparr>, True)
      else if iv < elapsed then
        (let step = elapsed div iv;
             step = (if RF_HOP_MAX_STEP < step then RF_HOP_MAX_STEP else step);
             anchor = rtc_add_32k (hop_anchor h) (iv * step);
             idx = ucast ((ucast (prev_data_idx h) + step) mod NUM_DATA_CHANNELS);
             anchor = (if step = 1 \<and> since_rx h = 1 then rtc_backdate_32k anchor 1 else anchor);
             since = (if since_rx h < 0xffff then since_rx h + 1 else since_rx h)
         in (h\<lparr>hop_anchor := anchor, prev_data_idx := idx, since_rx := since\<rparr>, True))
      else (h, False))"

fun hop_run :: "u16 \<Rightarrow> hop_t \<Rightarrow> u32 list \<Rightarrow> hop_t" where
  "hop_run interval h [] = h"
| "hop_run interval h (now # nows) = hop_run interval (fst (hop_advance interval now h)) nows"

section \<open>The servo\<close>

lemma servo_less: "a < RTC32K_WRAP \<Longrightarrow> hop_servo ref a < RTC32K_WRAP"
  by (simp add: hop_servo_def Let_def rtc_add_less rtc_backdate_less word_le_nat_alt)

lemma servo_error:
  assumes "a < RTC32K_WRAP" and "ref < RTC32K_WRAP"
  shows "rtc_signed_delta_32k ref (hop_servo ref a) =
     (let d = rtc_signed_delta_32k ref a in if 1 < d then d - 1 else if d < - 1 then d + 1 else d)"
proof -
  let ?d = "rtc_dist a ref"
  have lt: "?d < WRAP_nat" by (rule rtc_dist_less)
  have b: "rtc_backdate_32k a 1 < RTC32K_WRAP" using assms(1) by (simp add: rtc_backdate_less word_le_nat_alt)
  show ?thesis
    using assms lt b rtc_dist_add_one [OF assms] rtc_dist_back_one [OF assms]
    by (auto simp: hop_servo_def SERVO_DEADBAND_def Let_def rtc_signed_delta_spec rtc_add_less)
qed

lemma servo_errors:
  assumes "a < RTC32K_WRAP" and "ref < RTC32K_WRAP"
  shows "(hop_servo ref ^^ n) a < RTC32K_WRAP \<and>
    rtc_signed_delta_32k ref ((hop_servo ref ^^ n) a) =
     (let d = rtc_signed_delta_32k ref a in
      if 1 < d then max 1 (d - int n) else if d < - 1 then min (- 1) (d + int n) else d)"
proof (induction n)
  case 0
  show ?case using assms(1) by (simp add: Let_def)
next
  case (Suc n)
  then show ?case
    using servo_error [of "(hop_servo ref ^^ n) a" ref] assms(2) servo_less
    by (auto simp: Let_def)
qed

lemma servo_old_stuck:
  assumes "ref < a" and "unat a - unat ref \<le> 1024"
  shows "hop_servo_old ref a = a"
proof -
  have "a - ref \<le> 1024" using assms by (simp add: word_le_nat_alt unat_sub_le [OF order_less_imp_le [OF assms(1)]])
  moreover have "\<not> a \<le> ref" using assms(1) by (simp only: not_le)
  ultimately have "rtc_delta_32k ref a = 0"
    by (simp only: rtc_delta_32k_def RTC32K_BACKSTEP_TOLERANCE_def if_False if_True)
  then show ?thesis by (simp add: hop_servo_old_def)
qed

section \<open>Properties of the servo\<close>

text \<open>
  C28: The phase servo locks the hop anchor to the poll grid from either side: with the reference held
  at \<open>ref\<close>, \<open>n\<close> caught polls move a phase error \<open>d\<close> (the shortest signed distance around the RTC
  modulus) exactly \<open>n\<close> ticks towards zero, down to the dead band of one tick, and never past it.
\<close>

theorem hop_servo_locks:
  assumes "a < RTC32K_WRAP" and "ref < RTC32K_WRAP"
  shows "rtc_signed_delta_32k ref ((hop_servo ref ^^ n) a) =
     (let d = rtc_signed_delta_32k ref a in
      if 1 < d then max 1 (d - int n) else if d < - 1 then min (- 1) (d + int n) else d)"
  using servo_errors [OF assms] by simp

theorem hop_servo_locks_witness:
  "rtc_signed_delta_32k 0xa8bffffe ((hop_servo 0xa8bffffe ^^ 10) 5) = - 1"
  using hop_servo_locks [of 5 "0xa8bffffe" 10]
  by (simp add: RTC32K_WRAP_def rtc_signed_delta_32k_def Let_def)

text \<open>
  What the servo fix repaired: while the anchor is 2 to 1024 ticks ahead of the reference (and no
  wrap lies between them), the earlier servo never moves it, however many polls are caught, while
  the shipped one brings it to one tick ahead.
\<close>

theorem hop_servo_fix:
  assumes "ref < a" and "a < RTC32K_WRAP" and "2 \<le> unat a - unat ref" and "unat a - unat ref \<le> 1024"
  shows "(hop_servo_old ref ^^ n) a = a \<and>
    rtc_signed_delta_32k ref ((hop_servo ref ^^ 1023) a) = - 1"
proof
  show "(hop_servo_old ref ^^ n) a = a"
    using servo_old_stuck [OF assms(1,4)] by (induction n) simp_all
next
  have lt: "unat ref < unat a" "unat a < WRAP_nat" using assms(1,2) by (simp_all add: word_less_nat_alt)
  then have ref: "ref < RTC32K_WRAP" by (simp add: less_WRAP_iff)
  have "rtc_dist a ref = WRAP_nat - unat a + unat ref" by (rule rtc_dist_gt [OF assms(1,2)])
  then have "\<not> rtc_dist a ref \<le> 1415577600" and "int (rtc_dist a ref) - 2831155200 = int (unat ref) - int (unat a)"
    using lt assms(4) by linarith+
  then have "rtc_signed_delta_32k ref a = int (unat ref) - int (unat a)"
    by (simp only: rtc_signed_delta_spec [OF assms(2) ref] if_False)
  then have "rtc_signed_delta_32k ref a \<le> - 2" "- 1024 \<le> rtc_signed_delta_32k ref a"
    using lt assms(3,4) by linarith+
  then show "rtc_signed_delta_32k ref ((hop_servo ref ^^ 1023) a) = - 1"
    using servo_errors [OF assms(2) ref, of 1023] by (simp add: Let_def)
qed

theorem hop_servo_fix_witness:
  "(hop_servo_old 100 ^^ 7) 110 = 110 \<and> rtc_signed_delta_32k 100 ((hop_servo 100 ^^ 1023) 110) = - 1"
  by (rule hop_servo_fix) (simp_all add: RTC32K_WRAP_def)

section \<open>The hop over true time\<close>

text \<open>Times are natural numbers of RTC ticks; the counter shows them modulo its wrap.\<close>

abbreviation rtc_at :: "nat \<Rightarrow> u32" where "rtc_at \<equiv> rtc_raw WRAP_nat"

lemma unat_rtc_at: "unat (rtc_at t) = t mod WRAP_nat"
  by (simp add: unat_rtc_raw)

lemma rtc_at_less: "rtc_at t < RTC32K_WRAP"
  by (simp add: less_WRAP_iff unat_rtc_at)

lemma rtc_dist_at:
  assumes "a \<le> t" and "t - a < WRAP_nat"
  shows "rtc_dist (rtc_at a) (rtc_at t) = t - a"
proof -
  have "int (rtc_dist (rtc_at a) (rtc_at t)) = (int t - int a) mod 2831155200"
    using int_rtc_dist [OF rtc_at_less, of a "rtc_at t"]
    by (simp add: uint_nat unat_rtc_at zmod_int mod_diff_eq)
  also have "\<dots> = int t - int a" using assms by (intro mod_pos_pos_trivial) auto
  finally show ?thesis using assms(1) by linarith
qed

lemma rtc_delta_at:
  assumes "a \<le> t" and "t - a < WRAP_nat - 1024"
  shows "unat (rtc_delta_32k (rtc_at t) (rtc_at a)) = t - a"
proof -
  have d: "rtc_dist (rtc_at a) (rtc_at t) = t - a" using assms by (intro rtc_dist_at) auto
  have "\<not> (rtc_at t < rtc_at a \<and> unat (rtc_at a) - unat (rtc_at t) \<le> 1024)"
  proof
    assume c: "rtc_at t < rtc_at a \<and> unat (rtc_at a) - unat (rtc_at t) \<le> 1024"
    then have "rtc_dist (rtc_at a) (rtc_at t) = WRAP_nat - unat (rtc_at a) + unat (rtc_at t)"
      by (intro rtc_dist_gt) (simp_all add: rtc_at_less)
    moreover have "unat (rtc_at a) < WRAP_nat" by (simp add: unat_rtc_at)
    moreover have "unat (rtc_at t) < unat (rtc_at a)" using c by (simp add: word_less_nat_alt)
    ultimately show False using c d assms(2) by linarith
  qed
  then show ?thesis using d by (simp only: rtc_delta_spec [OF rtc_at_less rtc_at_less] if_False)
qed

lemma rtc_add_at:
  assumes "n < 1463812096"
  shows "rtc_add_32k (rtc_at a) (of_nat n) = rtc_at (a + n)"
proof -
  have n: "unat (of_nat n :: u32) = n" using assms by (simp add: unat_of_nat)
  have "unat (rtc_at a) < WRAP_nat" by (simp add: unat_rtc_at)
  then have "unat (rtc_add_32k (rtc_at a) (of_nat n)) = (a mod WRAP_nat + n) mod WRAP_nat"
    using assms by (simp only: unat_rtc_add n) (simp add: unat_rtc_add n unat_rtc_at)
  also have "\<dots> = unat (rtc_at (a + n))" by (simp add: unat_rtc_at mod_add_left_eq)
  finally show ?thesis by (simp only: word_unat_eq_iff)
qed

lemma rtc_back_at:
  assumes "n \<le> a" and "n \<le> WRAP_nat"
  shows "rtc_backdate_32k (rtc_at a) (of_nat n) = rtc_at (a - n)"
proof -
  have n: "unat (of_nat n :: u32) = n" using assms by (simp add: unat_of_nat)
  have "unat (rtc_backdate_32k (rtc_at a) (of_nat n)) = (a mod WRAP_nat + WRAP_nat - n) mod WRAP_nat"
    using assms(2) by (subst unat_rtc_backdate) (simp_all add: rtc_at_less word_le_nat_alt n unat_rtc_at)
  also have "\<dots> = (a - n) mod WRAP_nat"
  proof -
    have "a - n + WRAP_nat = a div WRAP_nat * WRAP_nat + (a mod WRAP_nat + WRAP_nat - n)"
      using assms div_mult_mod_eq [of a WRAP_nat] by linarith
    then have "(a - n + WRAP_nat) mod WRAP_nat = (a mod WRAP_nat + WRAP_nat - n) mod WRAP_nat"
      by (simp only: mod_mult_self3)
    then show ?thesis by simp
  qed
  also have "\<dots> = unat (rtc_at (a - n))" by (simp add: unat_rtc_at)
  finally show ?thesis by (simp only: word_unat_eq_iff)
qed

text \<open>
  One pass of the advance while tracking, for an elapsed time of at most 64 intervals: the index moves
  by the slots counted, the anchor by as many intervals, less the one-tick rollback.
\<close>

lemma iv_facts:
  assumes "20 \<le> unat (iv :: u16)" and "unat iv \<le> 40"
  shows "unat (ucast iv :: u32) = unat iv" and "unat ((ucast iv :: u32) * 64) = unat iv * 64"
    and "k \<le> 64 \<Longrightarrow> unat ((ucast iv :: u32) * of_nat k) = unat iv * k"
proof -
  show u: "unat (ucast iv :: u32) = unat iv"
    using assms by (simp add: unsigned_ucast_eq take_bit_eq_mod)
  show k: "unat ((ucast iv :: u32) * of_nat k) = unat iv * k" if "k \<le> 64" for k
  proof -
    have "unat iv * k \<le> 40 * 64" using assms(2) that by (intro mult_le_mono)
    then show ?thesis using that by (simp add: unat_word_ariths u unat_of_nat)
  qed
  show "unat ((ucast iv :: u32) * 64) = unat iv * 64" using k [of 64] by simp
qed

lemma idx_step:
  assumes "k \<le> 5"
  shows "(ucast ((ucast (x :: u8) + of_nat k :: u32) mod 5) :: u8) = of_nat ((unat x + k) mod 5)"
proof -
  have "unat (ucast x :: u32) = unat x"
    using unat_lt_u8 [of x] by (simp add: unsigned_ucast_eq take_bit_eq_mod)
  then have "unat ((ucast x + of_nat k :: u32) mod 5) = (unat x + k) mod 5"
    using unat_lt_u8 [of x] assms by (simp add: unat_mod unat_add_u32 unat_of_nat)
  then have e: "(ucast x + of_nat k :: u32) mod 5 = of_nat ((unat x + k) mod 5)"
    by (rule u32_of_nat_eq)
  have m: "(unat x + k) mod 5 < 5" by simp
  have u: "unat (ucast (of_nat ((unat x + k) mod 5) :: u32) :: u8) = unat (of_nat ((unat x + k) mod 5) :: u8)"
    using m by (simp only: unsigned_ucast_eq unat_of_nat take_bit_eq_mod) simp
  show ?thesis unfolding e by (rule iffD2 [OF word_unat_eq_iff u])
qed

definition hop_slots :: "nat \<Rightarrow> nat \<Rightarrow> nat" where
  "hop_slots i e = (if i < e then min 5 (e div i) else 0)"

lemma advance_tracking:
  assumes "\<not> provisional h" and "hop_anchor h = rtc_at a" and "a \<le> t" and "t - a \<le> 64 * unat iv"
    and iv: "20 \<le> unat iv" "unat iv \<le> 40"
  defines "n \<equiv> hop_slots (unat iv) (t - a)"
  defines "r \<equiv> (if n = 1 \<and> since_rx h = 1 then 1 else 0 :: nat)"
  shows "fst (hop_advance iv (rtc_at t) h) =
    h\<lparr>hop_anchor := rtc_at (a + unat iv * n - r),
      prev_data_idx := (if n = 0 then prev_data_idx h else of_nat ((unat (prev_data_idx h) + n) mod 5)),
      since_rx := (if n = 0 then since_rx h else if since_rx h < 0xffff then since_rx h + 1 else since_rx h)\<rparr>"
proof -
  let ?e = "rtc_delta_32k (rtc_at t) (rtc_at a)" and ?iv = "ucast iv :: u32"
  have "64 * unat iv \<le> 2560" using iv by simp
  then have e: "unat ?e = t - a" using assms(3,4) by (intro rtc_delta_at) auto
  note u = iv_facts [OF iv]
  have le64: "\<not> ?iv * 64 < ?e" using assms(4) by (simp add: word_less_nat_alt e u)
  have lt: "?iv < ?e \<longleftrightarrow> unat iv < t - a" by (simp add: word_less_nat_alt e u)
  show ?thesis
  proof (cases "unat iv < t - a")
    case False
    then show ?thesis
      using assms(1,2) le64 lt
      by (simp add: hop_advance_def Let_def RF_HOP_DESYNC_INTERVALS_def n_def hop_slots_def r_def)
  next
    case True
    define st where "st = (if 5 < ?e div ?iv then 5 else ?e div ?iv)"
    have "unat (?e div ?iv) = (t - a) div unat iv" by (simp add: unat_div e u)
    then have ust: "unat st = n" using True by (auto simp: st_def n_def hop_slots_def word_less_nat_alt)
    then have st: "st = of_nat n" by (rule u32_of_nat_eq)
    have n5: "n \<le> 5" "n \<noteq> 0"
      using True iv by (auto simp: n_def hop_slots_def div_greater_zero_iff)
    have "st = 1 \<longleftrightarrow> n = 1" using ust by (metis unat_1 word_unat_eq_iff)
    moreover have "rtc_add_32k (rtc_at a) (?iv * st) = rtc_at (a + unat iv * n)"
    proof -
      have "unat (?iv * of_nat n) = unat iv * n" using n5 by (intro u(3)) simp
      then have "?iv * st = of_nat (unat iv * n)" unfolding st by (rule u32_of_nat_eq)
      moreover have "unat iv * n \<le> 40 * 5" using iv n5 by (intro mult_le_mono)
      ultimately show ?thesis by (simp only: rtc_add_at)
    qed
    moreover have "unat iv * n \<noteq> 0" using n5 iv by simp
    then have "1 \<le> a + unat iv * n" by linarith
    then have "rtc_backdate_32k (rtc_at (a + unat iv * n)) 1 = rtc_at (a + unat iv * n - 1)"
      using rtc_back_at [of 1 "a + unat iv * n"] by simp
    moreover have "ucast ((ucast (prev_data_idx h) + st) mod 5) = (of_nat ((unat (prev_data_idx h) + n) mod 5) :: u8)"
      unfolding st by (rule idx_step [OF n5(1)])
    moreover have "hop_advance iv (rtc_at t) h =
       (let anchor = rtc_add_32k (rtc_at a) (?iv * st);
             idx = ucast ((ucast (prev_data_idx h) + st) mod 5);
             anchor = (if st = 1 \<and> since_rx h = 1 then rtc_backdate_32k anchor 1 else anchor);
             since = (if since_rx h < 0xffff then since_rx h + 1 else since_rx h)
         in (h\<lparr>hop_anchor := anchor, prev_data_idx := idx, since_rx := since\<rparr>, True))"
      using assms(1,2) le64 lt True
      by (simp only: hop_advance_def Let_def RF_HOP_DESYNC_INTERVALS_def RF_HOP_MAX_STEP_def
          NUM_DATA_CHANNELS_def st_def if_False if_True)
    ultimately show ?thesis using n5 by (cases "n = 1") (simp_all add: Let_def r_def)
  qed
qed

section \<open>Properties of the hop\<close>

text \<open>The times of a run: none goes back, and consecutive ones are less than five intervals apart.\<close>

fun hop_times :: "nat \<Rightarrow> nat \<Rightarrow> nat list \<Rightarrow> bool" where
  "hop_times i t [] = True"
| "hop_times i t (u # us) = (t \<le> u \<and> u < t + 5 * i \<and> hop_times i u us)"

text \<open>One tick keeps the hop in phase: what the anchor and the index say after it.\<close>

definition hop_phase :: "nat \<Rightarrow> nat \<Rightarrow> nat \<Rightarrow> nat \<Rightarrow> nat \<Rightarrow> nat \<Rightarrow> hop_t \<Rightarrow> bool" where
  "hop_phase i a0 i0 n r t h \<longleftrightarrow>
     \<not> provisional h \<and> r \<le> 1 \<and> r \<le> a0 + i * n \<and> hop_anchor h = rtc_at (a0 + i * n - r)
     \<and> prev_data_idx h = of_nat ((i0 + n) mod 5)
     \<and> (unat (since_rx h) \<le> 1 \<longrightarrow> r = 0)
     \<and> a0 + i * n - r \<le> t \<and> t \<le> a0 + i * n - r + i"

lemma hop_slots_bounds:
  assumes "20 \<le> i" and "e < 6 * i"
  shows "i * hop_slots i e \<le> e" and "e \<le> i * hop_slots i e + i"
    and "hop_slots i e \<noteq> 0 \<Longrightarrow> e < i * hop_slots i e + i"
proof -
  have "e div i < 6" using assms by (simp add: div_less_iff_less_mult)
  then have m: "min 5 (e div i) = e div i" by simp
  have "i * (e div i) + e mod i = e" "e mod i < i" using assms(1) by simp_all
  then have "i * (e div i) \<le> e" "e \<le> i * (e div i) + i" by linarith+
  then show "i * hop_slots i e \<le> e" "e \<le> i * hop_slots i e + i"
    by (simp_all add: hop_slots_def m)
  have "e < i * (e div i) + i" using \<open>i * (e div i) + e mod i = e\<close> \<open>e mod i < i\<close> by linarith
  then show "hop_slots i e \<noteq> 0 \<Longrightarrow> e < i * hop_slots i e + i"
    by (simp add: hop_slots_def m split: if_splits)
qed

lemma hop_phase_step:
  assumes h: "hop_phase (unat iv) a0 i0 n r t h" and iv: "20 \<le> unat iv" "unat iv \<le> 40"
    and t: "t \<le> u" "u < t + 5 * unat iv"
  shows "\<exists>n' r'. n \<le> n' \<and> hop_phase (unat iv) a0 i0 n' r' u (fst (hop_advance iv (rtc_at u) h))"
proof -
  define i where "i = unat iv"
  define a where "a = a0 + i * n - r"
  define k where "k = hop_slots i (u - a)"
  define d where "d = (if k = 1 \<and> since_rx h = 1 then 1 else 0 :: nat)"
  have h': "\<not> provisional h" "r \<le> 1" "r \<le> a0 + i * n" "hop_anchor h = rtc_at a"
    "prev_data_idx h = of_nat ((i0 + n) mod 5)" "unat (since_rx h) \<le> 1 \<Longrightarrow> r = 0" "a \<le> t" "t \<le> a + i"
    using h by (auto simp: hop_phase_def i_def a_def)
  have e: "a \<le> u" "u - a < 6 * i" using h'(7,8) t by (auto simp: i_def)
  have b: "i * k \<le> u - a" "u - a \<le> i * k + i" "k \<noteq> 0 \<Longrightarrow> u - a < i * k + i"
    using hop_slots_bounds [OF iv(1) e(2) [unfolded i_def]] by (simp_all add: k_def i_def)
  have adv: "fst (hop_advance iv (rtc_at u) h) =
    h\<lparr>hop_anchor := rtc_at (a + i * k - d),
      prev_data_idx := (if k = 0 then prev_data_idx h else of_nat ((unat (prev_data_idx h) + k) mod 5)),
      since_rx := (if k = 0 then since_rx h else if since_rx h < 0xffff then since_rx h + 1 else since_rx h)\<rparr>"
    using advance_tracking [OF h'(1,4) e(1) _ iv] e(2) iv unfolding d_def k_def i_def by simp
  have d: "d \<noteq> 0 \<Longrightarrow> since_rx h = 1 \<and> k = 1" by (simp add: d_def split: if_splits)
  then have rd: "d \<noteq> 0 \<Longrightarrow> r = 0" using h'(6) by auto
  have "d \<le> 1" by (simp add: d_def)
  have idx: "(if k = 0 then prev_data_idx h else of_nat ((unat (prev_data_idx h) + k) mod 5))
      = (of_nat ((i0 + (n + k)) mod 5) :: u8)"
  proof -
    have "(i0 + n) mod 5 < 256" by (rule less_trans [OF mod_less_divisor]) simp_all
    then have "unat (prev_data_idx h) = (i0 + n) mod 5" by (simp add: h'(5) unat_of_nat)
    then show ?thesis by (simp add: h'(5) mod_add_left_eq add.assoc)
  qed
  have since: "r + d = 0" if "unat (if k = 0 then since_rx h
      else if since_rx h < 0xffff then since_rx h + 1 else since_rx h) \<le> 1"
  proof (cases "k = 0")
    case True
    with that show ?thesis using h'(6) d by auto
  next
    case False
    have "since_rx h < 0xffff" using that False by (auto simp: word_less_nat_alt split: if_splits)
    then have "unat (since_rx h + 1) = unat (since_rx h) + 1"
      by (simp add: unat_word_ariths word_less_nat_alt)
    with that False \<open>since_rx h < 0xffff\<close> have "unat (since_rx h) = 0" by simp
    moreover from this have "since_rx h \<noteq> 1" by auto
    ultimately show ?thesis using h'(6) d by auto
  qed
  have dk: "d \<le> i * k" using d iv(1) \<open>d \<le> 1\<close> by (cases "d = 0") (simp_all add: i_def)
  have dist: "i * (n + k) = i * n + i * k" by (rule distrib_left)
  have sum: "a + i * k - d = a0 + i * (n + k) - (r + d)" "r + d \<le> a0 + i * (n + k)"
    using h'(3) dk unfolding dist a_def by linarith+
  have "d \<noteq> 0 \<Longrightarrow> u \<le> a + i * k - d + i"
    using e(1) b(3) d \<open>d \<le> 1\<close> by (cases "k = 0") auto
  then have "a + i * k - d \<le> u" "u \<le> a + i * k - d + i"
    using e(1) b dk by (cases "d = 0"; linarith)+
  moreover have "r + d \<le> 1" using rd h'(2) \<open>d \<le> 1\<close> by (cases "d = 0") auto
  ultimately have "hop_phase i a0 i0 (n + k) (r + d) u (fst (hop_advance iv (rtc_at u) h))"
    unfolding hop_phase_def adv using sum since h'(1)
    by (auto simp: idx)
  then show ?thesis by (metis i_def le_add1)
qed

lemma hop_phase_run:
  assumes iv: "20 \<le> unat iv" "unat iv \<le> 40"
  shows "hop_phase (unat iv) a0 i0 n r t h \<Longrightarrow> hop_times (unat iv) t us \<Longrightarrow>
    \<exists>n' r'. n \<le> n' \<and> hop_phase (unat iv) a0 i0 n' r' (last (t # us)) (hop_run iv h (map rtc_at us))"
proof (induction us arbitrary: n r t h)
  case Nil
  then show ?case by auto
next
  case (Cons u us)
  then have u: "t \<le> u" "u < t + 5 * unat iv" "hop_times (unat iv) u us" by simp_all
  obtain n1 r1 where 1: "n \<le> n1" "hop_phase (unat iv) a0 i0 n1 r1 u (fst (hop_advance iv (rtc_at u) h))"
    using hop_phase_step [OF Cons.prems(1) iv u(1,2)] by blast
  obtain n2 r2 where 2: "n1 \<le> n2"
    "hop_phase (unat iv) a0 i0 n2 r2 (last (u # us)) (hop_run iv (fst (hop_advance iv (rtc_at u) h)) (map rtc_at us))"
    using Cons.IH [OF 1(2) u(3)] by blast
  have "n \<le> n2" using 1(1) 2(1) by (rule le_trans)
  moreover have "hop_phase (unat iv) a0 i0 n2 r2 (last (t # u # us)) (hop_run iv h (map rtc_at (u # us)))"
    using 2(2) by simp
  ultimately show ?case by blast
qed

text \<open>
  C27: While polled often enough the hop follows elapsed time through missed polls: starting in phase at
  anchor time \<open>a0\<close> and channel index \<open>i0\<close>, after any sequence of ticks less than five intervals apart
  (RTC counter wraps included) there is a slot count \<open>n\<close> such that the channel index is \<open>i0 + n\<close> modulo
  five, the anchor is \<open>n\<close> intervals after \<open>a0\<close> less at most one tick of rollback, and the last tick lies
  within one interval of that anchor: no slot is skipped or counted twice.
\<close>

theorem hop_follows_time:
  assumes "20 \<le> unat iv" and "unat iv \<le> 40" and "\<not> provisional h"
    and "hop_anchor h = rtc_at a0" and "prev_data_idx h = of_nat i0" and "i0 < 5"
    and "a0 \<le> t" and "t \<le> a0 + unat iv" and "hop_times (unat iv) t us"
  shows "\<exists>n r. r \<le> 1 \<and> r \<le> a0 + unat iv * n \<and>
     hop_anchor (hop_run iv h (map rtc_at us)) = rtc_at (a0 + unat iv * n - r)
   \<and> prev_data_idx (hop_run iv h (map rtc_at us)) = of_nat ((i0 + n) mod 5)
   \<and> a0 + unat iv * n - r \<le> last (t # us) \<and> last (t # us) \<le> a0 + unat iv * n - r + unat iv"
proof -
  have "hop_phase (unat iv) a0 i0 0 0 t h" using assms by (simp add: hop_phase_def)
  from hop_phase_run [OF assms(1,2) this assms(9)] show ?thesis
    unfolding hop_phase_def by blast
qed

theorem hop_follows_time_witness:
  "\<exists>n r. r \<le> 1 \<and> r \<le> 2831155190 + 28 * n \<and>
     hop_anchor (hop_run 28 \<lparr>prev_data_idx = 4, hop_anchor = 2831155190, since_rx = 0, provisional = False\<rparr>
       [2831155199, 30, 120]) = rtc_at (2831155190 + 28 * n - r)
   \<and> prev_data_idx (hop_run 28 \<lparr>prev_data_idx = 4, hop_anchor = 2831155190, since_rx = 0, provisional = False\<rparr>
       [2831155199, 30, 120]) = of_nat ((4 + n) mod 5)
   \<and> 2831155190 + 28 * n - r \<le> 2831155320 \<and> 2831155320 \<le> 2831155190 + 28 * n - r + 28"
  using hop_follows_time [of 28 "\<lparr>prev_data_idx = 4, hop_anchor = 2831155190, since_rx = 0, provisional = False\<rparr>"
      2831155190 4 2831155195 "[2831155199, 2831155230, 2831155320]"]
  by (simp add: rtc_raw_def)

text \<open>
  A stall: while more than five intervals have passed the step is clamped to one full hop cycle, so the
  channel index does not move and the anchor catches up five intervals per tick.
\<close>

lemma hop_stall_step:
  assumes "\<not> provisional h" and "hop_anchor h = rtc_at a" and "a + 5 * unat iv < t"
    and "t \<le> a + 64 * unat iv" and iv: "20 \<le> unat iv" "unat iv \<le> 40"
    and "prev_data_idx h = of_nat i0" and "i0 < 5"
  shows "hop_anchor (fst (hop_advance iv (rtc_at t) h)) = rtc_at (a + 5 * unat iv)
       \<and> prev_data_idx (fst (hop_advance iv (rtc_at t) h)) = prev_data_idx h
       \<and> \<not> provisional (fst (hop_advance iv (rtc_at t) h))"
proof -
  have "5 \<le> (t - a) div unat iv" using assms(3) iv by (simp add: less_eq_div_iff_mult_less_eq)
  moreover have "unat iv < t - a" using assms(3) by linarith
  ultimately have n: "hop_slots (unat iv) (t - a) = 5" by (simp add: hop_slots_def)
  have i0: "unat (prev_data_idx h) = i0" using assms(7,8) by (simp add: unat_of_nat)
  show ?thesis
    using advance_tracking [OF assms(1,2) _ _ iv, of t] assms(1,3,4,7,8) i0
    by (simp add: n mult.commute)
qed

text \<open>
  The hop recovers from a stalled main loop without slipping: with the anchor up to 64 intervals
  behind, each tick moves it five intervals and leaves the channel index where it was (a whole hop
  cycle), so the index still agrees with the slots counted when the anchor has caught up.
\<close>

theorem hop_stall:
  assumes "20 \<le> unat iv" and "unat iv \<le> 40" and "i0 < 5" and "\<not> provisional h"
    and "prev_data_idx h = of_nat i0" and "hop_anchor h = rtc_at a"
    and "a + 5 * m * unat iv < t" and "t \<le> a + 64 * unat iv"
  shows "hop_anchor (((\<lambda>h. fst (hop_advance iv (rtc_at t) h)) ^^ m) h) = rtc_at (a + 5 * m * unat iv)
       \<and> prev_data_idx (((\<lambda>h. fst (hop_advance iv (rtc_at t) h)) ^^ m) h) = of_nat i0"
proof -
  let ?h = "\<lambda>m. ((\<lambda>h. fst (hop_advance iv (rtc_at t) h)) ^^ m) h"
  have "\<not> provisional (?h m) \<and> prev_data_idx (?h m) = of_nat i0 \<and> hop_anchor (?h m) = rtc_at (a + 5 * m * unat iv)"
    using assms(7)
  proof (induction m)
    case (Suc m)
    then have IH: "\<not> provisional (?h m)" "prev_data_idx (?h m) = of_nat i0"
      "hop_anchor (?h m) = rtc_at (a + 5 * m * unat iv)"
      by (simp_all add: algebra_simps)
    have "a + 5 * m * unat iv + 5 * unat iv < t" using Suc.prems by (simp add: algebra_simps)
    moreover have "t \<le> a + 5 * m * unat iv + 64 * unat iv" using assms(8) by linarith
    ultimately show ?case
      using hop_stall_step [OF IH(1,3) _ _ assms(1,2) IH(2) assms(3)] IH(2)
      by (simp add: algebra_simps)
  qed (simp add: assms(4-6))
  then show ?thesis by simp
qed

theorem hop_stall_witness:
  "prev_data_idx (((\<lambda>h. fst (hop_advance 28 (rtc_at 2000) h)) ^^ 7)
     \<lparr>prev_data_idx = 3, hop_anchor = rtc_at 1000, since_rx = 9, provisional = False\<rparr>) = 3"
  using hop_stall [of 28 3 "\<lparr>prev_data_idx = 3, hop_anchor = rtc_at 1000, since_rx = 9, provisional = False\<rparr>" 1000 7 2000]
  by simp

end
