(* ===== verification/Hid_Fifo.thy ===== *)
theory Hid_Fifo
  imports Bounded_Queue "HOL-Library.Sublist"
begin

text \<open>
  The HID report FIFO of \<^verbatim>\<open>firmware/src/rf_task.c\<close>: sixteen slots between the UART frame callback,
  which enqueues every transition, and the RF receive interrupt, which retires the head when the
  dongle's control bit acknowledges it.  The ring is an instance of the coalescing queue: when it is
  full the newest entry is overwritten.  The lemmas follow the reports from arrival to their
  acknowledgement or discard.
\<close>

section \<open>State and operations\<close>

text \<open>A report is the list of its eight bytes; the eight-byte copy loops of the C code store it as
  one value.\<close>

definition HID_FIFO_SLOTS :: nat where "HID_FIFO_SLOTS = 16"

record hid_t =
  hid_fifo :: "u8 list list"
  hid_fifo_head :: u8
  hid_fifo_tail :: u8
  hid_head_sent :: bool
  hid_last_queued :: "u8 list"
  hid_last_queued_valid :: bool

definition hid_init :: hid_t where
  "hid_init = \<lparr>hid_fifo = replicate HID_FIFO_SLOTS (replicate 8 0), hid_fifo_head = 0, hid_fifo_tail = 0,
     hid_head_sent = False, hid_last_queued = replicate 8 0, hid_last_queued_valid = False\<rparr>"

text \<open>A report with any bit set: a key or modifier is down.\<close>

definition report_down :: "u8 list \<Rightarrow> bool" where
  "report_down r \<longleftrightarrow> (r ! 0 OR r ! 1 OR r ! 2 OR r ! 3 OR r ! 4 OR r ! 5 OR r ! 6 OR r ! 7) \<noteq> 0"

definition hid_key_held :: "hid_t \<Rightarrow> bool" where
  "hid_key_held h \<longleftrightarrow> hid_last_queued_valid h \<and> report_down (hid_last_queued h)"

definition rf_discard_hid_queue :: "hid_t \<Rightarrow> hid_t" where
  "rf_discard_hid_queue h = h\<lparr>hid_fifo_head := hid_fifo_tail h, hid_head_sent := False\<rparr>"

text \<open>The enqueue of a changed report in \<open>RF_QueueHIDReport\<close>: append, or overwrite the newest.\<close>

definition hid_push :: "u8 list \<Rightarrow> hid_t \<Rightarrow> hid_t" where
  "hid_push report h =
     (let h1 =
        (if unat (hid_fifo_tail h - hid_fifo_head h) < HID_FIFO_SLOTS then
           h\<lparr>hid_fifo := (hid_fifo h)[unat (hid_fifo_tail h AND 15) := report],
             hid_fifo_tail := hid_fifo_tail h + 1\<rparr>
         else
           h\<lparr>hid_fifo := (hid_fifo h)[unat ((hid_fifo_tail h - 1) AND 15) := report]\<rparr>)
      in h1\<lparr>hid_last_queued := report, hid_last_queued_valid := True\<rparr>)"

definition hid_changed :: "u8 list \<Rightarrow> hid_t \<Rightarrow> bool" where
  "hid_changed report h \<longleftrightarrow>
     \<not> hid_last_queued_valid h \<or> list_ex (\<lambda>i. hid_last_queued h ! i \<noteq> report ! i) [0..<8]"

definition hid_queue :: "u8 list \<Rightarrow> hid_t \<Rightarrow> hid_t" where
  "hid_queue report h = (if hid_changed report h then hid_push report h else h)"

definition hid_pop :: "hid_t \<Rightarrow> hid_t" where
  "hid_pop h = h\<lparr>hid_fifo_head := hid_fifo_head h + 1\<rparr>"

text \<open>The dongle's control bit advanced: the acknowledgement in the receive interrupt.\<close>

definition hid_ack :: "hid_t \<Rightarrow> hid_t" where
  "hid_ack h =
     (if hid_head_sent h then
        (let h1 = h\<lparr>hid_head_sent := False\<rparr> in
         if hid_fifo_tail h1 \<noteq> hid_fifo_head h1 then hid_pop h1 else h1)
      else h)"

text \<open>The head as the response transmission selects it; \<open>None\<close> when the queue is empty.\<close>

definition hid_select :: "hid_t \<Rightarrow> u8 list option" where
  "hid_select h =
     (if hid_fifo_tail h - hid_fifo_head h \<noteq> 0
      then Some (hid_fifo h ! unat (hid_fifo_head h AND 15)) else None)"

section \<open>The ring is a coalescing queue\<close>

definition hid_items :: "hid_t \<Rightarrow> u8 list list" where
  "hid_items h = ring_items 16 (hid_fifo h) (hid_fifo_head h) (hid_fifo_tail h)"

definition hid_wf :: "hid_t \<Rightarrow> bool" where
  "hid_wf h \<longleftrightarrow> length (hid_fifo h) = 16 \<and> unat (hid_fifo_tail h - hid_fifo_head h) \<le> 16"

lemma length_hid_items: "length (hid_items h) = unat (hid_fifo_tail h - hid_fifo_head h)"
  by (simp add: hid_items_def)

lemma hid_items_empty: "hid_items h = [] \<longleftrightarrow> hid_fifo_tail h = hid_fifo_head h"
  by (simp add: hid_items_def ring_items_empty_iff)

lemma hid_items_frame [simp]:
  "hid_items (h\<lparr>hid_head_sent := a\<rparr>) = hid_items h" "hid_items (h\<lparr>hid_last_queued_valid := b\<rparr>) = hid_items h"
  "hid_items (h\<lparr>hid_last_queued := c\<rparr>) = hid_items h"
  "hid_wf (h\<lparr>hid_head_sent := a\<rparr>) = hid_wf h" "hid_wf (h\<lparr>hid_last_queued_valid := b\<rparr>) = hid_wf h"
  by (simp_all add: hid_items_def hid_wf_def)

lemma hid_items_push:
  assumes "hid_wf h"
  shows "hid_items (hid_push r h) = list_put 16 replace_newest r (hid_items h)"
proof (cases "unat (hid_fifo_tail h - hid_fifo_head h) < 16")
  case True
  then show ?thesis
    using assms
    by (simp add: hid_push_def HID_FIFO_SLOTS_def Let_def list_put_def length_hid_items)
      (simp add: hid_items_def hid_wf_def unat_and_15 ring_push)
next
  case False
  then have "hid_fifo_tail h \<noteq> hid_fifo_head h" by auto
  with False show ?thesis
    using assms
    by (simp add: hid_push_def HID_FIFO_SLOTS_def Let_def list_put_def length_hid_items replace_newest_def)
      (simp add: hid_items_def hid_wf_def unat_and_15 ring_overwrite_newest)
qed

lemma hid_items_pop: "hid_items h \<noteq> [] \<Longrightarrow> hid_items (hid_pop h) = tl (hid_items h)"
  by (simp add: hid_items_empty) (simp add: hid_items_def hid_pop_def ring_pop)

lemma hid_wf_push: "hid_wf h \<Longrightarrow> hid_wf (hid_push r h)"
  using unat_diff_inc_right [of "hid_fifo_tail h" "hid_fifo_head h"]
  by (auto simp: hid_wf_def hid_push_def HID_FIFO_SLOTS_def Let_def)

lemma hid_wf_pop: "hid_wf h \<Longrightarrow> hid_items h \<noteq> [] \<Longrightarrow> hid_wf (hid_pop h)"
  using unat_diff_inc_left [of "hid_fifo_tail h" "hid_fifo_head h"]
  by (auto simp: hid_items_empty hid_wf_def hid_pop_def)

interpretation hidq: coalescing_queue hid_items hid_wf 16 hid_push hid_pop
proof unfold_locales
  fix h assume "hid_wf h"
  then show "length (hid_items h) \<le> 16" by (simp add: length_hid_items hid_wf_def)
qed (simp_all add: replace_newest_def hid_items_push hid_items_pop hid_wf_push hid_wf_pop)

section \<open>Reports and acknowledgements\<close>

text \<open>
  A history of the FIFO: reports from the host, started transmissions of the head, acknowledgements,
  new sessions (nothing is in flight any more), teardowns (the host's keys were released, so the newest
  state is forgotten), and discards (the link was left or unpaired: everything queued is dropped, and the
  newest state is still remembered).  Next to the state runs the log of the reports that left the queue,
  in order, each with what became of it.
\<close>

datatype hid_event = Report "u8 list" | Head_Sent | Acked | New_Session | Teardown | Discard

datatype hid_fate = Acknowledged | Discarded

fun hid_event_step :: "hid_event \<Rightarrow> hid_t \<times> (hid_fate \<times> u8 list) list \<Rightarrow> hid_t \<times> (hid_fate \<times> u8 list) list" where
  "hid_event_step (Report r) (h, out) = (hid_queue r h, out)"
| "hid_event_step Head_Sent (h, out) =
     (if hid_select h = None then h else h\<lparr>hid_head_sent := True\<rparr>, out)"
| "hid_event_step Acked (h, out) =
     (hid_ack h, if hid_head_sent h \<and> hid_items h \<noteq> [] then out @ [(Acknowledged, hd (hid_items h))] else out)"
| "hid_event_step New_Session (h, out) = (h\<lparr>hid_head_sent := False\<rparr>, out)"
| "hid_event_step Teardown (h, out) = (h\<lparr>hid_head_sent := False, hid_last_queued_valid := False\<rparr>, out)"
| "hid_event_step Discard (h, out) = (rf_discard_hid_queue h, out @ map (Pair Discarded) (hid_items h))"

definition hid_run :: "hid_event list \<Rightarrow> hid_t \<times> (hid_fate \<times> u8 list) list" where
  "hid_run es = fold hid_event_step es (hid_init, [])"

lemma hid_run_snoc: "hid_run (es @ [e]) = hid_event_step e (hid_run es)"
  by (simp add: hid_run_def)

fun report_of :: "hid_event \<Rightarrow> u8 list list" where
  "report_of (Report r) = [r]"
| "report_of _ = []"

definition reports :: "hid_event list \<Rightarrow> u8 list list" where
  "reports es = concat (map report_of es)"

lemma reports_snoc [simp]: "reports (es @ [e]) = reports es @ report_of e" "reports [] = []"
  by (simp_all add: reports_def)

lemma hid_changed_eq: "length r = 8 \<Longrightarrow> length (hid_last_queued h) = 8 \<Longrightarrow>
    hid_changed r h \<longleftrightarrow> \<not> hid_last_queued_valid h \<or> hid_last_queued h \<noteq> r"
  by (auto simp: hid_changed_def list_ex_iff list_eq_iff_nth_eq)

lemma hid_push_last [simp]:
  "hid_last_queued (hid_push r h) = r" "hid_last_queued_valid (hid_push r h)"
  "hid_head_sent (hid_push r h) = hid_head_sent h"
  by (simp_all add: hid_push_def Let_def)

lemma hid_ack_frame [simp]:
  "hid_last_queued (hid_ack h) = hid_last_queued h"
  "hid_last_queued_valid (hid_ack h) = hid_last_queued_valid h"
  by (simp_all add: hid_ack_def hid_pop_def Let_def)

lemma hid_items_ack:
  "hid_items (hid_ack h) = (if hid_head_sent h then tl (hid_items h) else hid_items h)"
  using hid_items_pop [of "h\<lparr>hid_head_sent := False\<rparr>"] hid_items_empty [of h]
  by (auto simp: hid_ack_def Let_def)

lemma hid_wf_ack: "hid_wf h \<Longrightarrow> hid_wf (hid_ack h)"
  using hid_wf_pop [of "h\<lparr>hid_head_sent := False\<rparr>"] hid_items_empty [of h]
  by (auto simp: hid_ack_def Let_def)

lemma hid_init_facts: "hid_wf hid_init" "hid_items hid_init = []"
  by (simp_all add: hid_wf_def hid_items_def hid_init_def HID_FIFO_SLOTS_def)

lemma discard_queue [simp]:
  "hid_items (rf_discard_hid_queue h) = []" "hid_wf h \<Longrightarrow> hid_wf (rf_discard_hid_queue h)"
  "hid_last_queued (rf_discard_hid_queue h) = hid_last_queued h"
  "hid_last_queued_valid (rf_discard_hid_queue h) = hid_last_queued_valid h"
  by (simp_all add: rf_discard_hid_queue_def hid_items_empty hid_wf_def)

text \<open>What left the queue, followed by what is in it.\<close>

definition hid_seen :: "hid_t \<times> (hid_fate \<times> u8 list) list \<Rightarrow> u8 list list" where
  "hid_seen s = map snd (snd s) @ hid_items (fst s)"

lemma hid_seen_ack: "hid_seen (hid_event_step Acked (h, out)) = hid_seen (h, out)"
  by (cases "hid_items h") (simp_all add: hid_seen_def hid_items_ack)

lemma hid_seen_discard: "hid_seen (hid_event_step Discard (h, out)) = hid_seen (h, out)"
  by (simp add: hid_seen_def comp_def)

text \<open>The newest state reported is always the last one that left the queue or is still in it.\<close>

definition hid_newest_inv :: "u8 list list \<Rightarrow> hid_t \<times> (hid_fate \<times> u8 list) list \<Rightarrow> bool" where
  "hid_newest_inv rs s \<longleftrightarrow>
     hid_wf (fst s) \<and> length (hid_last_queued (fst s)) = 8
     \<and> (if rs = [] then \<not> hid_last_queued_valid (fst s)
        else hid_seen s \<noteq> [] \<and> last (hid_seen s) = last rs
             \<and> (hid_last_queued_valid (fst s) \<longrightarrow> hid_last_queued (fst s) = last rs))"

lemma hid_newest_step:
  assumes inv: "hid_newest_inv rs (h, out)" and len: "\<And>r. e = Report r \<Longrightarrow> length r = 8"
  shows "hid_newest_inv (rs @ report_of e) (hid_event_step e (h, out))"
proof (cases e)
  case (Report r)
  have wf: "hid_wf h" and l8: "length (hid_last_queued h) = 8" using inv by (simp_all add: hid_newest_inv_def)
  show ?thesis
  proof (cases "hid_changed r h")
    case True
    have "hid_items (hid_push r h) \<noteq> []" and "last (hid_items (hid_push r h)) = r"
      using hidq.put_nonempty [OF wf] hidq.put_newest [OF wf] by simp_all
    with True Report wf len show ?thesis
      by (simp add: hid_newest_inv_def hid_queue_def hid_wf_push hid_seen_def)
  next
    case False
    then have "hid_last_queued_valid h" and "hid_last_queued h = r"
      using hid_changed_eq [OF len [OF Report] l8] by simp_all
    with False Report inv show ?thesis by (auto simp: hid_newest_inv_def hid_queue_def hid_seen_def split: if_splits)
  qed
next
  case Acked
  then show ?thesis
    using inv hid_seen_ack [of h out] by (auto simp: hid_newest_inv_def hid_wf_ack split: if_splits)
next
  case Discard
  then show ?thesis
    using inv hid_seen_discard [of h out] by (auto simp: hid_newest_inv_def split: if_splits)
qed (use inv in \<open>auto simp: hid_newest_inv_def hid_seen_def split: if_splits\<close>)

lemma hid_newest_run:
  "(\<forall>r \<in> set (reports es). length r = 8) \<Longrightarrow> hid_newest_inv (reports es) (hid_run es)"
proof (induction es rule: rev_induct)
  case Nil
  then show ?case
    by (simp add: hid_newest_inv_def hid_run_def hid_init_facts) (simp add: hid_init_def)
next
  case (snoc e es)
  obtain h out where s: "hid_run es = (h, out)" by (cases "hid_run es")
  have "hid_newest_inv (reports es) (h, out)" using snoc s by simp
  moreover have "\<And>r. e = Report r \<Longrightarrow> length r = 8" using snoc.prems by simp
  ultimately show ?case using hid_newest_step [of "reports es" h out e] s by (simp add: hid_run_snoc)
qed

text \<open>The transitions among the reports: those that differ from the newest state, which a teardown
  forgets and a discard does not.\<close>

fun transition_step :: "hid_event \<Rightarrow> u8 list list \<times> u8 list option \<Rightarrow> u8 list list \<times> u8 list option" where
  "transition_step (Report r) (ts, l) = (if l = Some r then (ts, l) else (ts @ [r], Some r))"
| "transition_step Teardown (ts, l) = (ts, None)"
| "transition_step _ (ts, l) = (ts, l)"

definition transitions :: "hid_event list \<Rightarrow> u8 list list" where
  "transitions es = fst (fold transition_step es ([], None))"

text \<open>Whether the queue had room after every step of a history.\<close>

definition never_full :: "hid_event list \<Rightarrow> bool" where
  "never_full es \<longleftrightarrow> list_all (\<lambda>n. length (hid_items (fst (hid_run (take n es)))) < 16) [0..<length es]"

lemma never_full_snoc: "never_full (es @ [e]) \<longleftrightarrow> never_full es \<and> length (hid_items (fst (hid_run es))) < 16"
proof -
  have "list_all (\<lambda>n. length (hid_items (fst (hid_run (take n (es @ [e]))))) < 16) [0..<length es]
      = list_all (\<lambda>n. length (hid_items (fst (hid_run (take n es)))) < 16) [0..<length es]"
    by (rule list.pred_cong) simp_all
  then show ?thesis by (simp add: never_full_def)
qed

definition hid_track_inv :: "bool \<Rightarrow> u8 list list \<times> u8 list option \<Rightarrow> hid_t \<times> (hid_fate \<times> u8 list) list \<Rightarrow> bool" where
  "hid_track_inv room t s \<longleftrightarrow>
     hid_wf (fst s) \<and> length (hid_last_queued (fst s)) = 8
     \<and> snd t = (if hid_last_queued_valid (fst s) then Some (hid_last_queued (fst s)) else None)
     \<and> subseq (hid_seen s) (fst t) \<and> (room \<longrightarrow> hid_seen s = fst t)"

lemma subseq_butlast: "subseq (butlast xs) xs"
  by (induction xs) auto

lemma hid_track_step:
  assumes inv: "hid_track_inv room (ts, l) (h, out)" and len: "\<And>r. e = Report r \<Longrightarrow> length r = 8"
  shows "hid_track_inv (room \<and> length (hid_items h) < 16) (transition_step e (ts, l)) (hid_event_step e (h, out))"
proof (cases e)
  case (Report r)
  have wf: "hid_wf h" and l8: "length (hid_last_queued h) = 8"
    and l: "l = (if hid_last_queued_valid h then Some (hid_last_queued h) else None)"
    and sub: "subseq (map snd out @ hid_items h) ts"
    using inv by (simp_all add: hid_track_inv_def hid_seen_def)
  have ch: "hid_changed r h \<longleftrightarrow> l \<noteq> Some r"
    using hid_changed_eq [OF len [OF Report] l8] l by auto
  show ?thesis
  proof (cases "hid_changed r h")
    case True
    have items: "hid_items (hid_push r h) =
        (if length (hid_items h) < 16 then hid_items h @ [r] else butlast (hid_items h) @ [r])"
      using wf by (simp add: hid_items_push list_put_def replace_newest_def)
    have "subseq (map snd out @ butlast (hid_items h)) ts"
      using sub subseq_butlast [of "hid_items h"]
      by (meson list_emb_append_mono subseq_order.order_refl subseq_order.order_trans)
    then have "subseq ((map snd out @ butlast (hid_items h)) @ [r]) (ts @ [r])"
      by (rule list_emb_append_mono) simp
    moreover have "subseq ((map snd out @ hid_items h) @ [r]) (ts @ [r])"
      using sub by (rule list_emb_append_mono) simp
    ultimately have "subseq (map snd out @ hid_items (hid_push r h)) (ts @ [r])" by (simp add: items)
    with True Report inv wf len ch items show ?thesis
      by (auto simp: hid_track_inv_def hid_queue_def hid_wf_push hid_seen_def)
  next
    case False
    with Report inv ch show ?thesis by (simp add: hid_track_inv_def hid_queue_def hid_seen_def)
  qed
next
  case Acked
  then show ?thesis
    using inv hid_seen_ack [of h out] by (auto simp: hid_track_inv_def hid_wf_ack)
next
  case Discard
  then show ?thesis
    using inv hid_seen_discard [of h out] by (auto simp: hid_track_inv_def)
qed (use inv in \<open>auto simp: hid_track_inv_def hid_seen_def\<close>)

lemma hid_track_run:
  "(\<forall>r \<in> set (reports es). length r = 8) \<Longrightarrow>
    hid_track_inv (never_full es) (fold transition_step es ([], None)) (hid_run es)"
proof (induction es rule: rev_induct)
  case Nil
  then show ?case
    by (simp add: hid_track_inv_def hid_run_def hid_init_facts never_full_def hid_seen_def) (simp add: hid_init_def)
next
  case (snoc e es)
  obtain h out where s: "hid_run es = (h, out)" by (cases "hid_run es")
  obtain ts l where t: "fold transition_step es ([], None) = (ts, l)" by fastforce
  have "hid_track_inv (never_full es) (ts, l) (h, out)" using snoc s t by simp
  moreover have "\<And>r. e = Report r \<Longrightarrow> length r = 8" using snoc.prems by simp
  ultimately show ?case
    using hid_track_step [of "never_full es" ts l h out e] s t by (simp add: hid_run_snoc never_full_snoc)
qed

lemma hid_run_fates: "Discard \<notin> set es \<Longrightarrow> (fate, r) \<in> set (snd (hid_run es)) \<Longrightarrow> fate = Acknowledged"
proof (induction es arbitrary: fate r rule: rev_induct)
  case (snoc e es)
  obtain h out where s: "hid_run es = (h, out)" by (cases "hid_run es")
  with snoc show ?case by (cases e) (auto simp: hid_run_snoc split: if_splits)
qed (simp add: hid_run_def)

section \<open>Properties\<close>

text \<open>
  C33: the reports keep their order, none is invented, and as long as the queue has room none is unaccounted for.  After any history of
  reports, transmissions, acknowledgements, sessions, teardowns and discards, the reports that left
  the queue, followed by the queued ones, are a subsequence, in order, of the transitions the host
  reported; they end with the newest state reported; and if the queue never was full, they are all
  the transitions, each exactly once.  A report leaves the queue acknowledged, or dropped by a discard,
  which takes everything queued; without a discard all that left were acknowledged.  (A discard keeps the
  memory of the newest state, so the same report offered right after it is no transition.)
\<close>
theorem hid_reports_preserved:
  assumes "\<forall>r \<in> set (reports es). length r = 8" and "reports es \<noteq> []"
  shows "let (h, out) = hid_run es; seen = map snd out @ hid_items h in
           subseq seen (transitions es)
           \<and> seen \<noteq> [] \<and> last seen = last (reports es)
           \<and> (never_full es \<longrightarrow> seen = transitions es)
           \<and> (Discard \<notin> set es \<longrightarrow> (\<forall>(fate, r) \<in> set out. fate = Acknowledged))"
  using hid_track_run [OF assms(1)] hid_newest_run [OF assms(1)] assms(2) hid_run_fates [of es]
  by (auto simp: hid_track_inv_def hid_newest_inv_def hid_seen_def transitions_def split_beta Let_def)

text \<open>A key press is acknowledged, its release is dropped when the link is left, and the next host's first
  report waits.\<close>

theorem hid_reports_preserved_witness:
  "let es = [Report [0, 0, 4, 0, 0, 0, 0, 0], Head_Sent, Acked, Report (replicate 8 0), Discard,
             Report [0, 0, 5, 0, 0, 0, 0, 0]];
       (h, out) = hid_run es in
     out = [(Acknowledged, [0, 0, 4, 0, 0, 0, 0, 0]), (Discarded, replicate 8 0)]
     \<and> map snd out @ hid_items h = [[0, 0, 4, 0, 0, 0, 0, 0], replicate 8 0, [0, 0, 5, 0, 0, 0, 0, 0]]
     \<and> last (map snd out @ hid_items h) = [0, 0, 5, 0, 0, 0, 0, 0]"
proof -
  let ?es = "[Report [0, 0, 4, 0, 0, 0, 0, 0], Head_Sent, Acked, Report (replicate 8 0), Discard,
              Report [0, 0, 5, 0, 0, 0, 0, 0]]"
  have "never_full ?es \<and> transitions ?es = [[0, 0, 4, 0, 0, 0, 0, 0], replicate 8 0, [0, 0, 5, 0, 0, 0, 0, 0]]"
    by code_simp
  moreover have "snd (hid_run ?es) = [(Acknowledged, [0, 0, 4, 0, 0, 0, 0, 0]), (Discarded, replicate 8 0)]"
    by code_simp
  ultimately show ?thesis
    using hid_reports_preserved [of ?es] by (simp add: reports_def split_beta Let_def)
qed

text \<open>
  The entry on the air is never overwritten.  However many reports arrive, full queue included,
  the oldest queued report stays in front until an acknowledgement retires it, and only that one is
  retired; an acknowledgement before the head was sent retires nothing.
\<close>
theorem hid_head_stable:
  assumes "hid_wf h" and "hid_items h \<noteq> []"
  shows "hd (hid_items (hid_queue r h)) = hd (hid_items h)
       \<and> hid_items (hid_ack h) = (if hid_head_sent h then tl (hid_items h) else hid_items h)
       \<and> length (hid_items (hid_queue r h)) \<le> 16"
  using hidq.put_keeps_oldest [OF assms] hidq.items_cap [OF hidq.wf_put [OF assms(1)]]
    hidq.items_cap [OF assms(1)]
  by (simp add: hid_queue_def hid_items_ack)

theorem hid_head_stable_witness:
  "hd (hid_items (hid_queue (replicate 8 0) (hid_push (replicate 8 7) hid_init))) = replicate 8 7"
proof -
  have "hid_items (hid_push (replicate 8 7) hid_init) = [replicate 8 7]"
    by (simp add: hid_items_push hid_init_facts list_put_def)
  with hid_head_stable [OF hid_wf_push [OF hid_init_facts(1), of "replicate 8 7"], of "replicate 8 0"]
  show ?thesis by simp
qed

text \<open>
  What discarding the queue leaves behind.  Reports queued after a disconnect and then discarded
  leave the memory of the newest state in place: the queue is empty, yet the same report offered again
  is taken for a repeat and not queued, and a key in it still counts as held.
\<close>
theorem discard_keeps_dedup_state:
  assumes "hid_wf h" and "length r = 8" and "length (hid_last_queued h) = 8" and "report_down r"
  shows "let h' = rf_discard_hid_queue (hid_queue r h) in
           hid_items h' = [] \<and> hid_items (hid_queue r h') = [] \<and> hid_key_held h'"
proof -
  let ?h = "hid_queue r h"
  have last: "hid_last_queued_valid ?h" "hid_last_queued ?h = r"
    using hid_changed_eq [OF assms(2,3)] by (auto simp: hid_queue_def)
  have "\<not> hid_changed r (rf_discard_hid_queue ?h)"
    using last assms(2) by (simp add: hid_changed_eq rf_discard_hid_queue_def)
  then show ?thesis
    using last assms(4)
    by (auto simp: Let_def hid_queue_def [of r "rf_discard_hid_queue ?h"] hid_key_held_def)
qed

theorem discard_keeps_dedup_state_witness:
  "hid_items (hid_queue [0, 0, 4, 0, 0, 0, 0, 0] (rf_discard_hid_queue (hid_queue [0, 0, 4, 0, 0, 0, 0, 0] hid_init))) = []"
  using discard_keeps_dedup_state [OF hid_init_facts(1), of "[0, 0, 4, 0, 0, 0, 0, 0]"]
  by (simp add: Let_def report_down_def hid_init_def)

end
