(* ===== verification/Bond.thy ===== *)
theory Bond
  imports Le_Bytes
begin

text \<open>
  The stored 2.4 GHz bond of \<^verbatim>\<open>firmware/src/rf_task.c\<close>: the 24-byte record, its checksum and
  validity test, loading and saving through the vendor's DataFlash functions, and the identity
  helpers.  \<open>EEPROM_READ\<close>, \<open>EEPROM_ERASE\<close> and \<open>EEPROM_WRITE\<close> on the bond page are parameters over an
  arbitrary flash state; their documented behaviour is a hypothesis of the round trip.
\<close>

section \<open>The record\<close>

definition RF_DEFAULT_ACCESS_ADDR :: u32 where "RF_DEFAULT_ACCESS_ADDR = 0x71764126"
definition RF_BOND_MAGIC :: u32 where "RF_BOND_MAGIC = 0x3244424b"
definition RF_BOND_VERSION :: u8 where "RF_BOND_VERSION = 1"

record rf_bond_record_t =
  magic :: u32
  version :: u8
  type_tag :: u8
  reserved0 :: u16
  session_aa :: u32
  dongle_mac :: "u8 list"
  reserved1 :: u16
  rec_checksum :: u32

text \<open>The record in memory, and a record read from 24 bytes of memory.\<close>

definition bond_bytes :: "rf_bond_record_t \<Rightarrow> u8 list" where
  "bond_bytes r =
     bytes32 (magic r) @ [version r, type_tag r] @ bytes16 (reserved0 r) @ bytes32 (session_aa r)
     @ dongle_mac r @ bytes16 (reserved1 r) @ bytes32 (rec_checksum r)"

definition bond_of_bytes :: "u8 list \<Rightarrow> rf_bond_record_t" where
  "bond_of_bytes b =
     \<lparr>magic = le32 (b ! 0) (b ! 1) (b ! 2) (b ! 3), version = b ! 4, type_tag = b ! 5,
      reserved0 = le16 (b ! 6) (b ! 7), session_aa = le32 (b ! 8) (b ! 9) (b ! 10) (b ! 11),
      dongle_mac = [b ! 12, b ! 13, b ! 14, b ! 15, b ! 16, b ! 17],
      reserved1 = le16 (b ! 18) (b ! 19), rec_checksum = le32 (b ! 20) (b ! 21) (b ! 22) (b ! 23)\<rparr>"

definition rf_bond_checksum :: "rf_bond_record_t \<Rightarrow> u32" where
  "rf_bond_checksum r = fold (\<lambda>i sum. sum + ucast (bond_bytes r ! i)) [0..<20] 0"

definition rf_bond_record_valid :: "rf_bond_record_t \<Rightarrow> bool" where
  "rf_bond_record_valid r \<longleftrightarrow>
     (if magic r \<noteq> RF_BOND_MAGIC \<or> version r \<noteq> RF_BOND_VERSION then False
      else if rec_checksum r \<noteq> rf_bond_checksum r then False
      else if session_aa r = 0 \<or> session_aa r = RF_DEFAULT_ACCESS_ADDR then False
      else True)"

definition rf_bond_record_matches :: "rf_bond_record_t \<Rightarrow> rf_bond_record_t \<Rightarrow> bool" where
  "rf_bond_record_matches a b \<longleftrightarrow> list_all (\<lambda>i. bond_bytes a ! i = bond_bytes b ! i) [0..<24]"

definition rf_bond_flash_is_erased :: "rf_bond_record_t \<Rightarrow> bool" where
  "rf_bond_flash_is_erased r \<longleftrightarrow> list_all (\<lambda>i. bond_bytes r ! i = 0xff) [0..<24]"

definition mac_equal :: "u8 list \<Rightarrow> u8 list \<Rightarrow> bool" where
  "mac_equal a b \<longleftrightarrow> list_all (\<lambda>i. a ! i = b ! i) [0..<6]"

section \<open>The bond in RAM and in flash\<close>

record bond_t =
  has_bond :: bool
  stored_dongle_mac :: "u8 list"
  stored_session_aa :: u32
  stored_type_tag :: u8

text \<open>The vendor's DataFlash functions on the bond page: a status (0 is success) and what was read,
  or the new flash.\<close>

record 'f eeprom =
  EEPROM_READ :: "'f \<Rightarrow> u8 \<times> u8 list"
  EEPROM_ERASE :: "'f \<Rightarrow> u8 \<times> 'f"
  EEPROM_WRITE :: "u8 list \<Rightarrow> 'f \<Rightarrow> u8 \<times> 'f"

definition rf_build_bond_record :: "bond_t \<Rightarrow> rf_bond_record_t" where
  "rf_build_bond_record b =
     (let r = \<lparr>magic = RF_BOND_MAGIC, version = RF_BOND_VERSION, type_tag = stored_type_tag b,
               reserved0 = 0, session_aa = stored_session_aa b, dongle_mac = stored_dongle_mac b,
               reserved1 = 0, rec_checksum = 0\<rparr>
      in r\<lparr>rec_checksum := rf_bond_checksum r\<rparr>)"

definition rf_load_bond_from_flash :: "'f eeprom \<Rightarrow> 'f \<Rightarrow> bond_t \<Rightarrow> bond_t \<times> bool" where
  "rf_load_bond_from_flash ee fl b =
     (let (status, bytes) = EEPROM_READ ee fl; r = bond_of_bytes bytes in
      if status \<noteq> 0 then (b, False)
      else if \<not> rf_bond_record_valid r then (b, False)
      else (b\<lparr>stored_session_aa := session_aa r, stored_type_tag := type_tag r,
             stored_dongle_mac := dongle_mac r, has_bond := True\<rparr>, True))"

definition rf_save_bond_to_flash :: "'f eeprom \<Rightarrow> bond_t \<Rightarrow> 'f \<Rightarrow> 'f" where
  "rf_save_bond_to_flash ee b fl =
     (if \<not> has_bond b then fl
      else
        (let want = rf_build_bond_record b;
             (status, bytes) = EEPROM_READ ee fl;
             have_cur = (status = 0); cur = bond_of_bytes bytes
         in if have_cur \<and> rf_bond_record_valid cur \<and> rf_bond_record_matches cur want then fl
            else if \<not> have_cur \<or> \<not> rf_bond_flash_is_erased cur then
              (let (est, fl1) = EEPROM_ERASE ee fl in
               if est \<noteq> 0 then fl1 else snd (EEPROM_WRITE ee (bond_bytes want) fl1))
            else snd (EEPROM_WRITE ee (bond_bytes want) fl)))"

definition rf_clear_bond_ram :: "bond_t \<Rightarrow> bond_t" where
  "rf_clear_bond_ram b = b\<lparr>has_bond := False, stored_session_aa := 0, stored_type_tag := 0,
                           stored_dongle_mac := replicate 6 0\<rparr>"

definition rf_clear_bond_flash :: "'f eeprom \<Rightarrow> 'f \<Rightarrow> 'f" where
  "rf_clear_bond_flash ee fl = snd (EEPROM_ERASE ee fl)"

section \<open>Lemmas on the record\<close>


lemma bond_bytes_of:
  assumes "length b = 24"
  shows "bond_bytes (bond_of_bytes b) = b"
proof -
  have "b = map (\<lambda>i. b ! i) [0..<24]" using assms by (metis map_nth)
  also have "\<dots> = [b ! 0, b ! 1, b ! 2, b ! 3, b ! 4, b ! 5, b ! 6, b ! 7, b ! 8, b ! 9, b ! 10, b ! 11,
      b ! 12, b ! 13, b ! 14, b ! 15, b ! 16, b ! 17, b ! 18, b ! 19, b ! 20, b ! 21, b ! 22, b ! 23]"
    by (simp add: upt_rec numeral_eq_Suc)
  finally have b: "b = \<dots>" .
  have "bond_bytes (bond_of_bytes b) = \<dots>"
    by (simp add: bond_bytes_def bond_of_bytes_def bytes32_def bytes16_def u32_bytes_le u16_bytes_le)
  with b show ?thesis by simp
qed

text \<open>The bytes the checksum covers.\<close>

definition bond_head :: "rf_bond_record_t \<Rightarrow> u8 list" where
  "bond_head r =
     bytes32 (magic r) @ [version r, type_tag r] @ bytes16 (reserved0 r) @ bytes32 (session_aa r)
     @ dongle_mac r @ bytes16 (reserved1 r)"

lemma bond_bytes_split: "bond_bytes r = bond_head r @ bytes32 (rec_checksum r)"
  by (simp add: bond_bytes_def bond_head_def)

lemma length_bond_head: "length (dongle_mac r) = 6 \<Longrightarrow> length (bond_head r) = 20"
  by (simp add: bond_head_def)

lemma length_bond_bytes: "length (dongle_mac r) = 6 \<Longrightarrow> length (bond_bytes r) = 24"
  by (simp add: bond_bytes_split length_bond_head)

lemma list6: "length m = 6 \<Longrightarrow> m = [m ! 0, m ! 1, m ! 2, m ! 3, m ! 4, m ! 5]"
  by (auto simp: numeral_eq_Suc length_Suc_conv)

lemma bond_of_bytes_bytes:
  assumes "length (dongle_mac r) = 6"
  shows "bond_of_bytes (bond_bytes r) = r"
proof -
  obtain m0 m1 m2 m3 m4 m5 where m: "dongle_mac r = [m0, m1, m2, m3, m4, m5]"
    using list6 [OF assms] by blast
  show ?thesis
    by (simp add: bond_of_bytes_def bond_bytes_def m bytes32_def bytes16_def le32_bytes le16_bytes)
qed

lemma checksum_sum: "rf_bond_checksum r = sum_list (map (\<lambda>i. ucast (bond_bytes r ! i)) [0..<20])"
proof -
  have "fold (\<lambda>i sum. sum + f i) xs a = a + sum_list (map f xs)" for f :: "nat \<Rightarrow> u32" and xs a
    by (induction xs arbitrary: a) (simp_all add: add.assoc)
  then show ?thesis by (simp add: rf_bond_checksum_def)
qed

lemma checksum_head:
  assumes "length (dongle_mac r) = 6"
  shows "rf_bond_checksum r = sum_list (map ucast (bond_head r))"
proof -
  have "map (\<lambda>i. ucast (bond_bytes r ! i)) [0..<20] = map ucast (take 20 (bond_bytes r))"
    using length_bond_bytes [OF assms] by (intro nth_equalityI) simp_all
  also have "take 20 (bond_bytes r) = bond_head r"
    by (simp add: bond_bytes_split length_bond_head [OF assms])
  finally have m: "map (\<lambda>i. ucast (bond_bytes r ! i)) [0..<20] = map ucast (bond_head r)" .
  show ?thesis unfolding checksum_sum by (rule arg_cong [OF m])
qed

lemma checksum_ignores_itself:
  "length (dongle_mac r) = 6 \<Longrightarrow> rf_bond_checksum (r\<lparr>rec_checksum := c\<rparr>) = rf_bond_checksum r"
  by (simp add: checksum_head) (simp add: bond_head_def)

lemma build_valid:
  assumes "length (stored_dongle_mac b) = 6" and "stored_session_aa b \<noteq> 0"
    and "stored_session_aa b \<noteq> RF_DEFAULT_ACCESS_ADDR"
  shows "rf_bond_record_valid (rf_build_bond_record b)"
proof -
  define r where "r = \<lparr>magic = RF_BOND_MAGIC, version = RF_BOND_VERSION, type_tag = stored_type_tag b,
       reserved0 = 0, session_aa = stored_session_aa b, dongle_mac = stored_dongle_mac b,
       reserved1 = 0, rec_checksum = 0\<rparr>"
  have "rf_build_bond_record b = r\<lparr>rec_checksum := rf_bond_checksum r\<rparr>"
    by (simp add: rf_build_bond_record_def Let_def r_def)
  moreover have "rf_bond_checksum (r\<lparr>rec_checksum := rf_bond_checksum r\<rparr>) = rf_bond_checksum r"
    using assms(1) by (intro checksum_ignores_itself) (simp add: r_def)
  ultimately show ?thesis
    using assms(2,3) by (simp add: rf_bond_record_valid_def r_def)
qed

lemma valid_bytes_iff:
  assumes "length b = 24"
  shows "rf_bond_record_valid (bond_of_bytes b) \<longleftrightarrow>
     take 5 b = [0x4b, 0x42, 0x44, 0x32, 1]
     \<and> le32 (b ! 20) (b ! 21) (b ! 22) (b ! 23) = sum_list (map (\<lambda>i. ucast (b ! i)) [0..<20])
     \<and> le32 (b ! 8) (b ! 9) (b ! 10) (b ! 11) \<notin> {0, RF_DEFAULT_ACCESS_ADDR}"
proof -
  have "le32 (b ! 0) (b ! 1) (b ! 2) (b ! 3) = RF_BOND_MAGIC \<longleftrightarrow>
      b ! 0 = 0x4b \<and> b ! 1 = 0x42 \<and> b ! 2 = 0x44 \<and> b ! 3 = 0x32"
  proof
    assume "le32 (b ! 0) (b ! 1) (b ! 2) (b ! 3) = RF_BOND_MAGIC"
    then have m: "RF_BOND_MAGIC = le32 (b ! 0) (b ! 1) (b ! 2) (b ! 3)" ..
    have "b ! 0 = ucast RF_BOND_MAGIC" "b ! 1 = ucast (drop_bit 8 RF_BOND_MAGIC)"
      "b ! 2 = ucast (drop_bit 16 RF_BOND_MAGIC)" "b ! 3 = ucast (drop_bit 24 RF_BOND_MAGIC)"
      by (simp_all add: m u32_bytes_le)
    then show "b ! 0 = 0x4b \<and> b ! 1 = 0x42 \<and> b ! 2 = 0x44 \<and> b ! 3 = 0x32"
      by (simp add: RF_BOND_MAGIC_def drop_bit_numeral_minus_bit1)
  next
    assume "b ! 0 = 0x4b \<and> b ! 1 = 0x42 \<and> b ! 2 = 0x44 \<and> b ! 3 = 0x32"
    then show "le32 (b ! 0) (b ! 1) (b ! 2) (b ! 3) = RF_BOND_MAGIC"
      by (simp add: le32_def RF_BOND_MAGIC_def)
  qed
  moreover have "take 5 b = [b ! 0, b ! 1, b ! 2, b ! 3, b ! 4]"
    using assms by (simp add: take_Suc_conv_app_nth numeral_eq_Suc)
  ultimately show ?thesis
    using assms
    by (auto simp: rf_bond_record_valid_def checksum_sum bond_bytes_of RF_BOND_VERSION_def)
      (simp_all add: bond_of_bytes_def)
qed


lemma checksum_bound: "unat (sum_list (map (\<lambda>i. ucast (b ! i :: u8)) [0..<n]) :: u32) \<le> 255 * n"
  if "n \<le> 1000" for b :: "u8 list"
  using that
proof (induction n)
  case (Suc n)
  let ?s = "sum_list (map (\<lambda>i. ucast (b ! i)) [0..<n]) :: u32"
  have lt: "unat (ucast (b ! n) :: u32) < 256"
    using unat_lt_u8 [of "b ! n"] by (simp add: unsigned_ucast_eq take_bit_eq_mod)
  then have "unat (?s + ucast (b ! n)) = unat ?s + unat (ucast (b ! n) :: u32)"
    using Suc by (intro unat_add_u32) simp
  moreover have "unat ?s \<le> 255 * n" using Suc by simp
  ultimately show ?case using lt by simp
qed simp

lemma le32_top_ff: "unat (le32 a b c 0xff) \<ge> 4278190080"
proof -
  have "le32 a b c 0xff = le32 a b c 0 OR 0xff000000" by (simp add: le32_def or.assoc)
  then have "(0xff000000 :: u32) \<le> le32 a b c 0xff"
    by (simp add: word_le_def uint_or or.commute [of "uint (le32 a b c 0)"] or_greater_eq)
  then show ?thesis by (simp add: word_le_nat_alt)
qed

section \<open>The flash contract\<close>

text \<open>
  What the code relies on of the DataFlash page: \<open>content\<close> is what its first 24 bytes hold, a read
  returns it, an erase sets every byte to \<^verbatim>\<open>0xff\<close>, and a write of 24 bytes to an erased page stores
  them.
\<close>

definition eeprom_ok :: "'f eeprom \<Rightarrow> ('f \<Rightarrow> u8 list) \<Rightarrow> bool" where
  "eeprom_ok ee content \<longleftrightarrow>
     (\<forall>fl. length (content fl) = 24 \<and> EEPROM_READ ee fl = (0, content fl)
        \<and> (\<exists>fl'. EEPROM_ERASE ee fl = (0, fl') \<and> content fl' = replicate 24 0xff)
        \<and> (\<forall>bs. length bs = 24 \<longrightarrow> content fl = replicate 24 0xff \<longrightarrow>
             (\<exists>fl'. EEPROM_WRITE ee bs fl = (0, fl') \<and> content fl' = bs)))"

text \<open>A flash page that is the list of its bytes; programming can only clear bits.\<close>

definition page_eeprom :: "u8 list eeprom" where
  "page_eeprom = \<lparr>EEPROM_READ = \<lambda>p. (0, take 24 (p @ replicate 24 0)),
     EEPROM_ERASE = \<lambda>p. (0, replicate 24 0xff),
     EEPROM_WRITE = \<lambda>bs p. (0, map2 (AND) bs (take 24 (p @ replicate 24 0)))\<rparr>"

lemma map2_and_ff: "length bs = n \<Longrightarrow> map2 (AND) bs (replicate n (0xff :: u8)) = bs"
proof (induction bs arbitrary: n)
  case (Cons b bs)
  have "b AND 0xff = b" 
  proof -
    have "(0xff :: u8) = - 1" by simp
    then show ?thesis by (simp only: and.right_neutral)
  qed
  with Cons show ?case by auto
qed simp

lemma page_eeprom_ok: "eeprom_ok page_eeprom (\<lambda>p. take 24 (p @ replicate 24 0))"
  by (auto simp: eeprom_ok_def page_eeprom_def map2_and_ff)

lemma record_fields_build:
  "session_aa (rf_build_bond_record b) = stored_session_aa b"
  "type_tag (rf_build_bond_record b) = stored_type_tag b"
  "dongle_mac (rf_build_bond_record b) = stored_dongle_mac b"
  by (simp_all add: rf_build_bond_record_def Let_def)

lemma matches_iff:
  assumes "length (dongle_mac a) = 6" and "length (dongle_mac b) = 6"
  shows "rf_bond_record_matches a b \<longleftrightarrow> bond_bytes a = bond_bytes b"
  using length_bond_bytes [OF assms(1)] length_bond_bytes [OF assms(2)]
  by (auto simp: rf_bond_record_matches_def list_all_iff intro: nth_equalityI)

lemma erased_iff:
  "length b = 24 \<Longrightarrow> rf_bond_flash_is_erased (bond_of_bytes b) \<longleftrightarrow> b = replicate 24 0xff"
  by (auto simp: rf_bond_flash_is_erased_def bond_bytes_of list_all_iff intro: nth_equalityI)

lemma length_mac_of_bytes [simp]: "length (dongle_mac (bond_of_bytes b)) = 6"
  by (simp add: bond_of_bytes_def)

lemma save_stores_record:
  assumes ee: "eeprom_ok ee content" and mac: "length (stored_dongle_mac b) = 6" and "has_bond b"
  shows "content (rf_save_bond_to_flash ee b fl) = bond_bytes (rf_build_bond_record b)"
proof -
  let ?want = "rf_build_bond_record b"
  have len: "length (bond_bytes ?want) = 24"
    by (simp add: length_bond_bytes record_fields_build mac)
  have rd: "EEPROM_READ ee fl = (0, content fl)" "length (content fl) = 24"
    using ee by (simp_all add: eeprom_ok_def)
  obtain fe where fe: "EEPROM_ERASE ee fl = (0, fe)" "content fe = replicate 24 0xff"
    using ee unfolding eeprom_ok_def by blast
  have wr: "content (snd (EEPROM_WRITE ee (bond_bytes ?want) f)) = bond_bytes ?want"
    if "content f = replicate 24 0xff" for f
    using ee that len unfolding eeprom_ok_def by (metis snd_conv)
  have match: "rf_bond_record_matches (bond_of_bytes (content fl)) ?want \<Longrightarrow> content fl = bond_bytes ?want"
    using rd(2) mac by (simp add: matches_iff record_fields_build bond_bytes_of)
  show ?thesis
    using assms(3) rd fe wr match by (simp add: rf_save_bond_to_flash_def Let_def erased_iff)
qed

lemma bond_reload:
  assumes "eeprom_ok ee content" and "has_bond b" and "length (stored_dongle_mac b) = 6"
    and "stored_session_aa b \<noteq> 0" and "stored_session_aa b \<noteq> RF_DEFAULT_ACCESS_ADDR"
  shows "rf_load_bond_from_flash ee (rf_save_bond_to_flash ee b fl) b0 = (b, True)
       \<and> rf_save_bond_to_flash ee b (rf_save_bond_to_flash ee b fl) = rf_save_bond_to_flash ee b fl"
proof -
  let ?want = "rf_build_bond_record b" and ?fl = "rf_save_bond_to_flash ee b fl"
  have mac: "length (dongle_mac ?want) = 6" by (simp add: record_fields_build assms(3))
  have rd: "EEPROM_READ ee ?fl = (0, bond_bytes ?want)"
    using assms(1) save_stores_record [OF assms(1,3,2)] by (simp add: eeprom_ok_def)
  have rdback: "bond_of_bytes (bond_bytes ?want) = ?want" by (rule bond_of_bytes_bytes [OF mac])
  have valid: "rf_bond_record_valid ?want" using assms by (intro build_valid)
  have same: "rf_bond_record_matches ?want ?want" by (simp add: matches_iff mac)
  have "rf_load_bond_from_flash ee ?fl b0 = (b, True)"
    using valid assms(2)
    by (simp add: rf_load_bond_from_flash_def rd Let_def rdback record_fields_build)
  moreover have "rf_save_bond_to_flash ee b ?fl = ?fl"
    by (subst rf_save_bond_to_flash_def) (simp add: rd Let_def rdback valid same)
  ultimately show ?thesis ..
qed

section \<open>Properties of the stored bond\<close>

text \<open>
  C30: A bond with a real session address survives a reboot: whatever the flash page held before
  (an older bond, garbage, an erased page), after \<open>rf_save_bond_to_flash\<close> the load succeeds and
  restores exactly the saved bond, and saving the same bond again leaves the flash untouched.
\<close>

theorem bond_save_load:
  assumes "eeprom_ok ee content" and "has_bond b" and "length (stored_dongle_mac b) = 6"
    and "stored_session_aa b \<noteq> 0" and "stored_session_aa b \<noteq> RF_DEFAULT_ACCESS_ADDR"
  shows "rf_load_bond_from_flash ee (rf_save_bond_to_flash ee b fl) b0 = (b, True)
       \<and> rf_save_bond_to_flash ee b (rf_save_bond_to_flash ee b fl) = rf_save_bond_to_flash ee b fl"
  using assms by (rule bond_reload)

theorem bond_save_load_witness:
  "let b = \<lparr>has_bond = True, stored_dongle_mac = [1, 2, 3, 4, 5, 6], stored_session_aa = 0x12345678,
            stored_type_tag = 3\<rparr>
   in rf_load_bond_from_flash page_eeprom (rf_save_bond_to_flash page_eeprom b [0xff, 7]) b = (b, True)"
  using bond_save_load [OF page_eeprom_ok,
      of "\<lparr>has_bond = True, stored_dongle_mac = [1, 2, 3, 4, 5, 6], stored_session_aa = 0x12345678,
            stored_type_tag = 3\<rparr>" "[0xff, 7]"]
  by (simp add: RF_DEFAULT_ACCESS_ADDR_def)

text \<open>
  C31: A bond write that is cut off leaves no bond behind: with only the first \<open>k < 24\<close> bytes of any
  record programmed and the rest of the page still erased, the load reports no bond and changes
  nothing.
\<close>

theorem torn_bond_rejected:
  assumes "k < 24" and "length (dongle_mac r) = 6"
    and "EEPROM_READ ee fl = (0, take k (bond_bytes r) @ replicate (24 - k) 0xff)"
  shows "rf_load_bond_from_flash ee fl b = (b, False)"
proof -
  define t where "t = take k (bond_bytes r) @ replicate (24 - k) 0xff"
  have len: "length t = 24" using assms(1) length_bond_bytes [OF assms(2)] by (simp add: t_def)
  have "t ! 23 = 0xff"
    using assms(1) length_bond_bytes [OF assms(2)] by (simp add: t_def nth_append)
  then have "4278190080 \<le> unat (le32 (t ! 20) (t ! 21) (t ! 22) (t ! 23))" by (simp add: le32_top_ff)
  moreover have "unat (sum_list (map (\<lambda>i. ucast (t ! i)) [0..<20]) :: u32) \<le> 255 * 20"
    by (rule checksum_bound) simp
  ultimately have "\<not> rf_bond_record_valid (bond_of_bytes t)"
    by (auto simp: valid_bytes_iff [OF len] simp del: upt_rec_numeral)
  then show ?thesis using assms(3) by (simp add: rf_load_bond_from_flash_def Let_def t_def)
qed

theorem torn_bond_rejected_witness:
  "let r = \<lparr>magic = RF_BOND_MAGIC, version = 1, type_tag = 3, reserved0 = 0, session_aa = 0x12345678,
            dongle_mac = [1, 2, 3, 4, 5, 6], reserved1 = 0, rec_checksum = 0\<rparr>;
       p = take 21 (bond_bytes r) @ replicate 3 0xff;
       b = \<lparr>has_bond = False, stored_dongle_mac = replicate 6 0, stored_session_aa = 0, stored_type_tag = 0\<rparr>
   in rf_load_bond_from_flash page_eeprom p b = (b, False)"
  unfolding Let_def
  by (rule torn_bond_rejected [where k = 21 and r = "\<lparr>magic = RF_BOND_MAGIC, version = 1, type_tag = 3, reserved0 = 0,
        session_aa = 0x12345678, dongle_mac = [1, 2, 3, 4, 5, 6], reserved1 = 0, rec_checksum = 0\<rparr>"])
    (simp_all add: page_eeprom_def bond_bytes_def bytes32_def bytes16_def)

lemma ucast_u32_eq: "(ucast a :: u32) = ucast b \<longleftrightarrow> a = b" for a b :: u8
proof
  assume "(ucast a :: u32) = ucast b"
  then have "unat (ucast a :: u32) = unat (ucast b :: u32)" by simp
  then have "unat a = unat b"
    using unat_lt_u8 [of a] unat_lt_u8 [of b] by (simp add: unsigned_ucast_eq take_bit_eq_mod)
  then show "a = b" by (simp only: word_unat_eq_iff)
qed simp

text \<open>
  C32: The record check catches every single-byte corruption: change one of the 24 bytes of a valid
  stored record to any other value and the load rejects it.
\<close>

theorem corrupt_bond_rejected:
  assumes "length p = 24" and "rf_bond_record_valid (bond_of_bytes p)" and "i < 24" and "v \<noteq> p ! i"
    and "EEPROM_READ ee fl = (0, p[i := v])"
  shows "rf_load_bond_from_flash ee fl b = (b, False)"
proof -
  let ?q = "p[i := v]"
  have len: "length ?q = 24" using assms(1) by simp
  note vp = assms(2) [unfolded valid_bytes_iff [OF assms(1)]]
  have "\<not> rf_bond_record_valid (bond_of_bytes ?q)"
  proof
    assume "rf_bond_record_valid (bond_of_bytes ?q)"
    note vq = this [unfolded valid_bytes_iff [OF len]]
    have head: "\<not> i < 5" using vp vq assms(1,4) by (metis len nth_list_update_eq nth_take assms(3))
    have qi: "?q ! j = (if j = i then v else p ! j)" if "j < 24" for j
      using that assms(1,3) by (simp add: nth_list_update)
    show False
    proof (cases "i < 20")
      case True
      have split: "[0..<20] = [0..<i] @ i # [Suc i..<20]"
        using True upt_add_eq_append [of 0 i "20 - i"] upt_conv_Cons [of i 20] by simp
      have parts: "map (\<lambda>j. ucast (?q ! j) :: u32) [0..<i] = map (\<lambda>j. ucast (p ! j)) [0..<i]"
        "map (\<lambda>j. ucast (?q ! j) :: u32) [Suc i..<20] = map (\<lambda>j. ucast (p ! j)) [Suc i..<20]"
        using True by (auto simp: qi)
      moreover have "sum_list (map (\<lambda>j. ucast (?q ! j) :: u32) [0..<20]) = sum_list (map (\<lambda>j. ucast (p ! j)) [0..<20])"
        using vp vq True by (simp add: qi del: upt_rec_numeral)
      ultimately have "(ucast v :: u32) = ucast (p ! i)"
        using qi [of i] True unfolding split map_append list.map sum_list_append sum_list.Cons parts
        by simp
      then show False using assms(4) by (simp add: ucast_u32_eq)
    next
      case False
      have "sum_list (map (\<lambda>j. ucast (?q ! j) :: u32) [0..<20]) = sum_list (map (\<lambda>j. ucast (p ! j)) [0..<20])"
        using False by (intro arg_cong [of _ _ sum_list] map_cong) (auto simp: qi)
      then have "le32 (?q ! 20) (?q ! 21) (?q ! 22) (?q ! 23) = le32 (p ! 20) (p ! 21) (p ! 22) (p ! 23)"
        using vp vq by simp
      then have "?q ! 20 = p ! 20 \<and> ?q ! 21 = p ! 21 \<and> ?q ! 22 = p ! 22 \<and> ?q ! 23 = p ! 23"
        by (metis u32_bytes_le)
      moreover have "i = 20 \<or> i = 21 \<or> i = 22 \<or> i = 23" using False assms(3) by auto
      ultimately show False using qi [of i] assms(3,4) by auto
    qed
  qed
  then show ?thesis using assms(5) by (simp add: rf_load_bond_from_flash_def Let_def)
qed

theorem corrupt_bond_rejected_witness:
  "let p = [0x4b, 0x42, 0x44, 0x32, 1, 3, 0, 0, 0x78, 0x56, 0x34, 0x12, 1, 2, 3, 4, 5, 6, 0, 0, 0x30, 2, 0, 0];
       b = \<lparr>has_bond = False, stored_dongle_mac = replicate 6 0, stored_session_aa = 0, stored_type_tag = 0\<rparr>
   in rf_bond_record_valid (bond_of_bytes p)
      \<and> rf_load_bond_from_flash page_eeprom (p[5 := 4]) b = (b, False)"
proof -
  let ?p = "[0x4b, 0x42, 0x44, 0x32, 1, 3, 0, 0, 0x78, 0x56, 0x34, 0x12, 1, 2, 3, 4, 5, 6, 0, 0, 0x30, 2, 0, 0] :: u8 list"
  have v: "rf_bond_record_valid (bond_of_bytes ?p)" by code_simp
  then show ?thesis
    using corrupt_bond_rejected [of ?p 5 4 page_eeprom "?p[5 := 4]"]
    by (simp add: page_eeprom_def)
qed

end
