(* ===== verification/Rf_Task.thy ===== *)
theory Rf_Task
  imports Rf_Hop Hid_Fifo Bond
begin

text \<open>
  The 2.4 GHz link task of \<^verbatim>\<open>firmware/src/rf_task.c\<close>: its static variables as one record, the radio status
  callback, the TMOS event handler, the connected tick, the turnaround timer, the resting policy and the
  calls the main loop makes.  The radio, the TMOS scheduler, the timer registers and the host UART are
  outside: every call to them is recorded, newest first, in the field \<open>calls\<close>; what they return (status
  codes, RTC readings) is an argument.  The build modelled is the shipped one: \<open>KBD_REST\<close> and
  \<open>KBD_PAIR_DUTY_CYCLE\<close> on, the \<open>STOCK_*\<close> probes at their defaults, diagnostic counters off.
\<close>

section \<open>Constants\<close>

definition RF_EVT_START :: u16 where "RF_EVT_START = 0x0001"
definition RF_EVT_RX_RESTART :: u16 where "RF_EVT_RX_RESTART = 0x0002"
definition RF_EVT_PAIR_BCAST :: u16 where "RF_EVT_PAIR_BCAST = 0x0004"
definition RF_EVT_PAIR_TIMEOUT :: u16 where "RF_EVT_PAIR_TIMEOUT = 0x0008"
definition RF_EVT_ENTER_CONNECTED :: u16 where "RF_EVT_ENTER_CONNECTED = 0x0010"
definition RF_EVT_RESPOND :: u16 where "RF_EVT_RESPOND = 0x0020"
definition RF_EVT_NOTIFY_LED :: u16 where "RF_EVT_NOTIFY_LED = 0x0040"
definition RF_EVT_DISCONNECT :: u16 where "RF_EVT_DISCONNECT = 0x0080"
definition RF_EVT_SAVE_BOND :: u16 where "RF_EVT_SAVE_BOND = 0x0100"
definition RF_EVT_PAIR_RX_OFF :: u16 where "RF_EVT_PAIR_RX_OFF = 0x0200"
definition RF_EVT_REST_IDLE :: u16 where "RF_EVT_REST_IDLE = 0x0400"
definition RF_EVT_REST_PROBE :: u16 where "RF_EVT_REST_PROBE = 0x0800"
definition RF_EVT_REST_PROBE_TIMEOUT :: u16 where "RF_EVT_REST_PROBE_TIMEOUT = 0x1000"
definition RF_EVT_REST_STAGE2 :: u16 where "RF_EVT_REST_STAGE2 = 0x2000"
definition RF_EVT_DISCARD_HID :: u16 where "RF_EVT_DISCARD_HID = 0x4000"
definition SYS_EVENT_MSG :: u16 where "SYS_EVENT_MSG = 0x8000"

lemmas rf_evt_defs [simp] =
  RF_EVT_START_def RF_EVT_RX_RESTART_def RF_EVT_PAIR_BCAST_def RF_EVT_PAIR_TIMEOUT_def
  RF_EVT_ENTER_CONNECTED_def RF_EVT_RESPOND_def RF_EVT_NOTIFY_LED_def RF_EVT_DISCONNECT_def
  RF_EVT_SAVE_BOND_def RF_EVT_PAIR_RX_OFF_def RF_EVT_REST_IDLE_def RF_EVT_REST_PROBE_def
  RF_EVT_REST_PROBE_TIMEOUT_def RF_EVT_REST_STAGE2_def RF_EVT_DISCARD_HID_def SYS_EVENT_MSG_def

definition KBD_RESELECT_KEEP_TICKS :: u32 where "KBD_RESELECT_KEEP_TICKS = 800"
definition RF_PAIR_INTERVAL :: u16 where "RF_PAIR_INTERVAL = 28"
definition RF_PAIR_TIMEOUT_VALUE :: u16 where "RF_PAIR_TIMEOUT_VALUE = 600"
definition RF_PAIR_BCAST_TICKS :: u32 where "RF_PAIR_BCAST_TICKS = 32"
definition RF_PAIR_WINDOW_TICKS :: u32 where "RF_PAIR_WINDOW_TICKS = 8480"
definition RF_PAIR_DWELL_BCASTS :: u8 where "RF_PAIR_DWELL_BCASTS = 12"
definition KBD_PAIR_RX_WINDOW_TICKS :: u32 where "KBD_PAIR_RX_WINDOW_TICKS = 6"
definition KBD_REST_IDLE_TICKS :: u32 where "KBD_REST_IDLE_TICKS = 4800"
definition KBD_REST_PROBE_TICKS :: u32 where "KBD_REST_PROBE_TICKS = 1616"
definition KBD_REST_PROBE_ANSWERS :: u8 where "KBD_REST_PROBE_ANSWERS = 2"
definition KBD_REST_PROBE_TIMEOUT_TICKS :: u32 where "KBD_REST_PROBE_TIMEOUT_TICKS = 640"
definition KBD_REST_STAGE2_TICKS :: u32 where "KBD_REST_STAGE2_TICKS = 2880000"
definition KBD_REST_IDLE_RETRY_TICKS :: u32 where "KBD_REST_IDLE_RETRY_TICKS = 160"
definition RF_CONNECTED_TIMEOUT_TICKS :: u32 where "RF_CONNECTED_TIMEOUT_TICKS = 5000"
definition RF_TURNAROUND_COUNT :: u32 where "RF_TURNAROUND_COUNT = 6000"
definition STOCK_CONNECT_IDX_BIAS :: u32 where "STOCK_CONNECT_IDX_BIAS = 1"
definition NUM_PAIR_CHANNELS :: u8 where "NUM_PAIR_CHANNELS = 3"
definition pair_channels :: "u8 list" where "pair_channels = [8, 17, 26]"

section \<open>State\<close>

datatype rf_state_t = RF_STATE_IDLE | RF_STATE_PAIRING | RF_STATE_CONNECTED | RF_STATE_RESTING
datatype pair_flavor_t = PAIR_FLAVOR_FRESH | PAIR_FLAVOR_BONDED

text \<open>The status codes of the radio callback that the code distinguishes, and any other.\<close>

datatype rf_sta = RX_MODE_RX_DATA | TX_MODE_TX_FINISH | TX_MODE_TX_FAIL | RF_STA_OTHER

text \<open>
  Calls to the outside.  \<open>Fired\<close> is not a call: it marks the moment TMOS takes an event for delivery.
  A transmission records its bytes and the status \<open>RF_Tx\<close> returned; a configuration its access address
  and status.
\<close>

datatype hw_call =
    Shut
  | Set_Channel u8
  | Config u32 u8
  | Rx
  | Tx "u8 list" u8
  | Start_Task u16 u32
  | Stop_Task u16
  | Set_Event u16
  | Fired u16
  | Tmr0_Stop
  | Tmr0_Arm u32
  | Tmr0_Enable
  | Tmr0_Ack
  | Send_Status u8
  | Send_Led u8

record 'f rf_t =
  rf_state :: rf_state_t
  pair_flavor :: pair_flavor_t
  pair_rx_open :: bool
  pair_rx_off_armed :: bool
  rf_rssi :: u8
  rf_access_addr :: u32
  rf_channel :: u8
  rf_conn_interval :: u16
  bond :: bond_t
  pair_bcast_count :: u8
  pair_payload :: "u8 list"
  pending_type_tag :: u8
  pending_interval :: u16
  pending_session_aa :: u32
  hid :: hid_t
  tx_payload :: "u8 list"
  tx_ctrl :: u8
  hop :: hop_t
  pending_led :: u8
  last_led_sent :: u8
  hid_tx_down_inflight :: bool
  pending_anchor :: u32
  response_channel :: u8
  response_ctrl :: u8
  response_pending :: bool
  response_armed_rtc :: u32
  bond_save_pending :: bool
  supervision_kick :: bool
  rest_stage :: u8
  rest_probe :: bool
  rest_probe_wake :: bool
  rest_answers :: u8
  rest_quiet_pending :: bool
  rf_configured_aa :: u32
  rf_configured_valid :: bool
  keyboard_mac :: "u8 list"
  keyboard_mac_valid :: bool
  flash :: 'f
  calls :: "hw_call list"

text \<open>What the outside answers during one operation: the statuses of \<open>RF_Config\<close> and \<open>RF_Tx\<close> (each is
  called at most once per operation) and up to two readings of the RTC.\<close>

record rf_env =
  cfg_status :: u8
  tx_status :: u8
  rtc_first :: u32
  rtc_second :: u32

definition call :: "hw_call \<Rightarrow> 'f rf_t \<Rightarrow> 'f rf_t" where
  "call c s = s\<lparr>calls := c # calls s\<rparr>"

definition rf_start_task_atomic :: "u16 \<Rightarrow> u32 \<Rightarrow> 'f rf_t \<Rightarrow> 'f rf_t" where
  "rf_start_task_atomic evt ticks = call (Start_Task evt ticks)"

definition rf_stop_task_atomic :: "u16 \<Rightarrow> 'f rf_t \<Rightarrow> 'f rf_t" where
  "rf_stop_task_atomic evt = call (Stop_Task evt)"

definition rf_set_event_atomic :: "u16 \<Rightarrow> 'f rf_t \<Rightarrow> 'f rf_t" where
  "rf_set_event_atomic evt = call (Set_Event evt)"

definition rf_tmr0_stop :: "'f rf_t \<Rightarrow> 'f rf_t" where
  "rf_tmr0_stop = call Tmr0_Stop"

definition rf_tmr0_arm :: "u32 \<Rightarrow> 'f rf_t \<Rightarrow> 'f rf_t" where
  "rf_tmr0_arm count = call (Tmr0_Arm count)"

section \<open>Radio helpers\<close>

definition rf_configure :: "rf_env \<Rightarrow> u32 \<Rightarrow> 'f rf_t \<Rightarrow> 'f rf_t \<times> u8" where
  "rf_configure env access_addr s =
     (let s = call (Config access_addr (cfg_status env)) s;
          s = call (Set_Channel (rf_channel s)) s
      in (s, cfg_status env))"

definition rf_configure_if_needed :: "rf_env \<Rightarrow> u32 \<Rightarrow> 'f rf_t \<Rightarrow> 'f rf_t" where
  "rf_configure_if_needed env access_addr s =
     (if \<not> rf_configured_valid s \<or> rf_configured_aa s \<noteq> access_addr then
        (let (s, cfg_status) = rf_configure env access_addr s in
         if cfg_status = 0 then s\<lparr>rf_configured_aa := access_addr, rf_configured_valid := True\<rparr> else s)
      else call (Set_Channel (rf_channel s)) s)"

definition rf_start_rx :: "rf_env \<Rightarrow> u8 \<Rightarrow> 'f rf_t \<Rightarrow> 'f rf_t" where
  "rf_start_rx env channel s =
     (let s = call Shut s;
          s = s\<lparr>rf_channel := channel\<rparr>;
          s = rf_configure_if_needed env (rf_access_addr s) s
      in call Rx s)"

definition rf_pair_broadcast :: "rf_env \<Rightarrow> 'f rf_t \<Rightarrow> 'f rf_t" where
  "rf_pair_broadcast env s =
     (if \<not> keyboard_mac_valid s then call Shut (s\<lparr>rf_state := RF_STATE_IDLE\<rparr>)
      else
        (let dwell = pair_bcast_count s div RF_PAIR_DWELL_BCASTS;
             pair_channel_idx = dwell mod NUM_PAIR_CHANNELS;
             s = s\<lparr>rf_channel := pair_channels ! unat pair_channel_idx\<rparr>;
             s = s\<lparr>pair_payload := map (\<lambda>i. keyboard_mac s ! i) [0..<6]
                     @ [ucast RF_PAIR_INTERVAL, ucast (drop_bit 8 RF_PAIR_INTERVAL),
                        ucast RF_PAIR_TIMEOUT_VALUE, ucast (drop_bit 8 RF_PAIR_TIMEOUT_VALUE)]\<rparr>;
             s = call Shut s;
             s = rf_configure_if_needed env (rf_access_addr s) s;
             s = call (Tx (pair_payload s) (tx_status env)) s;
             s = s\<lparr>pair_bcast_count := pair_bcast_count s + 1\<rparr>;
             s = rf_start_task_atomic RF_EVT_PAIR_BCAST RF_PAIR_BCAST_TICKS s;
             s = rf_stop_task_atomic RF_EVT_PAIR_RX_OFF s
         in s\<lparr>pair_rx_open := True, pair_rx_off_armed := False\<rparr>))"

section \<open>Resting policy helpers\<close>

definition rest_cancel :: "'f rf_t \<Rightarrow> 'f rf_t" where
  "rest_cancel s =
     (let s = rf_stop_task_atomic RF_EVT_REST_IDLE s;
          s = rf_stop_task_atomic RF_EVT_REST_PROBE s;
          s = rf_stop_task_atomic RF_EVT_REST_PROBE_TIMEOUT s;
          s = rf_stop_task_atomic RF_EVT_REST_STAGE2 s
      in s\<lparr>rest_stage := 0, rest_probe := False, rest_probe_wake := False, rest_answers := 0,
           rest_quiet_pending := False\<rparr>)"

definition rest_arm_idle :: "'f rf_t \<Rightarrow> 'f rf_t" where
  "rest_arm_idle s =
     (if rf_state s = RF_STATE_CONNECTED \<and> \<not> rest_probe s then
        (let s = rf_stop_task_atomic RF_EVT_REST_IDLE s
         in rf_start_task_atomic RF_EVT_REST_IDLE KBD_REST_IDLE_TICKS s)
      else s)"

definition rest_go_quiet :: "'f rf_t \<Rightarrow> 'f rf_t" where
  "rest_go_quiet s =
     (let s = rf_tmr0_stop s;
          s = rf_stop_task_atomic RF_EVT_DISCONNECT s;
          s = rf_stop_task_atomic RF_EVT_PAIR_BCAST s;
          s = rf_stop_task_atomic RF_EVT_PAIR_RX_OFF s;
          s = rf_stop_task_atomic RF_EVT_PAIR_TIMEOUT s;
          s = rf_stop_task_atomic RF_EVT_ENTER_CONNECTED s;
          s = rf_stop_task_atomic RF_EVT_REST_PROBE_TIMEOUT s;
          s = s\<lparr>response_pending := False, supervision_kick := False,
                pair_rx_open := False, pair_rx_off_armed := False,
                rest_probe := False, rest_answers := 0, rest_quiet_pending := False,
                rest_probe_wake := False, rf_state := RF_STATE_RESTING\<rparr>
      in call Shut s)"

definition rest_enter :: "'f rf_t \<Rightarrow> 'f rf_t" where
  "rest_enter s =
     (let s = rest_go_quiet s;
          s = s\<lparr>rest_stage := 1\<rparr>;
          s = rf_start_task_atomic RF_EVT_REST_PROBE KBD_REST_PROBE_TICKS s
      in rf_start_task_atomic RF_EVT_REST_STAGE2 KBD_REST_STAGE2_TICKS s)"

definition rest_probe_start :: "'f rf_t \<Rightarrow> 'f rf_t" where
  "rest_probe_start s =
     (if \<not> has_bond (bond s) \<or> \<not> keyboard_mac_valid s then
        (let s = rest_cancel s; s = s\<lparr>rf_state := RF_STATE_IDLE\<rparr> in call Shut s)
      else
        (let s = s\<lparr>rest_probe := True, rest_answers := 0, rest_quiet_pending := False\<rparr>;
             s = rf_tmr0_stop s;
             s = call Shut s;
             s = rf_stop_task_atomic RF_EVT_ENTER_CONNECTED s;
             s = s\<lparr>rf_state := RF_STATE_PAIRING, pair_flavor := PAIR_FLAVOR_BONDED,
                   pair_rx_open := True, pair_rx_off_armed := False,
                   rf_access_addr := stored_session_aa (bond s), rf_configured_valid := False,
                   rf_channel := pair_channels ! 0, pair_bcast_count := 0\<rparr>;
             s = rf_stop_task_atomic RF_EVT_PAIR_TIMEOUT s;
             s = rf_stop_task_atomic RF_EVT_PAIR_RX_OFF s;
             s = rf_set_event_atomic RF_EVT_PAIR_BCAST s;
             s = rf_stop_task_atomic RF_EVT_REST_PROBE_TIMEOUT s
         in rf_start_task_atomic RF_EVT_REST_PROBE_TIMEOUT KBD_REST_PROBE_TIMEOUT_TICKS s))"

text \<open>The argument only selects a diagnostic counter.\<close>

definition rest_probe_end :: "bool \<Rightarrow> 'f rf_t \<Rightarrow> 'f rf_t" where
  "rest_probe_end caught s = rest_go_quiet s"

definition rest_promote_to_normal :: "'f rf_t \<Rightarrow> 'f rf_t" where
  "rest_promote_to_normal s =
     (let s = rf_stop_task_atomic RF_EVT_REST_PROBE s;
          s = rf_stop_task_atomic RF_EVT_REST_PROBE_TIMEOUT s;
          s = rf_stop_task_atomic RF_EVT_REST_STAGE2 s;
          s = s\<lparr>rest_stage := 0, rest_probe := False, rest_probe_wake := False, rest_answers := 0,
                rest_quiet_pending := False\<rparr>;
          s = rf_stop_task_atomic RF_EVT_DISCONNECT s;
          s = rf_start_task_atomic RF_EVT_DISCONNECT RF_CONNECTED_TIMEOUT_TICKS s
      in rest_arm_idle s)"

section \<open>Entering the connection\<close>

text \<open>The session state, the receiver and the supervision timer; then what is announced.\<close>

definition enter_session :: "rf_env \<Rightarrow> bool \<Rightarrow> 'f rf_t \<Rightarrow> 'f rf_t" where
  "enter_session env silent_probe s =
     (let s = rf_stop_task_atomic RF_EVT_PAIR_BCAST s;
          s = rf_stop_task_atomic RF_EVT_PAIR_TIMEOUT s;
          s = rf_stop_task_atomic RF_EVT_PAIR_RX_OFF s;
          s = s\<lparr>bond := (bond s)\<lparr>stored_session_aa := pending_session_aa s,
                                stored_type_tag := pending_type_tag s\<rparr>\<rparr>;
          s = s\<lparr>rf_access_addr := stored_session_aa (bond s), rf_conn_interval := pending_interval s,
                hop := (hop s)\<lparr>prev_data_idx :=
                  ucast (((ucast (stored_type_tag (bond s)) :: u32) + STOCK_CONNECT_IDX_BIAS) mod NUM_DATA_CHANNELS)\<rparr>,
                tx_ctrl := 0x02, hid := (hid s)\<lparr>hid_head_sent := False\<rparr>\<rparr>;
          s = s\<lparr>hop := (hop s)\<lparr>hop_anchor := pending_anchor s, since_rx := 0, provisional := True\<rparr>,
                response_pending := False, bond_save_pending := \<not> silent_probe,
                rf_state := RF_STATE_CONNECTED\<rparr>;
          s = rf_tmr0_stop s;
          s = rf_start_rx env (data_channels ! unat (prev_data_idx (hop s))) s;
          s = call Tmr0_Enable s;
          s = rf_stop_task_atomic RF_EVT_DISCONNECT s
      in rf_start_task_atomic RF_EVT_DISCONNECT RF_CONNECTED_TIMEOUT_TICKS s)"

definition rf_enter_connected :: "rf_env \<Rightarrow> 'f rf_t \<Rightarrow> 'f rf_t" where
  "rf_enter_connected env s =
     (if rf_state s \<noteq> RF_STATE_PAIRING then s
      else
        (let silent_probe = (rest_probe s \<and> \<not> rest_probe_wake s);
             s = enter_session env silent_probe s
         in if silent_probe then s
            else if rest_probe s then rest_promote_to_normal s
            else
              (let s = call (Send_Status 0x32) s;
                   s = call (Send_Status 0x23) s;
                   s = s\<lparr>last_led_sent := 0xFF\<rparr>
               in rest_arm_idle s)))"

section \<open>The radio status callback\<close>

text \<open>A caught LEN-15 pairing packet; \<open>None\<close> when it is none of ours (the code then falls through to
  the receiver restart).\<close>

definition rf_pair_rx :: "rf_env \<Rightarrow> u8 list \<Rightarrow> 'f rf_t \<Rightarrow> 'f rf_t option" where
  "rf_pair_rx env rxBuf s =
     (let payload = drop 2 rxBuf;
          session_aa = read_be32 payload;
          interval = le16 (payload ! 5) (payload ! 6);
          dongle_mac = drop 9 payload
      in if \<not> has_bond (bond s) then
           (let s = s\<lparr>bond := \<lparr>has_bond = True, stored_dongle_mac = map (\<lambda>i. dongle_mac ! i) [0..<6],
                              stored_session_aa = session_aa, stored_type_tag = payload ! 4\<rparr>\<rparr>;
                s = s\<lparr>rf_access_addr := stored_session_aa (bond s)\<rparr>
            in Some (rf_set_event_atomic RF_EVT_RX_RESTART s))
         else if mac_equal (stored_dongle_mac (bond s)) dongle_mac then
           (let eff_interval = (if interval \<noteq> 0 then interval else RF_PAIR_INTERVAL) in
            if eff_interval < 20 \<or> 40 < eff_interval then Some (rf_set_event_atomic RF_EVT_RX_RESTART s)
            else
              (let s = s\<lparr>pending_session_aa := session_aa, pending_type_tag := payload ! 4,
                         pending_interval := eff_interval,
                         pending_anchor := rtc_backdate_32k (rtc_first env) RF_HOP_ANCHOR_BACKDATE\<rparr>
               in Some (rf_set_event_atomic RF_EVT_ENTER_CONNECTED s)))
         else None)"

text \<open>A packet received while connected.\<close>

definition rf_connected_rx :: "rf_env \<Rightarrow> u8 list \<Rightarrow> 'f rf_t \<Rightarrow> 'f rf_t" where
  "rf_connected_rx env rxBuf s =
     (let len = rxBuf ! 1 in
      if len \<noteq> 1 \<and> len \<noteq> 3 \<and> len \<noteq> 10 then rf_set_event_atomic RF_EVT_RX_RESTART s
      else
        (let rx_ctrl = rxBuf ! 2;
             poll_ref = rtc_backdate_32k (rtc_first env) (RF_POLL_BACKDATE_BASE + drop_bit 3 (ucast len));
             s = s\<lparr>hop := (hop s)\<lparr>hop_anchor := hop_servo poll_ref (hop_anchor (hop s)),
                                since_rx := 0, provisional := False\<rparr>\<rparr>;
             s = (if bond_save_pending s
                  then rf_set_event_atomic RF_EVT_SAVE_BOND (s\<lparr>bond_save_pending := False\<rparr>) else s);
             s = (if (rx_ctrl XOR tx_ctrl s) AND 0x01 \<noteq> 0
                  then s\<lparr>tx_ctrl := ((tx_ctrl s AND NOT 0x01) OR (rx_ctrl AND 0x01)) XOR 0x02,
                         hid := hid_ack (hid s)\<rparr>
                  else s);
             s = (if len = 3 \<and> rxBuf ! 3 = 0xA1 then
                    (let s = s\<lparr>pending_led := rxBuf ! 4\<rparr> in
                     if pending_led s \<noteq> last_led_sent s then rf_set_event_atomic RF_EVT_NOTIFY_LED s else s)
                  else s);
             s = s\<lparr>supervision_kick := True,
                   response_channel := rf_channel s, response_ctrl := tx_ctrl s,
                   response_armed_rtc := rtc_second env, response_pending := True\<rparr>
         in rf_tmr0_arm RF_TURNAROUND_COUNT s))"

definition RF_2G4StatusCallBack :: "rf_env \<Rightarrow> rf_sta \<Rightarrow> u8 \<Rightarrow> u8 list option \<Rightarrow> 'f rf_t \<Rightarrow> 'f rf_t" where
  "RF_2G4StatusCallBack env sta rsr rxBuf s =
     (case sta of
        RX_MODE_RX_DATA \<Rightarrow>
          (case rxBuf of
             None \<Rightarrow> rf_set_event_atomic RF_EVT_RX_RESTART s
           | Some rx \<Rightarrow>
               if rsr \<noteq> 0 then rf_set_event_atomic RF_EVT_RX_RESTART s
               else
                 (let s = s\<lparr>rf_rssi := rx ! 0\<rparr> in
                  case (if rf_state s = RF_STATE_PAIRING \<and> rx ! 1 = 15 \<and> rx ! 6 < 5
                        then rf_pair_rx env rx s else None) of
                    Some s' \<Rightarrow> s'
                  | None \<Rightarrow>
                      if rf_state s = RF_STATE_CONNECTED then rf_connected_rx env rx s
                      else rf_set_event_atomic RF_EVT_RX_RESTART s))
      | TX_MODE_TX_FINISH \<Rightarrow>
          (let s = s\<lparr>hid_tx_down_inflight := False\<rparr>;
               s = (if response_pending s \<and> rest_probe s \<and> \<not> rest_probe_wake s then
                      (let s = s\<lparr>rest_answers := rest_answers s + 1\<rparr> in
                       if KBD_REST_PROBE_ANSWERS \<le> rest_answers s then s\<lparr>rest_quiet_pending := True\<rparr> else s)
                    else s);
               s = s\<lparr>response_pending := False\<rparr>
           in rf_set_event_atomic RF_EVT_RX_RESTART s)
      | TX_MODE_TX_FAIL \<Rightarrow>
          rf_set_event_atomic RF_EVT_RX_RESTART (s\<lparr>hid_tx_down_inflight := False, response_pending := False\<rparr>)
      | RF_STA_OTHER \<Rightarrow> rf_set_event_atomic RF_EVT_RX_RESTART s)"

section \<open>The poll response\<close>

definition rf_do_response_tx :: "rf_env \<Rightarrow> 'f rf_t \<Rightarrow> 'f rf_t" where
  "rf_do_response_tx env s =
     (if \<not> response_pending s then s
      else
        (let s = s\<lparr>hid_tx_down_inflight := False\<rparr>;
             s = s\<lparr>tx_payload := (tx_payload s)[0 := response_ctrl s]\<rparr>;
             (s, tx_len, sel_down) =
               (case hid_select (hid s) of
                  Some head \<Rightarrow>
                    (s\<lparr>tx_payload := [tx_payload s ! 0, 0xA1] @ map (\<lambda>i. head ! i) [0..<8]\<rparr>, 10, report_down head)
                | None \<Rightarrow> (s, 1, False));
             s = call Shut s;
             st = tx_status env;
             s = call (Tx (take tx_len (tx_payload s)) st) s;
             s = (if st = 0 \<and> tx_len = 10 then
                    (let s = s\<lparr>hid := (hid s)\<lparr>hid_head_sent := True\<rparr>\<rparr> in
                     if sel_down then s\<lparr>hid_tx_down_inflight := True\<rparr> else s)
                  else s)
         in if st \<noteq> 0 then rf_set_event_atomic RF_EVT_RX_RESTART (s\<lparr>response_pending := False\<rparr>) else s))"

section \<open>The TMOS event handler\<close>

text \<open>One definition per event; \<open>RF_ProcessEvent\<close> selects by bit, in the order of the code.\<close>

definition on_rx_restart :: "rf_env \<Rightarrow> 'f rf_t \<Rightarrow> 'f rf_t" where
  "on_rx_restart env s =
     (if rf_state s = RF_STATE_CONNECTED \<or> (rf_state s = RF_STATE_PAIRING \<and> pair_rx_open s) then
        (let s = rf_start_rx env (rf_channel s) s in
         if rf_state s = RF_STATE_PAIRING \<and> pair_flavor s = PAIR_FLAVOR_BONDED \<and> \<not> pair_rx_off_armed s
         then rf_start_task_atomic RF_EVT_PAIR_RX_OFF KBD_PAIR_RX_WINDOW_TICKS (s\<lparr>pair_rx_off_armed := True\<rparr>)
         else s)
      else s)"

definition on_pair_rx_off :: "'f rf_t \<Rightarrow> 'f rf_t" where
  "on_pair_rx_off s =
     (if rf_state s = RF_STATE_PAIRING \<and> pair_flavor s = PAIR_FLAVOR_BONDED
      then call Shut (s\<lparr>pair_rx_open := False, pair_rx_off_armed := False\<rparr>) else s)"

definition on_pair_timeout :: "'f rf_t \<Rightarrow> 'f rf_t" where
  "on_pair_timeout s =
     (if rf_state s = RF_STATE_PAIRING
      then call Shut (rf_stop_task_atomic RF_EVT_PAIR_RX_OFF (s\<lparr>rf_state := RF_STATE_IDLE\<rparr>)) else s)"

definition on_notify_led :: "'f rf_t \<Rightarrow> 'f rf_t" where
  "on_notify_led s =
     (let led = pending_led s in
      if led \<noteq> last_led_sent s then
        (let s = call (Send_Led led) s;
             s = s\<lparr>last_led_sent := led\<rparr>
         in if pending_led s \<noteq> led then rf_set_event_atomic RF_EVT_NOTIFY_LED s else s)
      else s)"

definition on_rest_idle :: "'f rf_t \<Rightarrow> 'f rf_t" where
  "on_rest_idle s =
     (if rf_state s = RF_STATE_CONNECTED \<and> \<not> rest_probe s then
        (if hid_fifo_tail (hid s) = hid_fifo_head (hid s) \<and> \<not> response_pending s \<and> \<not> hid_key_held (hid s)
         then rest_enter s
         else rf_start_task_atomic RF_EVT_REST_IDLE KBD_REST_IDLE_RETRY_TICKS s)
      else s)"

definition on_rest_probe :: "'f rf_t \<Rightarrow> 'f rf_t" where
  "on_rest_probe s =
     (if rf_state s = RF_STATE_RESTING \<and> rest_stage s = 1
      then rest_probe_start (rf_start_task_atomic RF_EVT_REST_PROBE KBD_REST_PROBE_TICKS s) else s)"

definition on_rest_probe_timeout :: "'f rf_t \<Rightarrow> 'f rf_t" where
  "on_rest_probe_timeout s =
     (if rest_probe s then
        (if rest_probe_wake s
         then rf_start_task_atomic RF_EVT_REST_PROBE_TIMEOUT KBD_REST_PROBE_TIMEOUT_TICKS s
         else rest_probe_end False s)
      else s)"

definition on_rest_stage2 :: "'f rf_t \<Rightarrow> 'f rf_t" where
  "on_rest_stage2 s =
     (if rest_stage s = 1 then rf_stop_task_atomic RF_EVT_REST_PROBE (s\<lparr>rest_stage := 2\<rparr>) else s)"

definition on_disconnect :: "'f rf_t \<Rightarrow> 'f rf_t" where
  "on_disconnect s =
     (if rf_state s = RF_STATE_CONNECTED then
        (let s = rest_cancel s;
             s = rf_tmr0_stop s;
             s = s\<lparr>response_pending := False,
                   hid := (hid s)\<lparr>hid_head_sent := False, hid_last_queued_valid := False\<rparr>,
                   bond_save_pending := False, rf_state := RF_STATE_IDLE\<rparr>;
             s = call Shut s
         in call (Send_Status 0x33) s)
      else s)"

definition RF_ProcessEvent :: "'f eeprom \<Rightarrow> rf_env \<Rightarrow> u16 \<Rightarrow> 'f rf_t \<Rightarrow> 'f rf_t \<times> u16" where
  "RF_ProcessEvent ee env events s =
     (if events AND SYS_EVENT_MSG \<noteq> 0 then (s, events XOR SYS_EVENT_MSG)
      else if events AND RF_EVT_START \<noteq> 0 then
        (call Shut (s\<lparr>rf_state := RF_STATE_IDLE, rf_access_addr := RF_DEFAULT_ACCESS_ADDR,
                      rf_channel := pair_channels ! 0\<rparr>), events XOR RF_EVT_START)
      else if events AND RF_EVT_RX_RESTART \<noteq> 0 then (on_rx_restart env s, events XOR RF_EVT_RX_RESTART)
      else if events AND RF_EVT_PAIR_BCAST \<noteq> 0 then
        (if rf_state s = RF_STATE_PAIRING then rf_pair_broadcast env s else s, events XOR RF_EVT_PAIR_BCAST)
      else if events AND RF_EVT_PAIR_RX_OFF \<noteq> 0 then (on_pair_rx_off s, events XOR RF_EVT_PAIR_RX_OFF)
      else if events AND RF_EVT_PAIR_TIMEOUT \<noteq> 0 then (on_pair_timeout s, events XOR RF_EVT_PAIR_TIMEOUT)
      else if events AND RF_EVT_ENTER_CONNECTED \<noteq> 0 then
        (rf_enter_connected env s, events XOR RF_EVT_ENTER_CONNECTED)
      else if events AND RF_EVT_RESPOND \<noteq> 0 then
        (if rf_state s = RF_STATE_CONNECTED then rf_do_response_tx env s else s, events XOR RF_EVT_RESPOND)
      else if events AND RF_EVT_NOTIFY_LED \<noteq> 0 then (on_notify_led s, events XOR RF_EVT_NOTIFY_LED)
      else if events AND RF_EVT_DISCARD_HID \<noteq> 0 then
        (if rf_state s = RF_STATE_IDLE then s\<lparr>hid := rf_discard_hid_queue (hid s)\<rparr> else s,
         events XOR RF_EVT_DISCARD_HID)
      else if events AND RF_EVT_SAVE_BOND \<noteq> 0 then
        (s\<lparr>flash := rf_save_bond_to_flash ee (bond s) (flash s)\<rparr>, events XOR RF_EVT_SAVE_BOND)
      else if events AND RF_EVT_REST_IDLE \<noteq> 0 then (on_rest_idle s, events XOR RF_EVT_REST_IDLE)
      else if events AND RF_EVT_REST_PROBE \<noteq> 0 then (on_rest_probe s, events XOR RF_EVT_REST_PROBE)
      else if events AND RF_EVT_REST_PROBE_TIMEOUT \<noteq> 0 then
        (on_rest_probe_timeout s, events XOR RF_EVT_REST_PROBE_TIMEOUT)
      else if events AND RF_EVT_REST_STAGE2 \<noteq> 0 then (on_rest_stage2 s, events XOR RF_EVT_REST_STAGE2)
      else if events AND RF_EVT_DISCONNECT \<noteq> 0 then (on_disconnect s, events XOR RF_EVT_DISCONNECT)
      else (s, 0))"

section \<open>The connected tick and the turnaround timer\<close>

definition RF_ConnectedTick :: "rf_env \<Rightarrow> 'f rf_t \<Rightarrow> 'f rf_t" where
  "RF_ConnectedTick env s =
     (if rf_state s \<noteq> RF_STATE_CONNECTED then s
      else if rest_quiet_pending s \<and> \<not> response_pending s then rest_probe_end True s
      else
        (let s = (if supervision_kick s then
                    (let s = rf_stop_task_atomic RF_EVT_DISCONNECT (s\<lparr>supervision_kick := False\<rparr>)
                     in rf_start_task_atomic RF_EVT_DISCONNECT RF_CONNECTED_TIMEOUT_TICKS s)
                  else s);
             interval = (if rf_conn_interval s \<noteq> 0 then rf_conn_interval s else RF_PAIR_INTERVAL)
         in if response_pending s \<and>
               rtc_delta_32k (rtc_first env) (response_armed_rtc s) \<le> ucast interval * 2 then s
            else
              (let s = s\<lparr>response_pending := False\<rparr>;
                   (h, advanced) = hop_advance interval (rtc_second env) (hop s);
                   s = s\<lparr>hop := h\<rparr>
               in if advanced then
                    (if response_pending s then s
                     else rf_start_rx env (data_channels ! unat (prev_data_idx (hop s))) s)
                  else s)))"

text \<open>The flag of the timer's cycle end is read from its register.\<close>

definition TMR0_IRQHandler :: "bool \<Rightarrow> 'f rf_t \<Rightarrow> 'f rf_t" where
  "TMR0_IRQHandler cyc_end s =
     (if \<not> cyc_end then s
      else
        (let s = call Tmr0_Ack s in
         if rf_state s = RF_STATE_CONNECTED then rf_set_event_atomic RF_EVT_RESPOND s else s))"

section \<open>Initialisation\<close>

text \<open>The build's identity: the factory MAC read by the vendor's \<open>GetMACAddress\<close> (a status and six
  bytes) when \<open>KBD_FACTORY_MAC\<close> is set, otherwise the compiled-in bytes.\<close>

record rf_config =
  KBD_FACTORY_MAC :: bool
  KBD_MAC :: "u8 list"
  GetMACAddress :: "u8 \<times> u8 list"

definition rf_init_keyboard_identity :: "rf_config \<Rightarrow> 'f rf_t \<Rightarrow> 'f rf_t" where
  "rf_init_keyboard_identity cfg s =
     (if \<not> KBD_FACTORY_MAC cfg then s\<lparr>keyboard_mac := KBD_MAC cfg, keyboard_mac_valid := True\<rparr>
      else
        (let s = s\<lparr>keyboard_mac_valid := False, keyboard_mac := replicate 6 0\<rparr>;
             (status, mac) = GetMACAddress cfg;
             s = s\<lparr>keyboard_mac := mac\<rparr>
         in if status \<noteq> 0 then s
            else
              (let all_zero = list_all (\<lambda>i. keyboard_mac s ! i = 0) [0..<6];
                   all_ff = list_all (\<lambda>i. keyboard_mac s ! i = 0xFF) [0..<6]
               in s\<lparr>keyboard_mac_valid := (\<not> all_zero \<and> \<not> all_ff)\<rparr>)))"

text \<open>The zeroed statics at reset, and the flash as it is found.\<close>

definition rf_bss :: "'f \<Rightarrow> 'f rf_t" where
  "rf_bss fl =
     \<lparr>rf_state = RF_STATE_IDLE, pair_flavor = PAIR_FLAVOR_FRESH, pair_rx_open = False,
      pair_rx_off_armed = False, rf_rssi = 0, rf_access_addr = 0, rf_channel = 0, rf_conn_interval = 0,
      bond = \<lparr>has_bond = False, stored_dongle_mac = replicate 6 0, stored_session_aa = 0, stored_type_tag = 0\<rparr>,
      pair_bcast_count = 0, pair_payload = replicate 10 0, pending_type_tag = 0, pending_interval = 0,
      pending_session_aa = 0, hid = hid_init, tx_payload = replicate 10 0, tx_ctrl = 0,
      hop = \<lparr>prev_data_idx = 0, hop_anchor = 0, since_rx = 0, provisional = False\<rparr>,
      pending_led = 0, last_led_sent = 0, hid_tx_down_inflight = False, pending_anchor = 0,
      response_channel = 0, response_ctrl = 0, response_pending = False, response_armed_rtc = 0,
      bond_save_pending = False, supervision_kick = False, rest_stage = 0, rest_probe = False,
      rest_probe_wake = False, rest_answers = 0, rest_quiet_pending = False, rf_configured_aa = 0,
      rf_configured_valid = False, keyboard_mac = replicate 6 0, keyboard_mac_valid = False,
      flash = fl, calls = []\<rparr>"

text \<open>\<open>RF_TaskInit\<close> never returns when TMOS has no task identifier left (\<open>registered\<close> is false).\<close>

definition RF_TaskInit :: "rf_config \<Rightarrow> 'f eeprom \<Rightarrow> bool \<Rightarrow> 'f rf_t \<Rightarrow> 'f rf_t option" where
  "RF_TaskInit cfg ee registered s =
     (let s = rf_init_keyboard_identity cfg s in
      if \<not> registered then None
      else
        (let s = s\<lparr>rf_state := RF_STATE_IDLE, rf_access_addr := RF_DEFAULT_ACCESS_ADDR,
                   rf_configured_aa := 0, rf_channel := pair_channels ! 0,
                   rf_conn_interval := RF_PAIR_INTERVAL, pending_led := 0, last_led_sent := 0xFF,
                   bond_save_pending := False, bond := rf_clear_bond_ram (bond s)\<rparr>;
             s = s\<lparr>bond := fst (rf_load_bond_from_flash ee (flash s) (bond s))\<rparr>;
             s = s\<lparr>hid := hid_init\<rparr>
         in if has_bond (bond s) \<and> keyboard_mac_valid s then
              (let s = s\<lparr>rf_state := RF_STATE_PAIRING, pair_flavor := PAIR_FLAVOR_BONDED,
                         pair_rx_open := True, pair_rx_off_armed := False,
                         rf_access_addr := stored_session_aa (bond s), rf_configured_valid := False,
                         rf_channel := pair_channels ! 0, pair_bcast_count := 0\<rparr>
               in Some (rf_set_event_atomic RF_EVT_PAIR_BCAST s))
            else Some (rf_set_event_atomic RF_EVT_START s)))"

section \<open>The calls of the main loop\<close>

definition RF_DropQueueUnlessReselected :: "'f rf_t \<Rightarrow> 'f rf_t" where
  "RF_DropQueueUnlessReselected s =
     rf_start_task_atomic RF_EVT_DISCARD_HID KBD_RESELECT_KEEP_TICKS (rf_stop_task_atomic RF_EVT_DISCARD_HID s)"

definition RF_Select2G4 :: "'f rf_t \<Rightarrow> 'f rf_t \<times> bool" where
  "RF_Select2G4 s =
     (let s = rf_stop_task_atomic RF_EVT_DISCARD_HID s in
      if \<not> keyboard_mac_valid s then (s, False)
      else if rf_state s = RF_STATE_CONNECTED then
        (let s = (if rest_probe s
                  then rest_promote_to_normal (s\<lparr>rest_probe_wake := True, rest_quiet_pending := False\<rparr>) else s)
         in (s, has_bond (bond s)))
      else
        (let s = rest_cancel s;
             s = (if has_bond (bond s) then
                    (let s = rf_tmr0_stop s;
                         s = call Shut s;
                         s = rf_stop_task_atomic RF_EVT_ENTER_CONNECTED s;
                         s = s\<lparr>rf_state := RF_STATE_PAIRING, pair_flavor := PAIR_FLAVOR_BONDED,
                               pair_rx_open := True, pair_rx_off_armed := False,
                               rf_access_addr := stored_session_aa (bond s), rf_configured_valid := False,
                               rf_channel := pair_channels ! 0, pair_bcast_count := 0\<rparr>;
                         s = rf_stop_task_atomic RF_EVT_PAIR_TIMEOUT s;
                         s = rf_stop_task_atomic RF_EVT_PAIR_RX_OFF s
                     in rf_set_event_atomic RF_EVT_PAIR_BCAST s)
                  else s)
         in (s, has_bond (bond s))))"

definition RF_EnterPairing :: "'f rf_t \<Rightarrow> 'f rf_t \<times> bool" where
  "RF_EnterPairing s =
     (if \<not> keyboard_mac_valid s \<or> rf_state s = RF_STATE_CONNECTED then (s, False)
      else
        (let s = rest_cancel s;
             s = rf_tmr0_stop s;
             s = call Shut s;
             s = rf_stop_task_atomic RF_EVT_ENTER_CONNECTED s;
             s = s\<lparr>rf_state := RF_STATE_PAIRING, pair_flavor := PAIR_FLAVOR_FRESH,
                   pair_rx_open := True, pair_rx_off_armed := False,
                   rf_access_addr := RF_DEFAULT_ACCESS_ADDR, rf_channel := pair_channels ! 0,
                   pair_bcast_count := 0\<rparr>;
             s = rf_stop_task_atomic RF_EVT_PAIR_RX_OFF s;
             s = rf_set_event_atomic RF_EVT_PAIR_BCAST s;
             s = rf_start_task_atomic RF_EVT_PAIR_TIMEOUT RF_PAIR_WINDOW_TICKS s
         in (s, True)))"

definition RF_Disconnect :: "'f rf_t \<Rightarrow> 'f rf_t" where
  "RF_Disconnect s =
     (let s = rest_cancel s;
          s = s\<lparr>hid := (hid s)\<lparr>hid_last_queued_valid := False\<rparr>\<rparr>;
          s = rf_tmr0_stop s;
          s = rf_stop_task_atomic RF_EVT_PAIR_BCAST s;
          s = rf_stop_task_atomic RF_EVT_PAIR_TIMEOUT s;
          s = rf_stop_task_atomic RF_EVT_PAIR_RX_OFF s;
          s = rf_stop_task_atomic RF_EVT_ENTER_CONNECTED s;
          s = rf_stop_task_atomic RF_EVT_DISCONNECT s;
          s = s\<lparr>bond_save_pending := False, rf_state := RF_STATE_IDLE\<rparr>
      in call Shut s)"

definition RF_FlushBondSave :: "'f eeprom \<Rightarrow> 'f rf_t \<Rightarrow> 'f rf_t" where
  "RF_FlushBondSave ee s =
     (if bond_save_pending s
      then s\<lparr>bond_save_pending := False, flash := rf_save_bond_to_flash ee (bond s) (flash s)\<rparr>
      else s)"

definition RF_ClearBond :: "'f eeprom \<Rightarrow> 'f rf_t \<Rightarrow> 'f rf_t" where
  "RF_ClearBond ee s =
     (let s = rest_cancel s;
          s = s\<lparr>bond := rf_clear_bond_ram (bond s), bond_save_pending := False,
                flash := rf_clear_bond_flash ee (flash s)\<rparr>;
          s = rf_stop_task_atomic RF_EVT_DISCARD_HID s
      in if rf_state s = RF_STATE_IDLE then s\<lparr>hid := rf_discard_hid_queue (hid s)\<rparr> else s)"

definition RF_HasBond :: "'f rf_t \<Rightarrow> bool" where
  "RF_HasBond s = has_bond (bond s)"

definition RF_CanDeepSleep :: "'f rf_t \<Rightarrow> bool" where
  "RF_CanDeepSleep s \<longleftrightarrow>
     (if rf_state s = RF_STATE_IDLE \<or> rf_state s = RF_STATE_RESTING then True
      else if rf_state s = RF_STATE_PAIRING \<and> pair_flavor s = PAIR_FLAVOR_BONDED \<and> \<not> pair_rx_open s then True
      else False)"

definition RF_IdentityValid :: "'f rf_t \<Rightarrow> bool" where
  "RF_IdentityValid s = keyboard_mac_valid s"

definition RF_QueueHIDReport :: "u8 list \<Rightarrow> 'f rf_t \<Rightarrow> 'f rf_t" where
  "RF_QueueHIDReport report s =
     (let s = s\<lparr>hid := hid_queue report (hid s)\<rparr> in
      if rf_state s = RF_STATE_RESTING then
        (let s = s\<lparr>rest_probe_wake := True\<rparr>;
             s = rf_stop_task_atomic RF_EVT_REST_PROBE s;
             s = rf_stop_task_atomic RF_EVT_REST_STAGE2 s
         in rest_probe_start s)
      else if rest_probe s then
        (let s = s\<lparr>rest_probe_wake := True, rest_quiet_pending := False\<rparr> in
         if rf_state s = RF_STATE_CONNECTED then rest_promote_to_normal s else s)
      else if rf_state s = RF_STATE_CONNECTED then rest_arm_idle s
      else s)"

definition RF_RestProbing :: "'f rf_t \<Rightarrow> bool" where
  "RF_RestProbing s \<longleftrightarrow> rest_stage s = 1"

definition RF_LedResync :: "'f rf_t \<Rightarrow> 'f rf_t" where
  "RF_LedResync s = s\<lparr>last_led_sent := 0xFF\<rparr>"

definition RF_GetState :: "'f rf_t \<Rightarrow> rf_state_t" where "RF_GetState s = rf_state s"
definition RF_GetRSSI :: "'f rf_t \<Rightarrow> u8" where "RF_GetRSSI s = rf_rssi s"

end
