(* ===== verification/Rf_Diag.thy ===== *)
theory Rf_Diag
  imports Rf_Task
begin

text \<open>
  The diagnostic counters of \<^verbatim>\<open>firmware/src/rf_task.c\<close> that record what the radio did (\<open>RF_DIAG_COUNTERS\<close>):
  the callback counters, the trace of the first callbacks of a connection, the statistics of the time the
  receiver is down for a re-arm, the snapshots of lost links, and the detector of a callback inside a
  critical section.  The link task writes them and never reads them, so they are a record of their own,
  updated beside the task by one definition for each place of the code that writes them.
\<close>

section \<open>State\<close>

definition LL_TRACE_N :: nat where "LL_TRACE_N = 32"

record drop_snap =
  drop_since_rx :: u16
  drop_idx :: u8
  drop_channel :: u8
  drop_provis :: bool
  drop_rtc :: u32

record rf_diag =
  rf_cb_count :: "u32 list"
  rf_valid_rx_count :: u32
  last_cb_sta :: u8
  last_cb_state :: rf_state_t
  cb_in_cs :: bool
  bb_cb_in_cs_count :: u32
  ll_rx_cb_last_sys :: u32
  ll_rx_since_rearm_sys :: u32
  ll_kbd_rx_ch :: "u32 list"
  ll_hid_tx_done_down :: u32
  ll_trace_rtc :: "u32 list"
  ll_trace_meta :: "u32 list"
  ll_trace_count :: u16
  ll_trace_armed :: bool
  ll_rx_rearm_count :: u32
  ll_rx_rearm_gap_last :: u32
  ll_rx_rearm_gap_min :: u32
  ll_rx_rearm_gap_max :: u32
  ll_rx_rearm_gap_sum :: u32
  ll_rx_rearm_begin_sys :: u32
  ll_rx_rearm_end_sys :: u32
  ll_rx_rearm_last_idx :: u8
  ll_rx_rearm_last_channel :: u8
  ll_rx_rearm_last_provis :: bool
  ll_drop_count :: u32
  ll_drop1 :: drop_snap
  ll_dropN :: drop_snap

section \<open>Critical sections\<close>

text \<open>The interrupt enables in the control register 0x800: \<open>csrrc\<close> reads it and clears the bits of its operand,
  \<open>csrrs\<close> sets them.\<close>

definition rf_irq_save :: "u32 \<Rightarrow> rf_diag \<Rightarrow> u32 \<times> rf_diag \<times> u32" where
  "rf_irq_save csr d =
     (let r = csr; csr = csr AND NOT 0x88; d = d\<lparr>cb_in_cs := True\<rparr> in (csr, d, r AND 0x88))"

definition rf_irq_restore :: "u32 \<Rightarrow> u32 \<Rightarrow> rf_diag \<Rightarrow> u32 \<times> rf_diag" where
  "rf_irq_restore s csr d = (let d = d\<lparr>cb_in_cs := False\<rparr> in (csr OR s, d))"

definition pwr_irq_save :: "u32 \<Rightarrow> u32 \<times> u32" where
  "pwr_irq_save csr = (csr AND NOT 0x88, csr AND 0x88)"

definition pwr_irq_restore :: "u32 \<Rightarrow> u32 \<Rightarrow> u32" where
  "pwr_irq_restore s csr = csr OR s"

section \<open>The trace\<close>

definition trace_flags :: "bool \<Rightarrow> u8 \<Rightarrow> 'f rf_t \<Rightarrow> u8" where
  "trace_flags rx_data rsr s =
     (prev_data_idx (hop s) AND 0x07)
       OR (if rf_state s = RF_STATE_CONNECTED then 0x08 else 0)
       OR (if response_pending s then 0x10 else 0)
       OR (if provisional (hop s) then 0x20 else 0)
       OR (if rx_data \<and> rsr \<noteq> 0 then 0x40 else 0)"

definition trace_meta :: "u8 \<Rightarrow> u8 \<Rightarrow> u8 \<Rightarrow> u8 \<Rightarrow> u32" where
  "trace_meta sta len since flags =
     ucast sta OR push_bit 8 (ucast len) OR push_bit 16 (ucast since) OR push_bit 24 (ucast flags)"

text \<open>\<open>sta\<close> is the status byte of the radio library and \<open>ev\<close> what it stands for; \<open>rtc\<close> is the RTC reading of a
  recorded entry.\<close>

definition ll_trace_entry :: "u32 \<Rightarrow> u8 \<Rightarrow> rf_sta \<Rightarrow> u8 \<Rightarrow> u8 list option \<Rightarrow> 'f rf_t \<Rightarrow> u32 \<times> u32" where
  "ll_trace_entry rtc sta ev rsr rxBuf s =
     (let len = (if ev = RX_MODE_RX_DATA then (case rxBuf of None \<Rightarrow> 0 | Some rx \<Rightarrow> rx ! 1) else 0);
          sr = since_rx (hop s);
          trace_since = (if 0xFF < sr then 0xFF else ucast sr)
      in (rtc, trace_meta sta len trace_since (trace_flags (ev = RX_MODE_RX_DATA) rsr s)))"

definition ll_trace_rec :: "u32 \<Rightarrow> u8 \<Rightarrow> rf_sta \<Rightarrow> u8 \<Rightarrow> u8 list option \<Rightarrow> 'f rf_t \<Rightarrow> rf_diag \<Rightarrow> rf_diag" where
  "ll_trace_rec rtc sta ev rsr rxBuf s d =
     (if \<not> ll_trace_armed d then d
      else (let n = unat (ll_trace_count d) in
            if LL_TRACE_N \<le> n then d\<lparr>ll_trace_armed := False\<rparr>
            else (let e = ll_trace_entry rtc sta ev rsr rxBuf s
                  in d\<lparr>ll_trace_rtc := (ll_trace_rtc d)[n := fst e],
                       ll_trace_meta := (ll_trace_meta d)[n := snd e],
                       ll_trace_count := of_nat n + 1\<rparr>)))"

text \<open>\<open>rf_enter_connected\<close> starts it.\<close>

definition ll_trace_arm :: "rf_diag \<Rightarrow> rf_diag" where
  "ll_trace_arm d = d\<lparr>ll_trace_count := 0, ll_trace_armed := True\<rparr>"

section \<open>The receiver's down time\<close>

definition ll_record_rx_rearm_gap :: "u32 \<Rightarrow> u32 \<Rightarrow> 'f rf_t \<Rightarrow> rf_diag \<Rightarrow> rf_diag" where
  "ll_record_rx_rearm_gap begin_sys end_sys s d =
     (let gap = end_sys - begin_sys;
          d = d\<lparr>ll_rx_rearm_count := ll_rx_rearm_count d + 1, ll_rx_rearm_gap_last := gap\<rparr>;
          d = (if ll_rx_rearm_gap_min d = 0 \<or> gap < ll_rx_rearm_gap_min d then d\<lparr>ll_rx_rearm_gap_min := gap\<rparr> else d);
          d = (if ll_rx_rearm_gap_max d < gap then d\<lparr>ll_rx_rearm_gap_max := gap\<rparr> else d)
      in d\<lparr>ll_rx_rearm_gap_sum := ll_rx_rearm_gap_sum d + gap,
           ll_rx_rearm_begin_sys := begin_sys, ll_rx_rearm_end_sys := end_sys,
           ll_rx_rearm_last_idx := prev_data_idx (hop s), ll_rx_rearm_last_channel := rf_channel s,
           ll_rx_rearm_last_provis := provisional (hop s)\<rparr>)"

text \<open>\<open>rf_start_rx\<close> with its measurement: the state after the re-arm is the one recorded.\<close>

definition rf_start_rx_diag :: "rf_env \<Rightarrow> u32 \<Rightarrow> u32 \<Rightarrow> u8 \<Rightarrow> 'f rf_t \<times> rf_diag \<Rightarrow> 'f rf_t \<times> rf_diag" where
  "rf_start_rx_diag env sys_begin sys_end channel sd =
     (let diag_connected = rf_state (fst sd) = RF_STATE_CONNECTED;
          s = rf_start_rx env channel (fst sd)
      in (s, if diag_connected then ll_record_rx_rearm_gap sys_begin sys_end s (snd sd) else snd sd))"

section \<open>The callback\<close>

definition count_cb :: "nat \<Rightarrow> rf_diag \<Rightarrow> rf_diag" where
  "count_cb i d = d\<lparr>rf_cb_count := (rf_cb_count d)[i := rf_cb_count d ! i + 1]\<rparr>"

definition diag_cb_entry :: "u32 \<Rightarrow> u8 \<Rightarrow> rf_sta \<Rightarrow> u8 \<Rightarrow> u8 list option \<Rightarrow> 'f rf_t \<Rightarrow> rf_diag \<Rightarrow> rf_diag" where
  "diag_cb_entry rtc sta ev rsr rxBuf s d =
     (let d = count_cb 0 d;
          d = ll_trace_rec rtc sta ev rsr rxBuf s d;
          d = d\<lparr>last_cb_sta := sta, last_cb_state := rf_state s\<rparr>
      in if cb_in_cs d then d\<lparr>bb_cb_in_cs_count := bb_cb_in_cs_count d + 1\<rparr> else d)"

text \<open>A received frame: the outcome, and the poll of a connection with the time since the last re-arm.  A
  pairing frame that is taken leaves before the poll's counters.\<close>

definition diag_cb_rx :: "u32 \<Rightarrow> rf_env \<Rightarrow> u8 \<Rightarrow> u8 list option \<Rightarrow> 'f rf_t \<Rightarrow> rf_diag \<Rightarrow> rf_diag" where
  "diag_cb_rx cb_sys env rsr rxBuf s d =
     (let d = count_cb (if rsr = 0 then 1 else 2) d in
      case rxBuf of
        None \<Rightarrow> d
      | Some rx \<Rightarrow>
          if rsr \<noteq> 0 then d
          else
            (let d = d\<lparr>rf_valid_rx_count := rf_valid_rx_count d + 1\<rparr> in
             if rf_state s = RF_STATE_CONNECTED \<and> rx ! 1 \<in> {1, 3, 10} then
               (let d = d\<lparr>ll_rx_cb_last_sys := cb_sys, ll_rx_since_rearm_sys := cb_sys - ll_rx_rearm_end_sys d\<rparr>;
                    i = unat (prev_data_idx (hop s))
                in if ucast (prev_data_idx (hop s)) < NUM_DATA_CHANNELS then d\<lparr>ll_kbd_rx_ch := (ll_kbd_rx_ch d)[i := ll_kbd_rx_ch d ! i + 1]\<rparr> else d)
             else d))"

definition diag_cb_tx :: "rf_sta \<Rightarrow> 'f rf_t \<Rightarrow> rf_diag \<Rightarrow> rf_diag" where
  "diag_cb_tx ev s d =
     (case ev of
        TX_MODE_TX_FINISH \<Rightarrow>
          (let d = count_cb 3 d in
           if hid_tx_down_inflight s \<and> response_pending s
           then d\<lparr>ll_hid_tx_done_down := ll_hid_tx_done_down d + 1\<rparr> else d)
      | TX_MODE_TX_FAIL \<Rightarrow> count_cb 4 d
      | _ \<Rightarrow> count_cb 5 d)"

text \<open>The callback with its counters; \<open>sys\<close> and \<open>rtc\<close> are the readings these take.\<close>

definition callback_diag ::
  "u32 \<Rightarrow> u32 \<Rightarrow> rf_env \<Rightarrow> u8 \<Rightarrow> rf_sta \<Rightarrow> u8 \<Rightarrow> u8 list option \<Rightarrow> 'f rf_t \<times> rf_diag \<Rightarrow> 'f rf_t \<times> rf_diag" where
  "callback_diag rtc sys env sta ev rsr rxBuf sd =
     (let s = fst sd;
          d = diag_cb_entry rtc sta ev rsr rxBuf s (snd sd)
      in (RF_2G4StatusCallBack env ev rsr rxBuf s,
          if ev = RX_MODE_RX_DATA then diag_cb_rx sys env rsr rxBuf s d else diag_cb_tx ev s d))"

section \<open>Lost links and initialisation\<close>

definition diag_drop :: "u32 \<Rightarrow> 'f rf_t \<Rightarrow> rf_diag \<Rightarrow> rf_diag" where
  "diag_drop drtc s d =
     (let d = d\<lparr>ll_drop_count := ll_drop_count d + 1\<rparr>;
          snap = \<lparr>drop_since_rx = since_rx (hop s), drop_idx = prev_data_idx (hop s), drop_channel = rf_channel s,
                  drop_provis = provisional (hop s), drop_rtc = drtc\<rparr>;
          d = (if ll_drop_count d = 1 then d\<lparr>ll_drop1 := snap\<rparr> else d)
      in d\<lparr>ll_dropN := snap\<rparr>)"

text \<open>\<open>on_disconnect\<close> with its snapshot.\<close>

definition on_disconnect_diag :: "u32 \<Rightarrow> 'f rf_t \<times> rf_diag \<Rightarrow> 'f rf_t \<times> rf_diag" where
  "on_disconnect_diag drtc sd =
     (on_disconnect (fst sd), if rf_state (fst sd) = RF_STATE_CONNECTED then diag_drop drtc (fst sd) (snd sd) else snd sd)"

definition no_drop :: drop_snap where
  "no_drop = \<lparr>drop_since_rx = 0, drop_idx = 0, drop_channel = 0, drop_provis = False, drop_rtc = 0\<rparr>"

definition rf_diag_init :: "rf_diag \<Rightarrow> rf_diag" where
  "rf_diag_init d =
     d\<lparr>rf_cb_count := replicate 6 0, rf_valid_rx_count := 0, last_cb_state := RF_STATE_IDLE, last_cb_sta := 0,
       cb_in_cs := False, bb_cb_in_cs_count := 0, ll_kbd_rx_ch := replicate 5 0,
       ll_drop_count := 0, ll_drop1 := no_drop, ll_dropN := no_drop,
       ll_trace_count := 0, ll_trace_armed := False,
       ll_rx_rearm_count := 0, ll_rx_rearm_gap_last := 0, ll_rx_rearm_gap_min := 0, ll_rx_rearm_gap_max := 0,
       ll_rx_rearm_gap_sum := 0, ll_rx_rearm_begin_sys := 0, ll_rx_rearm_end_sys := 0,
       ll_rx_cb_last_sys := 0, ll_rx_since_rearm_sys := 0, ll_rx_rearm_last_idx := 0,
       ll_rx_rearm_last_channel := 0, ll_rx_rearm_last_provis := False\<rparr>"

section \<open>Lemmas\<close>

text \<open>Critical sections: leaving one restores the register it was entered with, and an inner one does not
  open the outer one.\<close>

lemma irq_restores:
  "fst (rf_irq_restore (snd (snd (rf_irq_save csr d))) (fst (rf_irq_save csr d)) d') = csr"
  "pwr_irq_restore (snd (pwr_irq_save csr)) (fst (pwr_irq_save csr)) = csr"
  by (simp_all add: rf_irq_save_def rf_irq_restore_def pwr_irq_save_def pwr_irq_restore_def Let_def
      flip: bit.conj_disj_distrib)

lemma irq_nested_masked:
  assumes "csr AND 0x88 = 0"
  shows "fst (rf_irq_restore (snd (snd (rf_irq_save csr d))) (fst (rf_irq_save csr d)) d') AND 0x88 = 0"
  using assms by (simp only: irq_restores)

lemma irq_masked: "fst (rf_irq_save csr d) AND 0x88 = 0" "fst (pwr_irq_save csr) AND 0x88 = 0"
  by (simp_all add: rf_irq_save_def pwr_irq_save_def Let_def ac_simps)

text \<open>What the counters of a callback keep: the number of callbacks is that of their outcomes.\<close>

definition cb_counted :: "rf_diag \<Rightarrow> bool" where
  "cb_counted d \<longleftrightarrow> length (rf_cb_count d) = 6
     \<and> rf_cb_count d ! 0 = rf_cb_count d ! 1 + rf_cb_count d ! 2 + rf_cb_count d ! 3 + rf_cb_count d ! 4 + rf_cb_count d ! 5"

lemma trace_rec_counts [simp]: "rf_cb_count (ll_trace_rec rtc sta ev rsr rxBuf s d) = rf_cb_count d"
  by (simp add: ll_trace_rec_def Let_def)

lemma cb_count_outcome:
  "rf_cb_count (snd (callback_diag rtc sys env sta ev rsr rxBuf sd))
   = (let c = (rf_cb_count (snd sd))[0 := rf_cb_count (snd sd) ! 0 + 1];
          i = (case ev of RX_MODE_RX_DATA \<Rightarrow> if rsr = 0 then 1 else 2 | TX_MODE_TX_FINISH \<Rightarrow> 3 | TX_MODE_TX_FAIL \<Rightarrow> 4 | RF_STA_OTHER \<Rightarrow> 5)
      in c[i := c ! i + 1])"
  by (cases ev; cases rxBuf) (auto simp: callback_diag_def diag_cb_entry_def diag_cb_rx_def diag_cb_tx_def count_cb_def Let_def)

lemma cb_counted_step:
  assumes "cb_counted (snd sd)"
  shows "cb_counted (snd (callback_diag rtc sys env sta ev rsr rxBuf sd))"
proof -
  obtain c0 c1 c2 c3 c4 c5 where "rf_cb_count (snd sd) = [c0, c1, c2, c3, c4, c5]"
    using assms by (auto simp: cb_counted_def numeral_eq_Suc length_Suc_conv)
  with assms show ?thesis
    unfolding cb_counted_def cb_count_outcome by (cases ev) (simp_all add: Let_def ac_simps)
qed

text \<open>Packing and reading back a trace word.\<close>

lemma trace_meta_fields:
  "ucast (trace_meta sta len since flags) = sta"
  "ucast (drop_bit 8 (trace_meta sta len since flags)) = len"
  "ucast (drop_bit 16 (trace_meta sta len since flags)) = since"
  "ucast (drop_bit 24 (trace_meta sta len since flags)) = flags"
  by (rule bit_word_eqI, auto simp: trace_meta_def bit_simps dest: bit_imp_le_length)+

lemma trace_flags_read:
  assumes "prev_data_idx (hop s) < 8"
  shows "trace_flags rxd rsr s AND 0x07 = prev_data_idx (hop s)"
    "bit (trace_flags rxd rsr s) 3 \<longleftrightarrow> rf_state s = RF_STATE_CONNECTED"
    "bit (trace_flags rxd rsr s) 4 \<longleftrightarrow> response_pending s"
    "bit (trace_flags rxd rsr s) 5 \<longleftrightarrow> provisional (hop s)"
    "bit (trace_flags rxd rsr s) 6 \<longleftrightarrow> rxd \<and> rsr \<noteq> 0"
proof -
  have m: "prev_data_idx (hop s) = take_bit 3 (prev_data_idx (hop s))"
    using assms by (simp add: word_unat_eq_iff take_bit_eq_mod word_less_nat_alt unat_mod)
  have n: "\<not> bit (prev_data_idx (hop s)) k" if "3 \<le> k" for k
    using that by (subst m) (simp add: bit_take_bit_iff)
  have b7: "bit (7 :: u8) k \<longleftrightarrow> k < 3" for k
    using bit_mask_iff [of 3 k, where 'a = "8 word"] by (auto simp: mask_eq_exp_minus_1)
  show "trace_flags rxd rsr s AND 0x07 = prev_data_idx (hop s)"
    by (rule bit_word_eqI) (auto simp: trace_flags_def bit_simps b7 n not_less bit_numeral_rec numeral_eq_Suc less_Suc_eq)
  show "bit (trace_flags rxd rsr s) 3 \<longleftrightarrow> rf_state s = RF_STATE_CONNECTED"
    "bit (trace_flags rxd rsr s) 4 \<longleftrightarrow> response_pending s" "bit (trace_flags rxd rsr s) 5 \<longleftrightarrow> provisional (hop s)"
    "bit (trace_flags rxd rsr s) 6 \<longleftrightarrow> rxd \<and> rsr \<noteq> 0"
    by (simp_all add: trace_flags_def bit_or_iff bit_and_iff b7 n)
qed

text \<open>The trace holds the first entries since it was armed.\<close>

definition trace_ok :: "(u32 \<times> u32) list \<Rightarrow> rf_diag \<Rightarrow> bool" where
  "trace_ok es d \<longleftrightarrow> length (ll_trace_rtc d) = LL_TRACE_N \<and> length (ll_trace_meta d) = LL_TRACE_N
     \<and> unat (ll_trace_count d) = min LL_TRACE_N (length es)
     \<and> zip (take (length es) (ll_trace_rtc d)) (take (length es) (ll_trace_meta d)) = take LL_TRACE_N es
     \<and> (ll_trace_armed d \<longleftrightarrow> length es \<le> LL_TRACE_N)"

lemma trace_ok_arm:
  "length (ll_trace_rtc d) = LL_TRACE_N \<Longrightarrow> length (ll_trace_meta d) = LL_TRACE_N \<Longrightarrow> trace_ok [] (ll_trace_arm d)"
  by (simp add: trace_ok_def ll_trace_arm_def)

lemma zip_take_snoc:
  "n < length xs \<Longrightarrow> n < length ys \<Longrightarrow>
    zip (take (Suc n) (xs[n := a])) (take (Suc n) (ys[n := b])) = zip (take n xs) (take n ys) @ [(a, b)]"
  by (simp add: take_Suc_conv_app_nth)

lemma trace_ok_rec:
  assumes "trace_ok es d"
  shows "trace_ok (es @ [ll_trace_entry rtc sta ev rsr rxBuf s]) (ll_trace_rec rtc sta ev rsr rxBuf s d)"
proof -
  let ?e = "ll_trace_entry rtc sta ev rsr rxBuf s"
  have len: "length (ll_trace_rtc d) = 32" "length (ll_trace_meta d) = 32"
    and n: "unat (ll_trace_count d) = min 32 (length es)"
    and z: "zip (take (length es) (ll_trace_rtc d)) (take (length es) (ll_trace_meta d)) = take 32 es"
    and armed: "ll_trace_armed d \<longleftrightarrow> length es \<le> 32"
    using assms by (simp_all add: trace_ok_def LL_TRACE_N_def)
  consider "length es < 32" | "length es = 32" | "32 < length es" by linarith
  then show ?thesis
  proof cases
    case 1
    with n have c: "unat (ll_trace_count d) = length es" by simp
    have "unat (of_nat (length es) + 1 :: u16) = Suc (length es)"
      using 1 by (simp add: unat_word_ariths unat_of_nat)
    with 1 c len z armed zip_take_snoc [of "length es" "ll_trace_rtc d" "ll_trace_meta d" "fst ?e" "snd ?e"]
    show ?thesis by (simp add: trace_ok_def ll_trace_rec_def LL_TRACE_N_def Let_def)
  next
    case 2
    with n armed len z show ?thesis by (simp add: trace_ok_def ll_trace_rec_def LL_TRACE_N_def Let_def)
  next
    case 3
    with n armed len z show ?thesis by (simp add: trace_ok_def ll_trace_rec_def LL_TRACE_N_def Let_def)
  qed
qed

text \<open>The statistics of the re-arm gaps.\<close>

definition gaps_ok :: "u32 list \<Rightarrow> rf_diag \<Rightarrow> bool" where
  "gaps_ok gs d \<longleftrightarrow> ll_rx_rearm_count d = of_nat (length gs) \<and> ll_rx_rearm_gap_sum d = sum_list gs
     \<and> ll_rx_rearm_gap_max d = Max (insert 0 (set gs))
     \<and> ll_rx_rearm_gap_min d = (if gs = [] then 0 else Min (set gs))
     \<and> (gs \<noteq> [] \<longrightarrow> ll_rx_rearm_gap_last d = last gs)"

lemma record_fields:
  fixes s :: "'f rf_t" and d :: rf_diag and b e :: u32
  defines "d' \<equiv> ll_record_rx_rearm_gap b e s d" and "m \<equiv> ll_rx_rearm_gap_min d"
  shows "ll_rx_rearm_count d' = ll_rx_rearm_count d + 1" "ll_rx_rearm_gap_sum d' = ll_rx_rearm_gap_sum d + (e - b)"
    "ll_rx_rearm_gap_last d' = e - b" "ll_rx_rearm_gap_max d' = max (e - b) (ll_rx_rearm_gap_max d)"
    "ll_rx_rearm_gap_min d' = (if m = 0 then e - b else min (e - b) m)"
  by (auto simp: d'_def m_def ll_record_rx_rearm_gap_def Let_def max_def min_def not_less)

lemma gaps_ok_record:
  assumes "gaps_ok gs d" and "0 \<notin> set gs"
  shows "gaps_ok (gs @ [e - b]) (ll_record_rx_rearm_gap b e s d)"
proof -
  have nz: "Min (set gs) \<noteq> 0" if "gs \<noteq> []"
    using Min_in [of "set gs"] that assms(2) by (metis List.finite_set set_empty)
  have mx: "Max (insert 0 (set (gs @ [g]))) = max g (Max (insert 0 (set gs)))" for g :: u32
  proof -
    have "insert 0 (set (gs @ [g])) = insert g (insert 0 (set gs))" by auto
    then show ?thesis by (simp only: Max_insert finite_insert List.finite_set) simp
  qed
  have mn: "Min (set (gs @ [g])) = (if gs = [] then g else min g (Min (set gs)))" for g :: u32
  proof -
    have "set (gs @ [g]) = insert g (set gs)" by auto
    then show ?thesis by (simp only: Min_insert List.finite_set) (cases "gs = []"; simp)
  qed
  have 1: "ll_rx_rearm_count d = of_nat (length gs)" and 2: "ll_rx_rearm_gap_sum d = sum_list gs"
    and 3: "ll_rx_rearm_gap_max d = Max (insert 0 (set gs))"
    and 4: "ll_rx_rearm_gap_min d = (if gs = [] then 0 else Min (set gs))"
    using assms(1) by (simp_all add: gaps_ok_def)
  show ?thesis
    unfolding gaps_ok_def record_fields mx mn 1 2 3 4
    using nz by (cases "gs = []") simp_all
qed

text \<open>A gap of zero is taken for no minimum at all, and the next gap replaces it.\<close>

lemma zero_gap_forgotten:
  "ll_rx_rearm_gap_min (ll_record_rx_rearm_gap 7 12 s (ll_record_rx_rearm_gap 5 5 s (rf_diag_init d))) = 5"
  by (simp add: ll_record_rx_rearm_gap_def rf_diag_init_def Let_def)

section \<open>Properties\<close>

type_synonym cb_event = "u32 \<times> u32 \<times> rf_env \<times> u8 \<times> rf_sta \<times> u8 \<times> u8 list option"

fun run_callbacks :: "cb_event list \<Rightarrow> 'f rf_t \<times> rf_diag \<Rightarrow> 'f rf_t \<times> rf_diag" where
  "run_callbacks [] sd = sd"
| "run_callbacks ((rtc, sys, env, sta, ev, rsr, rx) # es) sd = run_callbacks es (callback_diag rtc sys env sta ev rsr rx sd)"

fun trace_of :: "cb_event list \<Rightarrow> 'f rf_t \<Rightarrow> (u32 \<times> u32) list" where
  "trace_of [] s = []"
| "trace_of ((rtc, sys, env, sta, ev, rsr, rx) # es) s =
     ll_trace_entry rtc sta ev rsr rx s # trace_of es (RF_2G4StatusCallBack env ev rsr rx s)"

lemma diag_cb_trace [simp]:
  "ll_trace_rtc (count_cb i d) = ll_trace_rtc d" "ll_trace_meta (count_cb i d) = ll_trace_meta d"
  "ll_trace_count (count_cb i d) = ll_trace_count d" "ll_trace_armed (count_cb i d) = ll_trace_armed d"
  by (simp_all add: count_cb_def)

lemma trace_ok_callback:
  assumes "trace_ok es (snd sd)"
  shows "trace_ok (es @ [ll_trace_entry rtc sta ev rsr rx (fst sd)]) (snd (callback_diag rtc sys env sta ev rsr rx sd))"
proof -
  have c: "trace_ok es (count_cb 0 (snd sd))" using assms by (simp add: trace_ok_def)
  from trace_ok_rec [OF this, of rtc sta ev rsr rx "fst sd"] show ?thesis
    by (cases ev; cases rx)
      (auto simp: trace_ok_def callback_diag_def diag_cb_entry_def diag_cb_rx_def diag_cb_tx_def Let_def)
qed

lemma run_callbacks_trace:
  "trace_ok hist (snd sd) \<Longrightarrow> trace_ok (hist @ trace_of es (fst sd)) (snd (run_callbacks es sd))"
proof (induction es arbitrary: hist sd)
  case (Cons e es)
  obtain rtc sys env sta ev rsr rx where e: "e = (rtc, sys, env, sta, ev, rsr, rx)" by (cases e)
  from Cons.IH [OF trace_ok_callback [OF Cons.prems, of rtc sta ev rsr rx sys env]] show ?case
    by (simp add: e callback_diag_def Let_def)
qed simp

lemma run_callbacks_counted: "cb_counted (snd sd) \<Longrightarrow> cb_counted (snd (run_callbacks es sd))"
  by (induction es sd rule: run_callbacks.induct) (auto intro: cb_counted_step)

text \<open>
  The trace of a connection tells its beginning.  Armed by \<open>rf_enter_connected\<close>, it holds after any callbacks
  the entries of the first 32 of them, in order and each with the state of the link as the callback found it,
  never writes past its 32 places, and has stopped by itself when a 33rd came; and since the last
  initialisation the callbacks counted are those counted by outcome.
\<close>
theorem trace_tells_beginning:
  fixes s :: "'f rf_t" and es :: "cb_event list"
  assumes "length (ll_trace_rtc d) = 32" and "length (ll_trace_meta d) = 32" and "cb_counted d"
  defines "d' \<equiv> snd (run_callbacks es (s, ll_trace_arm d))" and "n \<equiv> min 32 (length es)"
  shows "zip (take n (ll_trace_rtc d')) (take n (ll_trace_meta d')) = take 32 (trace_of es s)
       \<and> length (ll_trace_rtc d') = 32 \<and> length (ll_trace_meta d') = 32
       \<and> unat (ll_trace_count d') = n \<and> ll_trace_armed d' = (length es \<le> 32) \<and> cb_counted d'"
proof -
  have a: "trace_ok [] (ll_trace_arm d)" by (rule trace_ok_arm) (simp_all add: assms(1,2) LL_TRACE_N_def)
  have l: "length (trace_of es s) = length es" for s by (induction es s rule: trace_of.induct) auto
  have "trace_ok (trace_of es s) d'" using run_callbacks_trace [of "[]" "(s, ll_trace_arm d)" es] a by (simp add: d'_def)
  moreover have "cb_counted d'"
    using run_callbacks_counted [of "(s, ll_trace_arm d)" es] assms(3) by (simp add: d'_def cb_counted_def ll_trace_arm_def)
  ultimately show ?thesis
    by (cases "length es \<le> 32") (auto simp: trace_ok_def LL_TRACE_N_def n_def l)
qed

definition diag_bss :: rf_diag where
  "diag_bss = \<lparr>rf_cb_count = replicate 6 0, rf_valid_rx_count = 0, last_cb_sta = 0, last_cb_state = RF_STATE_IDLE,
     cb_in_cs = False, bb_cb_in_cs_count = 0, ll_rx_cb_last_sys = 0, ll_rx_since_rearm_sys = 0,
     ll_kbd_rx_ch = replicate 5 0, ll_hid_tx_done_down = 0, ll_trace_rtc = replicate 32 0,
     ll_trace_meta = replicate 32 0, ll_trace_count = 0, ll_trace_armed = False, ll_rx_rearm_count = 0,
     ll_rx_rearm_gap_last = 0, ll_rx_rearm_gap_min = 0, ll_rx_rearm_gap_max = 0, ll_rx_rearm_gap_sum = 0,
     ll_rx_rearm_begin_sys = 0, ll_rx_rearm_end_sys = 0, ll_rx_rearm_last_idx = 0, ll_rx_rearm_last_channel = 0,
     ll_rx_rearm_last_provis = False, ll_drop_count = 0, ll_drop1 = no_drop, ll_dropN = no_drop\<rparr>"

lemma diag_bss_facts: "length (ll_trace_rtc diag_bss) = 32" "length (ll_trace_meta diag_bss) = 32" "cb_counted diag_bss"
  by (simp_all add: diag_bss_def cb_counted_def)

definition demo_events :: "cb_event list" where
  "demo_events = [(7, 0, \<lparr>cfg_status = 0, tx_status = 0, rtc_first = 0, rtc_second = 0\<rparr>, 3, RF_STA_OTHER, 0, None),
     (9, 0, \<lparr>cfg_status = 0, tx_status = 0, rtc_first = 0, rtc_second = 0\<rparr>, 1, TX_MODE_TX_FINISH, 0, None)]"

theorem trace_tells_beginning_witness:
  "let d' = snd (run_callbacks demo_events (rf_bss (0 :: nat), ll_trace_arm diag_bss))
   in unat (ll_trace_count d') = 2 \<and> take 2 (ll_trace_rtc d') = [7, 9] \<and> take 2 (ll_trace_meta d') = [3, 1] \<and> cb_counted d'"
proof -
  let ?d = "snd (run_callbacks demo_events (rf_bss (0 :: nat), ll_trace_arm diag_bss))"
  have t: "trace_of demo_events (rf_bss (0 :: nat)) = [(7, 3), (9, 1)]" by code_simp
  have l: "length demo_events = 2" by (simp add: demo_events_def)
  note r = trace_tells_beginning [OF diag_bss_facts, of demo_events "rf_bss (0 :: nat)", unfolded t l]
  then have z: "zip (take 2 (ll_trace_rtc ?d)) (take 2 (ll_trace_meta ?d)) = [(7, 3), (9, 1)]"
    and n: "length (ll_trace_rtc ?d) = 32" "length (ll_trace_meta ?d) = 32" by simp_all
  have "take 2 (ll_trace_rtc ?d) = [7, 9]" "take 2 (ll_trace_meta ?d) = [3, 1]"
    using arg_cong [OF z, of "map fst"] arg_cong [OF z, of "map snd"] n by simp_all
  with r show ?thesis by (simp add: Let_def)
qed

text \<open>The statistics of the re-arms of a connection are those of the gaps measured, while none is zero.\<close>

theorem rearm_statistics:
  assumes "\<forall>(b, e, s) \<in> set ms. e \<noteq> b"
  shows "gaps_ok (map (\<lambda>(b, e, s). e - b) ms)
     (fold (\<lambda>(b, e, s). ll_record_rx_rearm_gap b e s) ms (rf_diag_init d))"
  using assms
proof (induction ms rule: rev_induct)
  case Nil
  show ?case by (simp add: gaps_ok_def rf_diag_init_def)
next
  case (snoc m ms)
  obtain b e s where m: "m = (b, e, s)" by (cases m)
  have z: "0 \<notin> set (map (\<lambda>(b, e, s). e - b) ms)" using snoc.prems by auto
  have g: "gaps_ok (map (\<lambda>(b, e, s). e - b) ms) (fold (\<lambda>(b, e, s). ll_record_rx_rearm_gap b e s) ms (rf_diag_init d))"
    using snoc by auto
  from gaps_ok_record [OF g z, of e b s] show ?case by (simp add: m)
qed

theorem rearm_statistics_witness:
  "gaps_ok [7 - 4, 3 - 0xFFFFFFFE] (fold (\<lambda>(b, e, s). ll_record_rx_rearm_gap b e s)
     [(4, 7, rf_bss (0 :: nat)), (0xFFFFFFFE, 3, rf_bss 0)] (rf_diag_init diag_bss))"
  using rearm_statistics [of "[(4, 7, rf_bss (0 :: nat)), (0xFFFFFFFE, 3, rf_bss 0)]" diag_bss] by (simp del: fold_simps)

text \<open>The first and the last lost link are the ones kept.\<close>

theorem drops_first_and_last:
  fixes d :: rf_diag and ds :: "(u32 \<times> 'f rf_t) list"
  assumes "ds \<noteq> []" and "length ds < 2 ^ 32"
  defines "d' \<equiv> fold (\<lambda>(rtc, s). diag_drop rtc s) ds (rf_diag_init d)"
  shows "ll_drop_count d' = of_nat (length ds) \<and> drop_rtc (ll_drop1 d') = fst (hd ds) \<and> drop_rtc (ll_dropN d') = fst (last ds)
       \<and> drop_since_rx (ll_drop1 d') = since_rx (hop (snd (hd ds))) \<and> drop_since_rx (ll_dropN d') = since_rx (hop (snd (last ds)))"
  unfolding d'_def using assms(1,2)
proof (induction ds rule: rev_induct)
  case (snoc x ds)
  obtain rtc s where x: "x = (rtc, s)" by (cases x)
  show ?case
  proof (cases "ds = []")
    case True
    then show ?thesis by (simp add: x diag_drop_def rf_diag_init_def Let_def)
  next
    case False
    then have "(of_nat (length ds) :: u32) \<noteq> 0"
      using snoc.prems(2) by (simp add: word_unat_eq_iff unat_of_nat)
    then have "(of_nat (length ds) + 1 :: u32) \<noteq> 1" by simp
    with snoc False show ?thesis by (simp add: x diag_drop_def Let_def hd_append)
  qed
qed simp

theorem drops_first_and_last_witness:
  "drop_rtc (ll_drop1 (fold (\<lambda>(rtc, s). diag_drop rtc s) [(5, rf_bss (0 :: nat)), (9, rf_bss 0)] (rf_diag_init diag_bss))) = 5"
  using drops_first_and_last [of "[(5, rf_bss (0 :: nat)), (9, rf_bss 0)]" diag_bss] by simp

end
