(* ===== verification/Rf_World.thy ===== *)
theory Rf_World
  imports Rf_Task
begin

text \<open>
  The link task in its environment: what TMOS may deliver, the operations of the task as one type, the
  states they reach from boot, and the scheduling invariant of those states (which timers are pending in
  which state).  Deliveries, callbacks, timer interrupts and main-loop calls come in any order.
\<close>

section \<open>Reading the calls\<close>

text \<open>
  TMOS keeps an event bit (set by \<open>tmos_set_event\<close>, cleared when it is delivered or stopped) and a timer
  (started and stopped).  \<open>armed\<close>: something posted since the event was last delivered or stopped will
  still deliver it.  \<open>may_fire\<close>: it may be delivered, which is also so for a timer that was not
  stopped.  The calls are read newest first.
\<close>

fun armed :: "u16 \<Rightarrow> hw_call list \<Rightarrow> bool" where
  "armed e [] = False"
| "armed e (Start_Task e' t # l) = (e = e' \<or> armed e l)"
| "armed e (Set_Event e' # l) = (e = e' \<or> armed e l)"
| "armed e (Stop_Task e' # l) = (e \<noteq> e' \<and> armed e l)"
| "armed e (Fired e' # l) = (e \<noteq> e' \<and> armed e l)"
| "armed e (c # l) = armed e l"

fun bit_posted :: "u16 \<Rightarrow> hw_call list \<Rightarrow> bool" where
  "bit_posted e [] = False"
| "bit_posted e (Set_Event e' # l) = (e = e' \<or> bit_posted e l)"
| "bit_posted e (Stop_Task e' # l) = (e \<noteq> e' \<and> bit_posted e l)"
| "bit_posted e (Fired e' # l) = (e \<noteq> e' \<and> bit_posted e l)"
| "bit_posted e (c # l) = bit_posted e l"

fun timer_posted :: "u16 \<Rightarrow> hw_call list \<Rightarrow> bool" where
  "timer_posted e [] = False"
| "timer_posted e (Start_Task e' t # l) = (e = e' \<or> timer_posted e l)"
| "timer_posted e (Stop_Task e' # l) = (e \<noteq> e' \<and> timer_posted e l)"
| "timer_posted e (c # l) = timer_posted e l"

definition may_fire :: "u16 \<Rightarrow> hw_call list \<Rightarrow> bool" where
  "may_fire e l \<longleftrightarrow> bit_posted e l \<or> timer_posted e l"

lemma may_fire_simps [simp]:
  "may_fire e [] = False"
  "may_fire e (Start_Task e' t # l) = (e = e' \<or> may_fire e l)"
  "may_fire e (Set_Event e' # l) = (e = e' \<or> may_fire e l)"
  "may_fire e (Stop_Task e' # l) = (e \<noteq> e' \<and> may_fire e l)"
  "may_fire e (Fired e' # l) = (if e = e' then timer_posted e l else may_fire e l)"
  "may_fire e (Shut # l) = may_fire e l"
  "may_fire e (Set_Channel ch # l) = may_fire e l"
  "may_fire e (Config aa st # l) = may_fire e l"
  "may_fire e (Rx # l) = may_fire e l"
  "may_fire e (Tx bs st # l) = may_fire e l"
  "may_fire e (Tmr0_Stop # l) = may_fire e l"
  "may_fire e (Tmr0_Arm n # l) = may_fire e l"
  "may_fire e (Tmr0_Enable # l) = may_fire e l"
  "may_fire e (Tmr0_Ack # l) = may_fire e l"
  "may_fire e (Send_Status b # l) = may_fire e l"
  "may_fire e (Send_Led b # l) = may_fire e l"
  by (auto simp: may_fire_def)

lemma armed_may_fire: "armed e l \<Longrightarrow> may_fire e l"
proof (induction l)
  case (Cons c l)
  then show ?case by (cases c) (auto split: if_splits)
qed simp

text \<open>The radio: off when the last radio call shut it, and the channel it was last tuned to.\<close>

fun radio_off :: "hw_call list \<Rightarrow> bool" where
  "radio_off [] = True"
| "radio_off (Shut # l) = True"
| "radio_off (Rx # l) = False"
| "radio_off (Tx bs st # l) = False"
| "radio_off (c # l) = radio_off l"

fun tuned :: "hw_call list \<Rightarrow> u8 option" where
  "tuned [] = None"
| "tuned (Set_Channel ch # l) = Some ch"
| "tuned (c # l) = tuned l"

section \<open>Operations\<close>

datatype rf_op =
    Event u16 rf_env
  | Callback rf_env rf_sta u8 "u8 list option"
  | Tick rf_env
  | Tmr0 bool
  | Select
  | Pair
  | Disconnect
  | Drop_Unless
  | Flush
  | Clear
  | Queue "u8 list"
  | Led_Resync

text \<open>TMOS delivers an event: its bit is gone when the handler runs.\<close>

definition rf_deliver :: "'f eeprom \<Rightarrow> rf_env \<Rightarrow> u16 \<Rightarrow> 'f rf_t \<Rightarrow> 'f rf_t" where
  "rf_deliver ee env e s = fst (RF_ProcessEvent ee env e (call (Fired e) s))"

fun rf_exec :: "'f eeprom \<Rightarrow> rf_op \<Rightarrow> 'f rf_t \<Rightarrow> 'f rf_t" where
  "rf_exec ee (Event e env) s = rf_deliver ee env e s"
| "rf_exec ee (Callback env sta rsr rxBuf) s = RF_2G4StatusCallBack env sta rsr rxBuf s"
| "rf_exec ee (Tick env) s = RF_ConnectedTick env s"
| "rf_exec ee (Tmr0 cyc_end) s = TMR0_IRQHandler cyc_end s"
| "rf_exec ee Select s = fst (RF_Select2G4 s)"
| "rf_exec ee Pair s = fst (RF_EnterPairing s)"
| "rf_exec ee Disconnect s = RF_Disconnect s"
| "rf_exec ee Drop_Unless s = RF_DropQueueUnlessReselected s"
| "rf_exec ee Flush s = RF_FlushBondSave ee s"
| "rf_exec ee Clear s = RF_ClearBond ee s"
| "rf_exec ee (Queue r) s = RF_QueueHIDReport r s"
| "rf_exec ee Led_Resync s = RF_LedResync s"

text \<open>
  What the environment keeps: TMOS delivers only what may fire, one event at a time (the handler takes
  them one at a time, \<open>process_event_one\<close>); the probe cadence timer (1616 ticks), started together with
  the probe timeout (640 ticks), does not come before a timeout that ends the probe: only a main loop
  that stalled the 610 ms between them could hand both over at once, and the watchdog (559 ms) resets it
  before that.  A probe that a key has woken keeps re-arming its timeout, so there the cadence does
  come while the timeout is armed, and is delivered.  A new bond is cleared only in IDLE (both callers disconnect
  first).
\<close>

definition rf_priority :: "u16 list" where
  "rf_priority = [SYS_EVENT_MSG, RF_EVT_START, RF_EVT_RX_RESTART, RF_EVT_PAIR_BCAST, RF_EVT_PAIR_RX_OFF,
     RF_EVT_PAIR_TIMEOUT, RF_EVT_ENTER_CONNECTED, RF_EVT_RESPOND, RF_EVT_NOTIFY_LED, RF_EVT_DISCARD_HID,
     RF_EVT_SAVE_BOND, RF_EVT_REST_IDLE, RF_EVT_REST_PROBE, RF_EVT_REST_PROBE_TIMEOUT,
     RF_EVT_REST_STAGE2, RF_EVT_DISCONNECT]"

fun rf_ok :: "rf_op \<Rightarrow> 'f rf_t \<Rightarrow> bool" where
  "rf_ok (Event e env) s =
     (e \<in> set rf_priority \<and> may_fire e (calls s)
      \<and> (e = RF_EVT_REST_PROBE \<longrightarrow> armed RF_EVT_REST_PROBE_TIMEOUT (calls s) \<longrightarrow> rest_probe_wake s))"
| "rf_ok Clear s = (rf_state s = RF_STATE_IDLE)"
| "rf_ok _ s = True"

text \<open>Boot: the initialisation, and the start event it posts when there is no bond to search for.\<close>

definition rf_boot :: "rf_config \<Rightarrow> 'f eeprom \<Rightarrow> 'f \<Rightarrow> 'f rf_t" where
  "rf_boot cfg ee fl =
     (case RF_TaskInit cfg ee True (rf_bss fl) of
        None \<Rightarrow> rf_bss fl
      | Some s \<Rightarrow>
          if bit_posted RF_EVT_START (calls s)
          then rf_deliver ee \<lparr>cfg_status = 0, tx_status = 0, rtc_first = 0, rtc_second = 0\<rparr> RF_EVT_START s
          else s)"

inductive rf_reach :: "rf_config \<Rightarrow> 'f eeprom \<Rightarrow> 'f rf_t \<Rightarrow> bool" for cfg ee where
  rf_reach_boot: "rf_reach cfg ee (rf_boot cfg ee fl)"
| rf_reach_step: "rf_reach cfg ee s \<Longrightarrow> rf_ok op s \<Longrightarrow> rf_reach cfg ee (rf_exec ee op s)"

section \<open>One event per call\<close>

definition rf_first_event :: "u16 \<Rightarrow> u16 option" where
  "rf_first_event evs = find (\<lambda>e. evs AND e \<noteq> 0) rf_priority"

text \<open>
  \<open>RF_ProcessEvent\<close> handles exactly one event per call, the first pending one in its fixed order, as
  if it had been delivered alone, and hands every other bit back to TMOS; with nothing pending it
  does nothing and returns 0.
\<close>

theorem process_event_one:
  "RF_ProcessEvent ee env evs s =
     (case rf_first_event evs of
        None \<Rightarrow> (s, 0)
      | Some e \<Rightarrow> (fst (RF_ProcessEvent ee env e s), evs XOR e))"
  by (simp add: RF_ProcessEvent_def rf_first_event_def rf_priority_def)

section \<open>The scheduling invariant\<close>

text \<open>While resting (or in a silent probe) the next probe and the second stage are scheduled, or the second
  stage has been reached.\<close>

definition rest_sched :: "'f rf_t \<Rightarrow> bool" where
  "rest_sched s \<longleftrightarrow>
     (rest_stage s = 1 \<and> armed RF_EVT_REST_PROBE (calls s) \<and> armed RF_EVT_REST_STAGE2 (calls s))
     \<or> rest_stage s = 2"

definition no_rest :: "'f rf_t \<Rightarrow> bool" where
  "no_rest s \<longleftrightarrow> \<not> rest_probe s \<and> \<not> rest_probe_wake s \<and> \<not> rest_quiet_pending s \<and> rest_stage s = 0"

definition sched_inv :: "'f rf_t \<Rightarrow> bool" where
  "sched_inv s \<longleftrightarrow>
     \<not> may_fire RF_EVT_START (calls s)
   \<and> (rf_state s = RF_STATE_IDLE \<longrightarrow> no_rest s)
   \<and> (rf_state s = RF_STATE_PAIRING \<longrightarrow>
        keyboard_mac_valid s \<and> armed RF_EVT_PAIR_BCAST (calls s) \<and> \<not> rest_quiet_pending s
        \<and> (may_fire RF_EVT_ENTER_CONNECTED (calls s) \<longrightarrow>
             has_bond (bond s) \<and> 20 \<le> pending_interval s \<and> pending_interval s \<le> 40)
        \<and> (pair_flavor s = PAIR_FLAVOR_FRESH \<longrightarrow> armed RF_EVT_PAIR_TIMEOUT (calls s) \<and> no_rest s)
        \<and> (pair_flavor s = PAIR_FLAVOR_BONDED \<longrightarrow>
             \<not> may_fire RF_EVT_PAIR_TIMEOUT (calls s) \<and> has_bond (bond s)
             \<and> (rest_probe s \<longrightarrow>
                  armed RF_EVT_REST_PROBE_TIMEOUT (calls s) \<and> (\<not> rest_probe_wake s \<longrightarrow> rest_sched s)
                  \<and> \<not> response_pending s)
             \<and> (\<not> rest_probe s \<longrightarrow> no_rest s)))
   \<and> (rf_state s = RF_STATE_CONNECTED \<longrightarrow>
        keyboard_mac_valid s \<and> has_bond (bond s) \<and> armed RF_EVT_DISCONNECT (calls s)
        \<and> 20 \<le> rf_conn_interval s \<and> rf_conn_interval s \<le> 40
        \<and> rf_access_addr s = stored_session_aa (bond s) \<and> \<not> rest_probe_wake s
        \<and> (rest_probe s \<longrightarrow> armed RF_EVT_REST_PROBE_TIMEOUT (calls s) \<and> rest_sched s)
        \<and> (\<not> rest_probe s \<longrightarrow> no_rest s \<and> armed RF_EVT_REST_IDLE (calls s)))
   \<and> (rf_state s = RF_STATE_RESTING \<longrightarrow>
        keyboard_mac_valid s \<and> has_bond (bond s) \<and> rest_sched s
        \<and> \<not> rest_probe s \<and> \<not> rest_probe_wake s \<and> \<not> rest_quiet_pending s \<and> \<not> response_pending s)"

lemmas sched_defs = sched_inv_def rest_sched_def no_rest_def

lemmas rf_call_defs = rf_start_task_atomic_def rf_stop_task_atomic_def rf_set_event_atomic_def
  rf_tmr0_stop_def rf_tmr0_arm_def

lemmas rf_radio_defs = rf_call_defs rf_configure_def rf_configure_if_needed_def rf_start_rx_def rf_pair_broadcast_def

lemmas rf_rest_defs = rf_call_defs rest_cancel_def rest_arm_idle_def rest_go_quiet_def rest_enter_def
  rest_probe_start_def rest_probe_end_def rest_promote_to_normal_def

text \<open>A call leaves every field alone but the list of calls, so the proofs need not look inside it.\<close>

lemma call_fields [simp]:
  "rf_state (call c s) = rf_state s" "response_pending (call c s) = response_pending s"
  "calls (call c s) = c # calls s" "pair_flavor (call c s) = pair_flavor s" "pair_rx_open (call c s) = pair_rx_open s"
  "pair_rx_off_armed (call c s) = pair_rx_off_armed s" "rf_rssi (call c s) = rf_rssi s"
  "rf_access_addr (call c s) = rf_access_addr s" "rf_channel (call c s) = rf_channel s"
  "rf_conn_interval (call c s) = rf_conn_interval s" "bond (call c s) = bond s"
  "pair_bcast_count (call c s) = pair_bcast_count s" "pair_payload (call c s) = pair_payload s"
  "pending_type_tag (call c s) = pending_type_tag s" "pending_interval (call c s) = pending_interval s"
  "pending_session_aa (call c s) = pending_session_aa s" "hid (call c s) = hid s"
  "tx_payload (call c s) = tx_payload s" "tx_ctrl (call c s) = tx_ctrl s" "hop (call c s) = hop s"
  "pending_led (call c s) = pending_led s" "last_led_sent (call c s) = last_led_sent s"
  "hid_tx_down_inflight (call c s) = hid_tx_down_inflight s" "pending_anchor (call c s) = pending_anchor s"
  "response_channel (call c s) = response_channel s" "response_ctrl (call c s) = response_ctrl s"
  "response_armed_rtc (call c s) = response_armed_rtc s" "bond_save_pending (call c s) = bond_save_pending s"
  "supervision_kick (call c s) = supervision_kick s" "rest_stage (call c s) = rest_stage s"
  "rest_probe (call c s) = rest_probe s" "rest_probe_wake (call c s) = rest_probe_wake s"
  "rest_answers (call c s) = rest_answers s" "rest_quiet_pending (call c s) = rest_quiet_pending s"
  "rf_configured_aa (call c s) = rf_configured_aa s" "rf_configured_valid (call c s) = rf_configured_valid s"
  "keyboard_mac (call c s) = keyboard_mac s" "keyboard_mac_valid (call c s) = keyboard_mac_valid s"
  "flash (call c s) = flash s"
  by (simp_all add: call_def)

lemma sched_disconnect: "sched_inv s \<Longrightarrow> sched_inv (RF_Disconnect s)"
  by (simp add: sched_defs RF_Disconnect_def rf_rest_defs Let_def)

lemma sched_select: "sched_inv s \<Longrightarrow> sched_inv (fst (RF_Select2G4 s))"
  unfolding RF_Select2G4_def Let_def
  by (cases "rf_state s"; cases "has_bond (bond s)"; cases "rest_probe s") (simp_all add: sched_defs rf_rest_defs)

lemma sched_pair: "sched_inv s \<Longrightarrow> sched_inv (fst (RF_EnterPairing s))"
  by (cases "rf_state s"; cases "keyboard_mac_valid s") (simp_all add: sched_defs RF_EnterPairing_def rf_rest_defs Let_def)

lemma sched_queue: "sched_inv s \<Longrightarrow> sched_inv (RF_QueueHIDReport r s)"
  unfolding RF_QueueHIDReport_def Let_def
  by (cases "rf_state s"; cases "rest_probe s") (simp_all add: sched_defs rf_rest_defs)

lemma sched_clear: "sched_inv s \<Longrightarrow> rf_state s = RF_STATE_IDLE \<Longrightarrow> sched_inv (RF_ClearBond ee s)"
  by (simp add: sched_defs RF_ClearBond_def rf_rest_defs Let_def)

text \<open>What does not matter to the schedule: most fields, and calls about other events.\<close>

fun sched_neutral :: "hw_call \<Rightarrow> bool" where
  "sched_neutral (Start_Task e t) =
     (e \<in> {RF_EVT_RX_RESTART, RF_EVT_RESPOND, RF_EVT_NOTIFY_LED, RF_EVT_SAVE_BOND, RF_EVT_PAIR_RX_OFF, RF_EVT_DISCARD_HID})"
| "sched_neutral (Stop_Task e) =
     (e \<in> {RF_EVT_RX_RESTART, RF_EVT_RESPOND, RF_EVT_NOTIFY_LED, RF_EVT_SAVE_BOND, RF_EVT_PAIR_RX_OFF, RF_EVT_DISCARD_HID})"
| "sched_neutral (Set_Event e) =
     (e \<in> {RF_EVT_RX_RESTART, RF_EVT_RESPOND, RF_EVT_NOTIFY_LED, RF_EVT_SAVE_BOND, RF_EVT_PAIR_RX_OFF, RF_EVT_DISCARD_HID})"
| "sched_neutral (Fired e) =
     (e \<in> {RF_EVT_RX_RESTART, RF_EVT_RESPOND, RF_EVT_NOTIFY_LED, RF_EVT_SAVE_BOND, RF_EVT_PAIR_RX_OFF, RF_EVT_DISCARD_HID})"
| "sched_neutral _ = True"

lemma neutral_calls:
  assumes "sched_neutral c"
    and "e \<notin> {RF_EVT_RX_RESTART, RF_EVT_RESPOND, RF_EVT_NOTIFY_LED, RF_EVT_SAVE_BOND, RF_EVT_PAIR_RX_OFF, RF_EVT_DISCARD_HID}"
  shows "armed e (c # l) = armed e l" and "may_fire e (c # l) = may_fire e l"
  using assms by (cases c; auto)+

lemma sched_call: "sched_neutral c \<Longrightarrow> sched_inv (call c s) = sched_inv s"
  by (simp add: sched_defs call_def neutral_calls)

lemma sched_frame:
  "sched_inv (s\<lparr>rf_channel := v1\<rparr>) = sched_inv s" "sched_inv (s\<lparr>hop := v2\<rparr>) = sched_inv s"
  "sched_inv (s\<lparr>hid := v3\<rparr>) = sched_inv s" "sched_inv (s\<lparr>tx_ctrl := v4\<rparr>) = sched_inv s"
  "sched_inv (s\<lparr>response_channel := v6\<rparr>) = sched_inv s"
  "sched_inv (s\<lparr>response_ctrl := v7\<rparr>) = sched_inv s" "sched_inv (s\<lparr>response_armed_rtc := v8\<rparr>) = sched_inv s"
  "sched_inv (s\<lparr>supervision_kick := v9\<rparr>) = sched_inv s" "sched_inv (s\<lparr>pending_led := w1\<rparr>) = sched_inv s"
  "sched_inv (s\<lparr>last_led_sent := w2\<rparr>) = sched_inv s" "sched_inv (s\<lparr>bond_save_pending := w3\<rparr>) = sched_inv s"
  "sched_inv (s\<lparr>flash := w4\<rparr>) = sched_inv s" "sched_inv (s\<lparr>rf_rssi := w5\<rparr>) = sched_inv s"
  "sched_inv (s\<lparr>tx_payload := w6\<rparr>) = sched_inv s" "sched_inv (s\<lparr>hid_tx_down_inflight := w7\<rparr>) = sched_inv s"
  "sched_inv (s\<lparr>rf_configured_aa := w8\<rparr>) = sched_inv s" "sched_inv (s\<lparr>rf_configured_valid := w9\<rparr>) = sched_inv s"
  "sched_inv (s\<lparr>pair_rx_open := x1\<rparr>) = sched_inv s" "sched_inv (s\<lparr>pair_rx_off_armed := x2\<rparr>) = sched_inv s"
  "sched_inv (s\<lparr>pair_payload := x3\<rparr>) = sched_inv s" "sched_inv (s\<lparr>pair_bcast_count := x4\<rparr>) = sched_inv s"
  "sched_inv (s\<lparr>rest_answers := x5\<rparr>) = sched_inv s"
  by (simp_all add: sched_defs)

lemma sched_response:
  "sched_inv s \<Longrightarrow> sched_inv (s\<lparr>response_pending := False\<rparr>)"
  "rf_state s = RF_STATE_CONNECTED \<Longrightarrow> sched_inv (s\<lparr>response_pending := v\<rparr>) = sched_inv s"
  by (simp_all add: sched_defs)

lemma start_rx_fields [simp]:
  "rf_state (rf_start_rx env ch s) = rf_state s" "pair_flavor (rf_start_rx env ch s) = pair_flavor s"
  "keyboard_mac_valid (rf_start_rx env ch s) = keyboard_mac_valid s" "bond (rf_start_rx env ch s) = bond s"
  "rest_probe (rf_start_rx env ch s) = rest_probe s" "rest_probe_wake (rf_start_rx env ch s) = rest_probe_wake s"
  "rest_stage (rf_start_rx env ch s) = rest_stage s" "rest_quiet_pending (rf_start_rx env ch s) = rest_quiet_pending s"
  "rf_conn_interval (rf_start_rx env ch s) = rf_conn_interval s"
  "rf_access_addr (rf_start_rx env ch s) = rf_access_addr s"
  "response_pending (rf_start_rx env ch s) = response_pending s" "hid (rf_start_rx env ch s) = hid s"
  "hop (rf_start_rx env ch s) = hop s" "response_channel (rf_start_rx env ch s) = response_channel s"
  "rf_channel (rf_start_rx env ch s) = ch"
  "pair_rx_open (rf_start_rx env ch s) = pair_rx_open s" "pair_rx_off_armed (rf_start_rx env ch s) = pair_rx_off_armed s"
  "bond_save_pending (rf_start_rx env ch s) = bond_save_pending s" "last_led_sent (rf_start_rx env ch s) = last_led_sent s"
  by (simp_all add: rf_start_rx_def rf_configure_if_needed_def rf_configure_def call_def Let_def)

lemma start_rx_calls [simp]:
  "armed e (calls (rf_start_rx env ch s)) = armed e (calls s)"
  "may_fire e (calls (rf_start_rx env ch s)) = may_fire e (calls s)"
  "radio_off (calls (rf_start_rx env ch s)) = False"
  "tuned (calls (rf_start_rx env ch s)) = Some ch"
  by (simp_all add: rf_start_rx_def rf_configure_if_needed_def rf_configure_def call_def Let_def)

lemma sched_configure: "sched_inv (rf_configure_if_needed env aa s) = sched_inv s"
  by (simp add: rf_configure_if_needed_def rf_configure_def Let_def sched_frame sched_call)

lemma sched_start_rx: "sched_inv (rf_start_rx env ch s) = sched_inv s"
  by (simp add: rf_start_rx_def Let_def sched_frame sched_call sched_configure)

lemmas sched_simps = sched_frame sched_response sched_call sched_configure sched_start_rx
  rf_start_task_atomic_def rf_stop_task_atomic_def rf_set_event_atomic_def rf_tmr0_stop_def rf_tmr0_arm_def

lemma sched_misc:
  assumes "sched_inv s"
  shows "sched_inv (RF_DropQueueUnlessReselected s)" and "sched_inv (RF_FlushBondSave ee s)"
    and "sched_inv (RF_LedResync s)" and "sched_inv (TMR0_IRQHandler c s)"
  using assms
  by (simp_all add: RF_DropQueueUnlessReselected_def RF_FlushBondSave_def RF_LedResync_def
      TMR0_IRQHandler_def Let_def sched_simps)

lemma sched_go_quiet: "sched_inv s \<Longrightarrow> rest_probe s \<Longrightarrow> \<not> rest_probe_wake s \<Longrightarrow> sched_inv (rest_go_quiet s)"
  by (cases "rf_state s"; cases "pair_flavor s") (simp_all add: sched_defs rf_rest_defs Let_def)

lemma sched_kick:
  "sched_inv s \<Longrightarrow> sched_inv (rf_start_task_atomic RF_EVT_DISCONNECT t (rf_stop_task_atomic RF_EVT_DISCONNECT s))"
  by (cases "rf_state s"; cases "pair_flavor s"; cases "rest_probe s") (simp_all add: sched_defs rf_call_defs)

text \<open>The tick, after the supervision timer was renewed if a poll was caught.\<close>

definition kicked :: "'f rf_t \<Rightarrow> 'f rf_t" where
  "kicked s = (if supervision_kick s then
      rf_start_task_atomic RF_EVT_DISCONNECT RF_CONNECTED_TIMEOUT_TICKS
        (rf_stop_task_atomic RF_EVT_DISCONNECT (s\<lparr>supervision_kick := False\<rparr>)) else s)"

definition conn_interval :: "'f rf_t \<Rightarrow> u16" where
  "conn_interval s = (if rf_conn_interval s \<noteq> 0 then rf_conn_interval s else RF_PAIR_INTERVAL)"

lemma tick_unfold:
  "RF_ConnectedTick env s =
     (if rf_state s \<noteq> RF_STATE_CONNECTED then s
      else if rest_quiet_pending s \<and> \<not> response_pending s then rest_probe_end True s
      else if response_pending (kicked s)
           \<and> rtc_delta_32k (rtc_first env) (response_armed_rtc (kicked s)) \<le> ucast (conn_interval (kicked s)) * 2
        then kicked s
      else if snd (hop_advance (conn_interval (kicked s)) (rtc_second env) (hop (kicked s))) then
        rf_start_rx env
          (data_channels ! unat (prev_data_idx (fst (hop_advance (conn_interval (kicked s)) (rtc_second env) (hop (kicked s))))))
          ((kicked s)\<lparr>response_pending := False,
             hop := fst (hop_advance (conn_interval (kicked s)) (rtc_second env) (hop (kicked s)))\<rparr>)
      else (kicked s)\<lparr>response_pending := False,
             hop := fst (hop_advance (conn_interval (kicked s)) (rtc_second env) (hop (kicked s)))\<rparr>)"
proof -
  obtain h adv where adv: "hop_advance (conn_interval (kicked s)) (rtc_second env) (hop (kicked s)) = (h, adv)"
    by fastforce
  show ?thesis
    unfolding RF_ConnectedTick_def Let_def kicked_def [symmetric] conn_interval_def [symmetric]
    by (simp add: adv)
qed

lemma kicked_fields [simp]:
  "rf_state (kicked s) = rf_state s" "rf_channel (kicked s) = rf_channel s" "hop (kicked s) = hop s"
  "hid (kicked s) = hid s" "response_pending (kicked s) = response_pending s"
  "response_channel (kicked s) = response_channel s" "pair_rx_open (kicked s) = pair_rx_open s"
  "pair_flavor (kicked s) = pair_flavor s" "tuned (calls (kicked s)) = tuned (calls s)"
  "radio_off (calls (kicked s)) = radio_off (calls s)"
  by (simp_all add: kicked_def rf_call_defs)

lemma sched_kicked: "sched_inv s \<Longrightarrow> sched_inv (kicked s)"
  by (simp add: kicked_def sched_kick sched_frame del: rf_evt_defs)

lemma sched_tick:
  assumes s: "sched_inv s"
  shows "sched_inv (RF_ConnectedTick env s)"
proof -
  have "sched_inv (rest_probe_end c s)" if "rf_state s = RF_STATE_CONNECTED" "rest_quiet_pending s" for c
  proof -
    have "rest_probe s \<and> \<not> rest_probe_wake s"
      using s that by (cases "rest_probe s") (simp_all add: sched_defs)
    then show ?thesis using s by (simp add: rest_probe_end_def sched_go_quiet)
  qed
  then show ?thesis
    using s sched_kicked [OF s] by (simp add: tick_unfold sched_start_rx sched_frame sched_response)
qed

lemma sched_pair_rx:
  "sched_inv s \<Longrightarrow> rf_state s = RF_STATE_PAIRING \<Longrightarrow> pred_option sched_inv (rf_pair_rx env rx s)"
  by (cases "pair_flavor s"; cases "has_bond (bond s)"; cases "rest_probe s")
    (simp_all add: sched_defs rf_pair_rx_def rf_call_defs Let_def not_less RF_PAIR_INTERVAL_def)

lemma sched_connected_rx: "sched_inv s \<Longrightarrow> rf_state s = RF_STATE_CONNECTED \<Longrightarrow> sched_inv (rf_connected_rx env rx s)"
  by (simp add: rf_connected_rx_def Let_def sched_simps)

lemma sched_tx_finish:
  "sched_inv s \<Longrightarrow> sched_inv (RF_2G4StatusCallBack env TX_MODE_TX_FINISH rsr rx s)"
  by (cases "rf_state s"; cases "pair_flavor s"; cases "rest_probe s"; cases "rest_probe_wake s")
    (simp_all add: sched_defs RF_2G4StatusCallBack_def rf_call_defs Let_def)

lemma sched_callback: "sched_inv s \<Longrightarrow> sched_inv (RF_2G4StatusCallBack env sta rsr rxBuf s)"
proof (cases sta)
  case RX_MODE_RX_DATA
  assume s: "sched_inv s"
  show ?thesis
  proof (cases rxBuf)
    case (Some rx)
    let ?s = "s\<lparr>rf_rssi := rx ! 0\<rparr>"
    have "sched_inv ?s" using s by (simp add: sched_frame)
    then have c: "rf_state s = RF_STATE_CONNECTED \<Longrightarrow> sched_inv (rf_connected_rx env rx ?s)"
      and "rf_state s = RF_STATE_PAIRING \<Longrightarrow> pred_option sched_inv (rf_pair_rx env rx ?s)"
      by (simp_all add: sched_connected_rx sched_pair_rx)
    then have "rf_state s = RF_STATE_PAIRING \<Longrightarrow> rf_pair_rx env rx ?s = Some s' \<Longrightarrow> sched_inv s'" for s'
      by simp
    then show ?thesis
      using s c by (auto simp: RX_MODE_RX_DATA Some RF_2G4StatusCallBack_def Let_def sched_simps split: option.split)
  qed (use s in \<open>simp add: RX_MODE_RX_DATA RF_2G4StatusCallBack_def sched_simps\<close>)
next
  case TX_MODE_TX_FINISH
  assume "sched_inv s"
  with TX_MODE_TX_FINISH show ?thesis by (simp only: sched_tx_finish)
qed (simp_all add: RF_2G4StatusCallBack_def sched_simps)

text \<open>The handlers.\<close>

lemma sched_fired_start: "sched_inv s \<Longrightarrow> \<not> rf_ok (Event RF_EVT_START env) s"
  by (simp add: sched_inv_def)

lemma sched_events_neutral:
  assumes "sched_inv s"
  shows "sched_inv (rf_deliver ee env RF_EVT_RX_RESTART s)" "sched_inv (rf_deliver ee env RF_EVT_RESPOND s)"
    "sched_inv (rf_deliver ee env RF_EVT_NOTIFY_LED s)" "sched_inv (rf_deliver ee env RF_EVT_DISCARD_HID s)"
    "sched_inv (rf_deliver ee env RF_EVT_SAVE_BOND s)" "sched_inv (rf_deliver ee env RF_EVT_PAIR_RX_OFF s)"
  using assms
  by (simp_all add: rf_deliver_def RF_ProcessEvent_def on_rx_restart_def rf_do_response_tx_def on_notify_led_def
      on_pair_rx_off_def Let_def sched_simps split: option.split)

lemma deliver_simps:
  "rf_deliver ee env RF_EVT_PAIR_BCAST s =
     (if rf_state s = RF_STATE_PAIRING then rf_pair_broadcast env (call (Fired RF_EVT_PAIR_BCAST) s) else call (Fired RF_EVT_PAIR_BCAST) s)"
  "rf_deliver ee env RF_EVT_PAIR_TIMEOUT s = on_pair_timeout (call (Fired RF_EVT_PAIR_TIMEOUT) s)"
  "rf_deliver ee env RF_EVT_DISCONNECT s = on_disconnect (call (Fired RF_EVT_DISCONNECT) s)"
  "rf_deliver ee env RF_EVT_REST_IDLE s = on_rest_idle (call (Fired RF_EVT_REST_IDLE) s)"
  "rf_deliver ee env RF_EVT_REST_PROBE s = on_rest_probe (call (Fired RF_EVT_REST_PROBE) s)"
  "rf_deliver ee env RF_EVT_REST_PROBE_TIMEOUT s = on_rest_probe_timeout (call (Fired RF_EVT_REST_PROBE_TIMEOUT) s)"
  "rf_deliver ee env RF_EVT_REST_STAGE2 s = on_rest_stage2 (call (Fired RF_EVT_REST_STAGE2) s)"
  by (simp_all add: rf_deliver_def RF_ProcessEvent_def Let_def call_def)

lemma sched_events_pair:
  assumes "sched_inv s"
  shows "sched_inv (rf_deliver ee env RF_EVT_PAIR_BCAST s)"
    "rf_ok (Event RF_EVT_PAIR_TIMEOUT env) s \<Longrightarrow> sched_inv (rf_deliver ee env RF_EVT_PAIR_TIMEOUT s)"
    "sched_inv (rf_deliver ee env RF_EVT_DISCONNECT s)"
  unfolding deliver_simps using assms
  by (cases "rf_state s"; cases "pair_flavor s";
      simp add: sched_defs rf_radio_defs rf_rest_defs on_pair_timeout_def on_disconnect_def Let_def)+

lemma sched_events_rest:
  assumes "sched_inv s"
  shows "sched_inv (rf_deliver ee env RF_EVT_REST_IDLE s)"
    "rf_ok (Event RF_EVT_REST_PROBE env) s \<Longrightarrow> sched_inv (rf_deliver ee env RF_EVT_REST_PROBE s)"
    "sched_inv (rf_deliver ee env RF_EVT_REST_PROBE_TIMEOUT s)"
    "sched_inv (rf_deliver ee env RF_EVT_REST_STAGE2 s)"
  unfolding deliver_simps using assms
  by (cases "rf_state s"; cases "rest_probe s"; cases "pair_flavor s";
      auto simp: sched_defs rf_rest_defs on_rest_idle_def on_rest_probe_def on_rest_probe_timeout_def
        on_rest_stage2_def Let_def)+

lemma enter_session_fields [simp]:
  "rf_state (enter_session env sil s) = RF_STATE_CONNECTED" "keyboard_mac_valid (enter_session env sil s) = keyboard_mac_valid s"
  "has_bond (bond (enter_session env sil s)) = has_bond (bond s)"
  "stored_session_aa (bond (enter_session env sil s)) = pending_session_aa s"
  "stored_dongle_mac (bond (enter_session env sil s)) = stored_dongle_mac (bond s)"
  "rf_access_addr (enter_session env sil s) = pending_session_aa s"
  "rf_conn_interval (enter_session env sil s) = pending_interval s"
  "rest_probe (enter_session env sil s) = rest_probe s" "rest_probe_wake (enter_session env sil s) = rest_probe_wake s"
  "rest_stage (enter_session env sil s) = rest_stage s" "rest_quiet_pending (enter_session env sil s) = rest_quiet_pending s"
  "response_pending (enter_session env sil s) = False" "bond_save_pending (enter_session env sil s) = (\<not> sil)"
  "hid (enter_session env sil s) = (hid s)\<lparr>hid_head_sent := False\<rparr>"
  "last_led_sent (enter_session env sil s) = last_led_sent s"
  by (simp_all add: enter_session_def Let_def rf_call_defs)

lemma enter_session_calls [simp]:
  "armed e (calls (enter_session env sil s)) =
     (e = RF_EVT_DISCONNECT
      \<or> (e \<notin> {RF_EVT_PAIR_BCAST, RF_EVT_PAIR_TIMEOUT, RF_EVT_PAIR_RX_OFF} \<and> armed e (calls s)))"
  "may_fire e (calls (enter_session env sil s)) =
     (e = RF_EVT_DISCONNECT
      \<or> (e \<notin> {RF_EVT_PAIR_BCAST, RF_EVT_PAIR_TIMEOUT, RF_EVT_PAIR_RX_OFF} \<and> may_fire e (calls s)))"
  by (auto simp: enter_session_def Let_def rf_call_defs)

lemma sched_event_enter:
  assumes s: "sched_inv s" and ok: "rf_ok (Event RF_EVT_ENTER_CONNECTED env) s"
  shows "sched_inv (rf_deliver ee env RF_EVT_ENTER_CONNECTED s)"
proof (cases "rf_state s = RF_STATE_PAIRING")
  case True
  then have "has_bond (bond s) \<and> 20 \<le> pending_interval s \<and> pending_interval s \<le> 40"
    using s ok by (simp add: sched_inv_def)
  with True s show ?thesis
    by (cases "rest_probe s"; cases "rest_probe_wake s"; cases "pair_flavor s")
      (simp_all add: sched_defs rf_deliver_def RF_ProcessEvent_def rf_enter_connected_def rf_rest_defs Let_def)
next
  case False
  with s show ?thesis
    by (cases "rf_state s"; cases "rest_probe s")
      (simp_all add: sched_defs rf_deliver_def RF_ProcessEvent_def rf_enter_connected_def call_def)
qed

end
