(* ===== verification/Rf_Reach.thy ===== *)
theory Rf_Reach
  imports Rf_World
begin

text \<open>
  The states the link task reaches, and what holds in all of them: the timers that are pending in each
  state, the radio being off wherever the module may sleep, the channel of a poll response, and the
  reports an acknowledgement retires.
\<close>

section \<open>The schedule of every reachable state\<close>

lemma identity_only:
  obtains m v where "rf_init_keyboard_identity cfg s = s\<lparr>keyboard_mac := m, keyboard_mac_valid := v\<rparr>"
proof -
  let ?t = "rf_init_keyboard_identity cfg s"
  have "?t = s\<lparr>keyboard_mac := keyboard_mac ?t, keyboard_mac_valid := keyboard_mac_valid ?t\<rparr>"
    by (cases "GetMACAddress cfg") (simp add: rf_init_keyboard_identity_def Let_def)
  then show ?thesis by (rule that)
qed

lemma sched_boot: "sched_inv (rf_boot cfg ee fl)"
proof -
  obtain m v where i: "rf_init_keyboard_identity cfg (rf_bss fl) = (rf_bss fl)\<lparr>keyboard_mac := m, keyboard_mac_valid := v\<rparr>"
    by (rule identity_only)
  show ?thesis
    unfolding rf_boot_def RF_TaskInit_def i Let_def
    by (simp add: rf_bss_def rf_call_defs sched_defs rf_deliver_def RF_ProcessEvent_def)
qed

lemma sched_event:
  assumes s: "sched_inv s" and ok: "rf_ok (Event e env) s"
  shows "sched_inv (rf_deliver ee env e s)"
proof -
  have msg: "sched_inv (rf_deliver ee env SYS_EVENT_MSG s)" if "e = SYS_EVENT_MSG"
  proof -
    have "sched_inv (call (Fired SYS_EVENT_MSG) s)"
      using s by (simp add: sched_defs call_def)
    then show ?thesis by (simp add: rf_deliver_def RF_ProcessEvent_def)
  qed
  have "e \<in> set rf_priority" using ok by simp
  then show ?thesis
    unfolding rf_priority_def list.set insert_iff empty_iff
    using msg sched_events_neutral [OF s] sched_events_pair [OF s] sched_events_rest [OF s]
      sched_event_enter [OF s] sched_fired_start [OF s] ok
    by (elim disjE) (simp_all only: simp_thms)
qed

lemma sched_exec: "sched_inv s \<Longrightarrow> rf_ok op s \<Longrightarrow> sched_inv (rf_exec ee op s)"
proof (cases op)
  case (Event e env)
  assume "sched_inv s" "rf_ok op s"
  then show ?thesis unfolding Event rf_exec.simps by (rule sched_event)
qed (simp_all add: sched_callback sched_tick sched_misc sched_select sched_pair sched_disconnect
    sched_clear sched_queue)

lemma sched_reach: "rf_reach cfg ee s \<Longrightarrow> sched_inv s"
  by (induction rule: rf_reach.induct) (simp_all only: sched_boot sched_exec)

text \<open>One rule for a fact about every delivery: it holds of what each handler makes of the state.\<close>

lemma deliver_cases:
  fixes P :: "'f rf_t \<Rightarrow> bool"
  defines "t e s \<equiv> call (Fired e) (s :: 'f rf_t)"
  assumes "P (t e s)"
    and "P (call Shut ((t e s)\<lparr>rf_state := RF_STATE_IDLE, rf_access_addr := RF_DEFAULT_ACCESS_ADDR,
                               rf_channel := pair_channels ! 0\<rparr>))"
    and "P (on_rx_restart env (t e s))"
    and "rf_state s = RF_STATE_PAIRING \<Longrightarrow> P (rf_pair_broadcast env (t e s))"
    and "P (on_pair_rx_off (t e s))" and "P (on_pair_timeout (t e s))"
    and "P (rf_enter_connected env (t e s))"
    and "rf_state s = RF_STATE_CONNECTED \<Longrightarrow> P (rf_do_response_tx env (t e s))"
    and "P (on_notify_led (t e s))"
    and "rf_state s = RF_STATE_IDLE \<Longrightarrow> P ((t e s)\<lparr>hid := rf_discard_hid_queue (hid s)\<rparr>)"
    and "P ((t e s)\<lparr>flash := rf_save_bond_to_flash ee (bond s) (flash s)\<rparr>)"
    and "P (on_rest_idle (t e s))" and "P (on_rest_probe (t e s))" and "P (on_rest_probe_timeout (t e s))"
    and "P (on_rest_stage2 (t e s))" and "P (on_disconnect (t e s))"
  shows "P (rf_deliver ee env e s)"
proof -
  have sel: "rf_state (t e s) = rf_state s" "hid (t e s) = hid s" "bond (t e s) = bond s" "flash (t e s) = flash s"
    by (simp_all add: t_def call_def)
  show ?thesis
    unfolding rf_deliver_def RF_ProcessEvent_def t_def [symmetric]
    using assms(2-) by (simp add: sel split: if_split del: rf_evt_defs)
qed

section \<open>Runs\<close>

text \<open>A sequence of operations, and that each is allowed where it happens.\<close>

definition rf_run :: "'f eeprom \<Rightarrow> rf_op list \<Rightarrow> 'f rf_t \<Rightarrow> 'f rf_t" where
  "rf_run ee ops s = fold (rf_exec ee) ops s"

fun rf_oks :: "'f eeprom \<Rightarrow> rf_op list \<Rightarrow> 'f rf_t \<Rightarrow> bool" where
  "rf_oks ee [] s = True"
| "rf_oks ee (op # ops) s = (rf_ok op s \<and> rf_oks ee ops (rf_exec ee op s))"

lemma rf_reach_run: "rf_reach cfg ee s \<Longrightarrow> rf_oks ee ops s \<Longrightarrow> rf_reach cfg ee (rf_run ee ops s)"
  by (induction ops arbitrary: s) (auto simp: rf_run_def intro: rf_reach_step)

text \<open>A keyboard with a stored bond that boots, beacons, catches its dongle and connects.\<close>

definition demo_cfg :: rf_config where
  "demo_cfg = \<lparr>KBD_FACTORY_MAC = False, KBD_MAC = [0xbd, 0xc3, 0xab, 0x10, 0x53, 0x5c], GetMACAddress = (0, [])\<rparr>"

definition demo_page :: "u8 list" where
  "demo_page = [0x4b, 0x42, 0x44, 0x32, 1, 3, 0, 0, 0x78, 0x56, 0x34, 0x12, 1, 2, 3, 4, 5, 6, 0, 0, 0x30, 2, 0, 0]"

definition demo_env :: "u32 \<Rightarrow> rf_env" where
  "demo_env t = \<lparr>cfg_status = 0, tx_status = 0, rtc_first = t, rtc_second = t\<rparr>"

definition demo_packet :: "u8 list" where
  "demo_packet = [0xc0, 15, 0x12, 0x34, 0x56, 0x78, 3, 28, 0, 0, 0, 1, 2, 3, 4, 5, 6]"

definition demo_connect :: "rf_op list" where
  "demo_connect =
     [Event RF_EVT_PAIR_BCAST (demo_env 0), Callback (demo_env 0) TX_MODE_TX_FINISH 0 None,
      Event RF_EVT_RX_RESTART (demo_env 0), Callback (demo_env 1000) RX_MODE_RX_DATA 0 (Some demo_packet),
      Event RF_EVT_ENTER_CONNECTED (demo_env 1010)]"

definition demo_boot :: "u8 list rf_t" where "demo_boot = rf_boot demo_cfg page_eeprom demo_page"
definition demo_connected :: "u8 list rf_t" where "demo_connected = rf_run page_eeprom demo_connect demo_boot"

lemma demo_boot_reach: "rf_reach demo_cfg page_eeprom demo_boot"
  unfolding demo_boot_def by (rule rf_reach_boot)

lemma demo_connected_oks: "rf_oks page_eeprom demo_connect demo_boot"
  by code_simp

lemma demo_connected_reach: "rf_reach demo_cfg page_eeprom demo_connected"
  unfolding demo_connected_def by (rule rf_reach_run [OF demo_boot_reach demo_connected_oks])

lemma demo_connected_state: "rf_state demo_connected = RF_STATE_CONNECTED"
  by code_simp

section \<open>Properties of the schedule\<close>

text \<open>
  C16: Every state of the link carries the timer that ends it, in every reachable state: a connection has
  its supervision timer pending and a poll interval of 20 to 40 ticks on the bonded access address, a
  pairing search its next beacon, a fresh pairing its timeout, and a search for the bonded dongle never
  has a timeout that could end it.
\<close>

theorem link_supervised:
  assumes "rf_reach cfg ee s"
  shows "(rf_state s = RF_STATE_CONNECTED \<longrightarrow>
            armed RF_EVT_DISCONNECT (calls s) \<and> has_bond (bond s)
            \<and> 20 \<le> rf_conn_interval s \<and> rf_conn_interval s \<le> 40
            \<and> rf_access_addr s = stored_session_aa (bond s))
       \<and> (rf_state s = RF_STATE_PAIRING \<longrightarrow> armed RF_EVT_PAIR_BCAST (calls s) \<and> keyboard_mac_valid s)
       \<and> (rf_state s = RF_STATE_PAIRING \<and> pair_flavor s = PAIR_FLAVOR_FRESH \<longrightarrow>
            armed RF_EVT_PAIR_TIMEOUT (calls s))
       \<and> (rf_state s = RF_STATE_PAIRING \<and> pair_flavor s = PAIR_FLAVOR_BONDED \<longrightarrow>
            \<not> may_fire RF_EVT_PAIR_TIMEOUT (calls s) \<and> has_bond (bond s))"
  using sched_reach [OF assms] by (simp add: sched_inv_def)

theorem link_supervised_witness:
  "rf_state demo_connected = RF_STATE_CONNECTED \<and> armed RF_EVT_DISCONNECT (calls demo_connected)
   \<and> rf_conn_interval demo_connected \<le> 40"
  using link_supervised [OF demo_connected_reach] demo_connected_state by simp

text \<open>
  C17: A resting keyboard never gets stuck: in every reachable state, while the radio rests the next probe
  and the second stage are scheduled or the second stage is reached, a probe in flight is in the search
  or connected and has its timeout pending, a probe that a key woke is still searching, and a real
  session always has its inactivity timer pending.  The cadence that comes while a woken probe still
  searches is among the deliveries.
\<close>

theorem rest_never_stuck:
  assumes "rf_reach cfg ee s"
  shows "(rf_state s = RF_STATE_RESTING \<longrightarrow>
            (rest_stage s = 1 \<and> armed RF_EVT_REST_PROBE (calls s) \<and> armed RF_EVT_REST_STAGE2 (calls s))
            \<or> rest_stage s = 2)
       \<and> (rest_probe s \<longrightarrow> rf_state s \<in> {RF_STATE_PAIRING, RF_STATE_CONNECTED}
            \<and> armed RF_EVT_REST_PROBE_TIMEOUT (calls s))
       \<and> (rest_probe_wake s \<longrightarrow> rest_probe s \<and> rf_state s = RF_STATE_PAIRING
            \<and> armed RF_EVT_PAIR_BCAST (calls s))
       \<and> (rf_state s = RF_STATE_CONNECTED \<and> \<not> rest_probe s \<longrightarrow> armed RF_EVT_REST_IDLE (calls s))"
  using sched_reach [OF assms]
  by (cases "rf_state s"; cases "pair_flavor s"; cases "rest_probe s")
    (simp_all add: sched_inv_def no_rest_def rest_sched_def)

definition demo_rest :: "rf_op list" where
  "demo_rest = [Event RF_EVT_REST_IDLE (demo_env 2000)]"

lemma demo_rest_oks: "rf_oks page_eeprom demo_rest demo_connected"
  unfolding demo_connected_def by code_simp

text \<open>The next probe is woken by a key: its timeout re-arms itself, and the cadence that comes while it is armed
  changes nothing.\<close>

definition demo_woken :: "rf_op list" where
  "demo_woken =
     [Event RF_EVT_REST_PROBE (demo_env 4000), Event RF_EVT_PAIR_BCAST (demo_env 4000),
      Queue [0, 0, 4, 0, 0, 0, 0, 0], Event RF_EVT_REST_PROBE_TIMEOUT (demo_env 4640),
      Event RF_EVT_REST_PROBE_TIMEOUT (demo_env 5280), Event RF_EVT_REST_PROBE (demo_env 5616)]"

lemma demo_woken_oks: "rf_oks page_eeprom (demo_rest @ demo_woken) demo_connected"
  unfolding demo_connected_def by code_simp

theorem rest_never_stuck_witness:
  "(let s = rf_run page_eeprom demo_rest demo_connected in
     rf_state s = RF_STATE_RESTING \<and> armed RF_EVT_REST_PROBE (calls s))
   \<and> (let s = rf_run page_eeprom (demo_rest @ demo_woken) demo_connected in
     rest_probe_wake s \<and> armed RF_EVT_PAIR_BCAST (calls s) \<and> armed RF_EVT_REST_PROBE_TIMEOUT (calls s))"
proof -
  have st: "rf_state (rf_run page_eeprom demo_rest demo_connected) = RF_STATE_RESTING"
    "rest_stage (rf_run page_eeprom demo_rest demo_connected) = 1"
    "rest_probe_wake (rf_run page_eeprom (demo_rest @ demo_woken) demo_connected)" by code_simp+
  show ?thesis
    using rest_never_stuck [OF rf_reach_run [OF demo_connected_reach demo_rest_oks]]
      rest_never_stuck [OF rf_reach_run [OF demo_connected_reach demo_woken_oks]] st
    by (simp add: Let_def)
qed

end
