(* ===== verification/Rf_Counters.thy ===== *)
theory Rf_Counters
  imports Rf_Diag Rf_Reach
begin

text \<open>
  The remaining diagnostic counters of \<^verbatim>\<open>firmware/src/rf_task.c\<close>: what the link task did, operation by operation.
  As in \<open>Rf_Diag\<close> the task only writes them, so each operation has a companion that updates the counters from
  the state the operation starts in.  The point is what a reader of the counters may conclude: after any
  run they agree with the calls the task made.
\<close>

section \<open>State\<close>

record rf_counts =
  rf_pair_bcast_count :: u32
  rf_connected_tx_count :: u32
  pwr_pair_rx_off_count :: u32
  rest_entries :: u32
  rest_probes :: u32
  rest_probe_catches :: u32
  rest_probe_misses :: u32
  rest_key_wakes :: u32
  rest_stage2_entries :: u32
  ll_hid_rx :: u32
  ll_hid_tx :: u32
  ll_hid_rx_down :: u32
  ll_hid_tx_down :: u32
  ll_hid_fifo_drop :: u32
  rf_last_config_status :: u8
  rf_last_rx_status :: u8
  rf_last_tx_status :: u8
  tmr0_irq_count :: u32
  entered_connected_count :: u32
  connected_tick_calls :: u32
  hop_advance_count :: u32
  rf_config_count :: u32
  last_rf_op :: u8
  ll_since_rx_max :: u16
  ll_desync_reseed :: u32
  ll_step_clamp :: u32
  ll_servo_plus :: u32
  ll_servo_minus :: u32
  ll_servo_noop :: u32

text \<open>\<open>RF_TaskInit\<close> zeroes them, but not the counters of the reports and of the resting policy.\<close>

definition rf_counts_init :: "rf_counts \<Rightarrow> rf_counts" where
  "rf_counts_init c =
     c\<lparr>rf_pair_bcast_count := 0, rf_connected_tx_count := 0, pwr_pair_rx_off_count := 0,
       rf_last_config_status := 0, rf_last_rx_status := 0, rf_last_tx_status := 0, tmr0_irq_count := 0,
       entered_connected_count := 0, connected_tick_calls := 0, hop_advance_count := 0, rf_config_count := 0,
       last_rf_op := 0, ll_since_rx_max := 0, ll_desync_reseed := 0, ll_step_clamp := 0,
       ll_servo_plus := 0, ll_servo_minus := 0, ll_servo_noop := 0\<rparr>"

section \<open>The radio\<close>

definition cnt_configure :: "rf_env \<Rightarrow> rf_counts \<Rightarrow> rf_counts" where
  "cnt_configure env c =
     c\<lparr>rf_config_count := rf_config_count c + 1, rf_last_config_status := cfg_status env\<rparr>"

definition cnt_configure_if_needed :: "rf_env \<Rightarrow> u32 \<Rightarrow> 'f rf_t \<Rightarrow> rf_counts \<Rightarrow> rf_counts" where
  "cnt_configure_if_needed env access_addr s c =
     (if \<not> rf_configured_valid s \<or> rf_configured_aa s \<noteq> access_addr then cnt_configure env c else c)"

text \<open>\<open>rx_status\<close> is what \<open>RF_Rx\<close> returned.\<close>

definition cnt_start_rx :: "rf_env \<Rightarrow> u8 \<Rightarrow> 'f rf_t \<Rightarrow> rf_counts \<Rightarrow> rf_counts" where
  "cnt_start_rx env rx_status s c =
     (let c = c\<lparr>last_rf_op := 1\<rparr>;
          c = cnt_configure_if_needed env (rf_access_addr s) s c
      in c\<lparr>rf_last_rx_status := rx_status\<rparr>)"

definition cnt_pair_broadcast :: "rf_env \<Rightarrow> 'f rf_t \<Rightarrow> rf_counts \<Rightarrow> rf_counts" where
  "cnt_pair_broadcast env s c =
     (if \<not> keyboard_mac_valid s then c
      else
        (let c = c\<lparr>last_rf_op := 2\<rparr>;
             c = cnt_configure_if_needed env (rf_access_addr s) s c;
             c = c\<lparr>rf_last_tx_status := tx_status env\<rparr>
         in c\<lparr>rf_pair_bcast_count := rf_pair_bcast_count c + 1\<rparr>))"

definition cnt_response_tx :: "rf_env \<Rightarrow> 'f rf_t \<Rightarrow> rf_counts \<Rightarrow> rf_counts" where
  "cnt_response_tx env s c =
     (if \<not> response_pending s then c
      else
        (let c = (case hid_select (hid s) of
                    Some head \<Rightarrow>
                      (let c = c\<lparr>ll_hid_tx := ll_hid_tx c + 1\<rparr> in
                       if report_down head then c\<lparr>ll_hid_tx_down := ll_hid_tx_down c + 1\<rparr> else c)
                  | None \<Rightarrow> c);
             c = c\<lparr>last_rf_op := 3\<rparr>;
             c = c\<lparr>rf_last_tx_status := tx_status env\<rparr>
         in c\<lparr>rf_connected_tx_count := rf_connected_tx_count c + 1\<rparr>))"

section \<open>Sessions and rest\<close>

text \<open>The receiver is started after the session's access address is in place.\<close>

definition cnt_enter_connected :: "rf_env \<Rightarrow> u8 \<Rightarrow> 'f rf_t \<Rightarrow> rf_counts \<Rightarrow> rf_counts" where
  "cnt_enter_connected env rx_status s c =
     (if rf_state s \<noteq> RF_STATE_PAIRING then c
      else
        (let c = c\<lparr>entered_connected_count := entered_connected_count c + 1\<rparr>
         in cnt_start_rx env rx_status (s\<lparr>rf_access_addr := pending_session_aa s\<rparr>) c))"

definition cnt_rest_enter :: "rf_counts \<Rightarrow> rf_counts" where
  "cnt_rest_enter c = c\<lparr>rest_entries := rest_entries c + 1\<rparr>"

definition cnt_rest_probe_start :: "'f rf_t \<Rightarrow> rf_counts \<Rightarrow> rf_counts" where
  "cnt_rest_probe_start s c =
     (if \<not> has_bond (bond s) \<or> \<not> keyboard_mac_valid s then c else c\<lparr>rest_probes := rest_probes c + 1\<rparr>)"

definition cnt_rest_probe_end :: "bool \<Rightarrow> rf_counts \<Rightarrow> rf_counts" where
  "cnt_rest_probe_end caught c =
     (if caught then c\<lparr>rest_probe_catches := rest_probe_catches c + 1\<rparr>
      else c\<lparr>rest_probe_misses := rest_probe_misses c + 1\<rparr>)"

definition cnt_queue :: "u8 list \<Rightarrow> 'f rf_t \<Rightarrow> rf_counts \<Rightarrow> rf_counts" where
  "cnt_queue report s c =
     (let c = c\<lparr>ll_hid_rx := ll_hid_rx c + 1\<rparr>;
          c = (if report_down report then c\<lparr>ll_hid_rx_down := ll_hid_rx_down c + 1\<rparr> else c);
          c = (if hid_changed report (hid s) \<and> \<not> unat (hid_fifo_tail (hid s) - hid_fifo_head (hid s)) < HID_FIFO_SLOTS
               then c\<lparr>ll_hid_fifo_drop := ll_hid_fifo_drop c + 1\<rparr> else c)
      in if rf_state s = RF_STATE_RESTING then cnt_rest_probe_start s (c\<lparr>rest_key_wakes := rest_key_wakes c + 1\<rparr>)
         else if rest_probe s then c\<lparr>rest_key_wakes := rest_key_wakes c + 1\<rparr>
         else c)"

section \<open>The events\<close>

definition cnt_event :: "rf_env \<Rightarrow> u8 \<Rightarrow> u16 \<Rightarrow> 'f rf_t \<Rightarrow> rf_counts \<Rightarrow> rf_counts" where
  "cnt_event env rx_status events s c =
     (if events AND SYS_EVENT_MSG \<noteq> 0 then c
      else if events AND RF_EVT_START \<noteq> 0 then c
      else if events AND RF_EVT_RX_RESTART \<noteq> 0 then
        (if rf_state s = RF_STATE_CONNECTED \<or> (rf_state s = RF_STATE_PAIRING \<and> pair_rx_open s)
         then cnt_start_rx env rx_status s c else c)
      else if events AND RF_EVT_PAIR_BCAST \<noteq> 0 then
        (if rf_state s = RF_STATE_PAIRING then cnt_pair_broadcast env s c else c)
      else if events AND RF_EVT_PAIR_RX_OFF \<noteq> 0 then
        (if rf_state s = RF_STATE_PAIRING \<and> pair_flavor s = PAIR_FLAVOR_BONDED
         then c\<lparr>pwr_pair_rx_off_count := pwr_pair_rx_off_count c + 1\<rparr> else c)
      else if events AND RF_EVT_PAIR_TIMEOUT \<noteq> 0 then c
      else if events AND RF_EVT_ENTER_CONNECTED \<noteq> 0 then cnt_enter_connected env rx_status s c
      else if events AND RF_EVT_RESPOND \<noteq> 0 then
        (if rf_state s = RF_STATE_CONNECTED then cnt_response_tx env s c else c)
      else if events AND RF_EVT_NOTIFY_LED \<noteq> 0 then c
      else if events AND RF_EVT_DISCARD_HID \<noteq> 0 then c
      else if events AND RF_EVT_SAVE_BOND \<noteq> 0 then c
      else if events AND RF_EVT_REST_IDLE \<noteq> 0 then
        (if rf_state s = RF_STATE_CONNECTED \<and> \<not> rest_probe s
            \<and> hid_fifo_tail (hid s) = hid_fifo_head (hid s) \<and> \<not> response_pending s \<and> \<not> hid_key_held (hid s)
         then cnt_rest_enter c else c)
      else if events AND RF_EVT_REST_PROBE \<noteq> 0 then
        (if rf_state s = RF_STATE_RESTING \<and> rest_stage s = 1 then cnt_rest_probe_start s c else c)
      else if events AND RF_EVT_REST_PROBE_TIMEOUT \<noteq> 0 then
        (if rest_probe s \<and> \<not> rest_probe_wake s then cnt_rest_probe_end False c else c)
      else if events AND RF_EVT_REST_STAGE2 \<noteq> 0 then
        (if rest_stage s = 1 then c\<lparr>rest_stage2_entries := rest_stage2_entries c + 1\<rparr> else c)
      else c)"

section \<open>The hop and the servo\<close>

definition cnt_hop :: "u16 \<Rightarrow> u32 \<Rightarrow> hop_t \<Rightarrow> rf_counts \<Rightarrow> rf_counts" where
  "cnt_hop interval now h c =
     (let elapsed = rtc_delta_32k now (hop_anchor h); iv = ucast interval in
      if provisional h then c
      else if iv * RF_HOP_DESYNC_INTERVALS < elapsed then c\<lparr>ll_desync_reseed := ll_desync_reseed c + 1\<rparr>
      else if iv < elapsed then
        (let c = (if RF_HOP_MAX_STEP < elapsed div iv then c\<lparr>ll_step_clamp := ll_step_clamp c + 1\<rparr> else c);
             since = (if since_rx h < 0xffff then since_rx h + 1 else since_rx h)
         in if ll_since_rx_max c < since then c\<lparr>ll_since_rx_max := since\<rparr> else c)
      else c)"

definition cnt_tick :: "rf_env \<Rightarrow> u8 \<Rightarrow> 'f rf_t \<Rightarrow> rf_counts \<Rightarrow> rf_counts" where
  "cnt_tick env rx_status s c =
     (if rf_state s \<noteq> RF_STATE_CONNECTED then c
      else
        (let c = c\<lparr>connected_tick_calls := connected_tick_calls c + 1\<rparr> in
         if rest_quiet_pending s \<and> \<not> response_pending s then cnt_rest_probe_end True c
         else
           (let interval = (if rf_conn_interval s \<noteq> 0 then rf_conn_interval s else RF_PAIR_INTERVAL) in
            if response_pending s \<and> rtc_delta_32k (rtc_first env) (response_armed_rtc s) \<le> ucast interval * 2 then c
            else
              (let c = cnt_hop interval (rtc_second env) (hop s) c in
               if snd (hop_advance interval (rtc_second env) (hop s))
               then cnt_start_rx env rx_status s (c\<lparr>hop_advance_count := hop_advance_count c + 1\<rparr>)
               else c))))"

definition cnt_servo :: "u32 \<Rightarrow> u32 \<Rightarrow> rf_counts \<Rightarrow> rf_counts" where
  "cnt_servo ref anchor c =
     (let err = rtc_signed_delta_32k ref anchor in
      if SERVO_DEADBAND < err then c\<lparr>ll_servo_plus := ll_servo_plus c + 1\<rparr>
      else if err < - SERVO_DEADBAND then c\<lparr>ll_servo_minus := ll_servo_minus c + 1\<rparr>
      else c\<lparr>ll_servo_noop := ll_servo_noop c + 1\<rparr>)"

definition cnt_callback :: "rf_env \<Rightarrow> rf_sta \<Rightarrow> u8 \<Rightarrow> u8 list option \<Rightarrow> 'f rf_t \<Rightarrow> rf_counts \<Rightarrow> rf_counts" where
  "cnt_callback env sta rsr rxBuf s c =
     (case (sta, rxBuf) of
        (RX_MODE_RX_DATA, Some rx) \<Rightarrow>
          (if rsr = 0 \<and> rf_state s = RF_STATE_CONNECTED \<and> rx ! 1 \<in> {1, 3, 10}
           then cnt_servo (rtc_backdate_32k (rtc_first env) (RF_POLL_BACKDATE_BASE + drop_bit 3 (ucast (rx ! 1))))
                  (hop_anchor (hop s)) c
           else c)
      | _ \<Rightarrow> c)"

text \<open>Every operation of the task; the calls of the main loop other than a report count nothing.\<close>

fun cnt_exec :: "rf_op \<Rightarrow> u8 \<Rightarrow> 'f rf_t \<Rightarrow> rf_counts \<Rightarrow> rf_counts" where
  "cnt_exec (Event e env) st s c = cnt_event env st e s c"
| "cnt_exec (Callback env sta rsr rxBuf) st s c = cnt_callback env sta rsr rxBuf s c"
| "cnt_exec (Tick env) st s c = cnt_tick env st s c"
| "cnt_exec (Tmr0 cyc_end) st s c = c\<lparr>tmr0_irq_count := tmr0_irq_count c + 1\<rparr>"
| "cnt_exec (Queue r) st s c = cnt_queue r s c"
| "cnt_exec op st s c = c"

section \<open>What the calls say\<close>

fun config_calls :: "hw_call list \<Rightarrow> u32" where
  "config_calls [] = 0"
| "config_calls (Config aa st # l) = config_calls l + 1"
| "config_calls (_ # l) = config_calls l"

fun tx_calls :: "hw_call list \<Rightarrow> u32" where
  "tx_calls [] = 0"
| "tx_calls (Tx bs st # l) = tx_calls l + 1"
| "tx_calls (_ # l) = tx_calls l"

fun last_tx :: "hw_call list \<Rightarrow> u8" where
  "last_tx [] = 0"
| "last_tx (Tx bs st # l) = st"
| "last_tx (_ # l) = last_tx l"

fun last_config :: "hw_call list \<Rightarrow> u8" where
  "last_config [] = 0"
| "last_config (Config aa st # l) = st"
| "last_config (_ # l) = last_config l"

fun sessions :: "hw_call list \<Rightarrow> u32" where
  "sessions [] = 0"
| "sessions (Tmr0_Enable # l) = sessions l + 1"
| "sessions (_ # l) = sessions l"

text \<open>Both sides as one value: what the counters claim, and what the calls say.\<close>

definition claimed :: "rf_counts \<Rightarrow> u32 \<times> u8 \<times> u32 \<times> u8 \<times> u32" where
  "claimed c = (rf_config_count c, rf_last_config_status c, rf_pair_bcast_count c + rf_connected_tx_count c,
     rf_last_tx_status c, entered_connected_count c)"

definition said :: "'f rf_t \<Rightarrow> u32 \<times> u8 \<times> u32 \<times> u8 \<times> u32" where
  "said s = (config_calls (calls s), last_config (calls s), tx_calls (calls s), last_tx (calls s), sessions (calls s))"

section \<open>Lemmas\<close>

text \<open>The calls that nothing here counts.\<close>

fun uncounted :: "hw_call \<Rightarrow> bool" where
  "uncounted (Config aa st) = False"
| "uncounted (Tx bs st) = False"
| "uncounted Tmr0_Enable = False"
| "uncounted _ = True"

lemma said_call [simp]: "uncounted k \<Longrightarrow> said (call k s) = said s"
  by (cases k) (simp_all add: said_def)

lemma said_calls: "calls s = calls t \<Longrightarrow> said s = said t"
  by (simp add: said_def)

text \<open>A record update of the other fields leaves it alone; so does every helper that only stops and starts
  timers.\<close>

lemma said_rest [simp]:
  "said (rest_cancel s) = said s" "said (rest_arm_idle s) = said s" "said (rest_go_quiet s) = said s"
  "said (rest_enter s) = said s" "said (rest_probe_start s) = said s" "said (rest_probe_end b s) = said s"
  "said (rest_promote_to_normal s) = said s"
  by (simp_all add: said_def rf_rest_defs Let_def)

lemma said_main [simp]:
  "said (fst (RF_Select2G4 s)) = said s" "said (fst (RF_EnterPairing s)) = said s" "said (RF_Disconnect s) = said s"
  "said (RF_DropQueueUnlessReselected s) = said s" "said (RF_FlushBondSave ee s) = said s"
  "said (RF_ClearBond ee s) = said s" "said (RF_QueueHIDReport r s) = said s" "said (RF_LedResync s) = said s"
  "said (TMR0_IRQHandler b s) = said s"
  by (simp_all add: said_def RF_Select2G4_def RF_EnterPairing_def RF_Disconnect_def RF_DropQueueUnlessReselected_def
      RF_FlushBondSave_def RF_ClearBond_def RF_QueueHIDReport_def RF_LedResync_def TMR0_IRQHandler_def rf_rest_defs Let_def)

lemma said_events [simp]:
  "said (on_pair_rx_off s) = said s" "said (on_pair_timeout s) = said s" "said (on_notify_led s) = said s"
  "said (on_rest_idle s) = said s" "said (on_rest_probe s) = said s" "said (on_rest_probe_timeout s) = said s"
  "said (on_rest_stage2 s) = said s" "said (on_disconnect s) = said s"
  by (simp_all add: said_def on_pair_rx_off_def on_pair_timeout_def on_notify_led_def on_rest_idle_def on_rest_probe_def
      on_rest_probe_timeout_def on_rest_stage2_def on_disconnect_def rf_rest_defs Let_def)

lemma said_callback [simp]: "said (RF_2G4StatusCallBack env sta rsr rx s) = said s"
proof -
  have c: "said (rf_connected_rx env p s) = said s" for p and s :: "'a rf_t"
    by (simp add: said_def rf_connected_rx_def rf_call_defs Let_def)
  have p: "rf_pair_rx env p s = Some s' \<Longrightarrow> said s' = said s" for p and s s' :: "'a rf_t"
    by (auto simp: said_def rf_pair_rx_def rf_call_defs Let_def split: if_splits)
  have f: "said (s\<lparr>rf_rssi := v\<rparr>) = said s" for v and s :: "'a rf_t" by (simp add: said_def)
  show ?thesis
    by (cases sta; cases rx)
      (auto simp: RF_2G4StatusCallBack_def rf_call_defs Let_def c f said_def [of "_\<lparr>response_pending := _\<rparr>"]
          said_def [of s] split: option.split dest!: p)
qed

text \<open>The operations that are counted.\<close>

lemma true_start_rx:
  assumes "claimed c = said s"
  shows "claimed (cnt_start_rx env st s c) = said (rf_start_rx env ch s)"
  using assms
  by (auto simp: claimed_def said_def cnt_start_rx_def cnt_configure_if_needed_def cnt_configure_def rf_start_rx_def
      rf_configure_if_needed_def rf_configure_def Let_def)

lemma true_pair_broadcast:
  assumes "claimed c = said s"
  shows "claimed (cnt_pair_broadcast env s c) = said (rf_pair_broadcast env s)"
  using assms
  by (auto simp: claimed_def said_def cnt_pair_broadcast_def cnt_configure_if_needed_def cnt_configure_def
      rf_pair_broadcast_def rf_configure_if_needed_def rf_configure_def rf_call_defs Let_def ac_simps)

lemma true_response:
  assumes "claimed c = said s"
  shows "claimed (cnt_response_tx env s c) = said (rf_do_response_tx env s)"
  using assms
  by (cases "hid_select (hid s)")
    (auto simp: claimed_def said_def cnt_response_tx_def rf_do_response_tx_def rf_call_defs Let_def ac_simps)

lemma true_enter:
  assumes "claimed c = said s"
  shows "claimed (cnt_enter_connected env st s c) = said (rf_enter_connected env s)"
proof (cases "rf_state s = RF_STATE_PAIRING")
  case True
  let ?c = "cnt_enter_connected env st s c"
  have "claimed ?c = said (enter_session env silent s)" for silent
    using assms True
    by (auto simp: claimed_def said_def cnt_enter_connected_def cnt_start_rx_def cnt_configure_if_needed_def
        cnt_configure_def enter_session_def rf_start_rx_def rf_configure_if_needed_def rf_configure_def rf_call_defs Let_def)
  with True show ?thesis
    by (simp add: rf_enter_connected_def Let_def said_def [of "_\<lparr>last_led_sent := _\<rparr>"] flip: said_def)
next
  case False
  with assms show ?thesis by (simp add: cnt_enter_connected_def rf_enter_connected_def)
qed

lemma claimed_small [simp]:
  "claimed (cnt_rest_enter c) = claimed c" "claimed (cnt_rest_probe_start s c) = claimed c"
  "claimed (cnt_rest_probe_end b c) = claimed c" "claimed (cnt_queue r s c) = claimed c"
  "claimed (cnt_hop iv now h c) = claimed c" "claimed (cnt_servo ref a c) = claimed c"
  "claimed (cnt_callback env sta rsr rx s c) = claimed c"
  "claimed (c\<lparr>tmr0_irq_count := v1\<rparr>) = claimed c" "claimed (c\<lparr>pwr_pair_rx_off_count := v2\<rparr>) = claimed c"
  "claimed (c\<lparr>rest_stage2_entries := v3\<rparr>) = claimed c" "claimed (c\<lparr>connected_tick_calls := v4\<rparr>) = claimed c"
  "claimed (c\<lparr>hop_advance_count := v5\<rparr>) = claimed c"
  by (auto simp: claimed_def cnt_rest_enter_def cnt_rest_probe_start_def cnt_rest_probe_end_def cnt_queue_def cnt_hop_def
      cnt_servo_def cnt_callback_def Let_def split: rf_sta.split option.split)

lemma cnt_start_rx_cong:
  "rf_configured_valid t = rf_configured_valid s \<Longrightarrow> rf_configured_aa t = rf_configured_aa s \<Longrightarrow>
   rf_access_addr t = rf_access_addr s \<Longrightarrow> cnt_start_rx env st t c = cnt_start_rx env st s c"
  by (simp add: cnt_start_rx_def cnt_configure_if_needed_def)

lemma cnt_tick_unfold:
  "cnt_tick env st s c =
     (if rf_state s \<noteq> RF_STATE_CONNECTED then c
      else if rest_quiet_pending s \<and> \<not> response_pending s
      then cnt_rest_probe_end True (c\<lparr>connected_tick_calls := connected_tick_calls c + 1\<rparr>)
      else if response_pending s \<and> rtc_delta_32k (rtc_first env) (response_armed_rtc s) \<le> ucast (conn_interval s) * 2
      then c\<lparr>connected_tick_calls := connected_tick_calls c + 1\<rparr>
      else
        (let d = cnt_hop (conn_interval s) (rtc_second env) (hop s) (c\<lparr>connected_tick_calls := connected_tick_calls c + 1\<rparr>)
         in if snd (hop_advance (conn_interval s) (rtc_second env) (hop s))
            then cnt_start_rx env st s (d\<lparr>hop_advance_count := hop_advance_count d + 1\<rparr>) else d))"
  by (simp add: cnt_tick_def conn_interval_def Let_def)

lemma true_tick:
  assumes "claimed c = said s"
  shows "claimed (cnt_tick env st s c) = said (RF_ConnectedTick env s)"
proof -
  let ?k = "kicked s" and ?a = "hop_advance (conn_interval (kicked s)) (rtc_second env) (hop (kicked s))"
  let ?t = "?k\<lparr>response_pending := False, hop := fst ?a\<rparr>"
  have k: "said ?k = said s" "rf_configured_valid ?k = rf_configured_valid s" "rf_configured_aa ?k = rf_configured_aa s"
    "rf_access_addr ?k = rf_access_addr s" "rf_conn_interval ?k = rf_conn_interval s"
    "response_armed_rtc ?k = response_armed_rtc s" "response_pending ?k = response_pending s" "hop ?k = hop s" "conn_interval ?k = conn_interval s"
    by (simp_all add: kicked_def conn_interval_def said_def rf_call_defs)
  have t: "said ?t = said s" using k(1) by (simp add: said_def)
  have rx: "claimed (cnt_start_rx env st s d) = said (rf_start_rx env ch ?t)" if "claimed d = said s" for d ch
    using true_start_rx [of d ?t env st ch] that t cnt_start_rx_cong [of ?t s env st d] k by simp
  have hop: "claimed (cnt_start_rx env st s (cnt_hop iv now h (c\<lparr>connected_tick_calls := n\<rparr>)\<lparr>hop_advance_count := m\<rparr>))
      = said (rf_start_rx env ch ?t)" for iv now h n m ch
    by (rule rx) (simp add: assms)
  show ?thesis
    using assms k t by (simp add: tick_unfold cnt_tick_unfold Let_def hop [unfolded k])
qed

lemma cnt_call [simp]:
  "cnt_start_rx env st (call k s) c = cnt_start_rx env st s c"
  "cnt_pair_broadcast env (call k s) c = cnt_pair_broadcast env s c"
  "cnt_response_tx env (call k s) c = cnt_response_tx env s c"
  "cnt_rest_probe_start (call k s) c = cnt_rest_probe_start s c"
  "cnt_enter_connected env st (call k s) c = cnt_enter_connected env st s c"
  by (simp_all add: cnt_start_rx_def cnt_configure_if_needed_def cnt_pair_broadcast_def cnt_enter_connected_def
      cnt_response_tx_def cnt_rest_probe_start_def)

lemma true_event:
  assumes "claimed c = said s"
  shows "claimed (cnt_event env st e s c) = said (rf_deliver ee env e s)"
proof -
  let ?t = "call (Fired e) s"
  have t: "claimed c = said ?t" using assms by simp
  have rx: "said (on_rx_restart env ?t) =
      (if rf_state s = RF_STATE_CONNECTED \<or> (rf_state s = RF_STATE_PAIRING \<and> pair_rx_open s)
       then claimed (cnt_start_rx env st s c) else claimed c)"
    using t true_start_rx [OF t, of env st "rf_channel ?t"]
    by (auto simp: on_rx_restart_def Let_def rf_call_defs said_def)
  have small: "said (call Shut (?t\<lparr>rf_state := RF_STATE_IDLE, rf_access_addr := a, rf_channel := ch\<rparr>)) = claimed c"
    "said (?t\<lparr>hid := h\<rparr>) = claimed c" "said (?t\<lparr>flash := f\<rparr>) = claimed c" for a ch h f
    using t by (simp_all add: said_def)
  have big: "said (rf_pair_broadcast env ?t) = claimed (cnt_pair_broadcast env s c)"
    "said (rf_do_response_tx env ?t) = claimed (cnt_response_tx env s c)"
    "said (rf_enter_connected env ?t) = claimed (cnt_enter_connected env st s c)"
    using true_pair_broadcast [OF t, of env] true_response [OF t, of env] true_enter [OF t, of env st] by simp_all
  note push = if_distrib [of claimed] if_distrib [of said] if_distrib [of fst] fst_conv
  show ?thesis
    unfolding rf_deliver_def RF_ProcessEvent_def cnt_event_def push rx small big said_events claimed_small
      t [symmetric] call_fields
    by (simp only: if_cancel)
qed

lemma true_exec:
  assumes "claimed c = said s"
  shows "claimed (cnt_exec op st s c) = said (rf_exec ee op s)"
  using assms by (cases op) (simp_all add: true_event true_tick)

section \<open>Properties\<close>

fun cnt_run :: "'f eeprom \<Rightarrow> (rf_op \<times> u8) list \<Rightarrow> 'f rf_t \<Rightarrow> rf_counts \<Rightarrow> rf_counts" where
  "cnt_run ee [] s c = c"
| "cnt_run ee ((op, st) # ops) s c = cnt_run ee ops (rf_exec ee op s) (cnt_exec op st s c)"

lemma true_run: "claimed c = said s \<Longrightarrow> claimed (cnt_run ee ops s c) = said (rf_run ee (map fst ops) s)"
  by (induction ee ops s c rule: cnt_run.induct) (simp_all add: rf_run_def true_exec)

lemma said_boot: "said (rf_boot cfg ee fl) = (0, 0, 0, 0, 0)"
proof -
  have "RF_TaskInit cfg ee True (rf_bss fl) = Some s \<Longrightarrow> said s = (0, 0, 0, 0, 0)" for s
    by (auto simp: RF_TaskInit_def said_def rf_call_defs rf_bss_def rf_init_keyboard_identity_def Let_def
        split: if_splits prod.splits)
  moreover have "said (rf_deliver ee env RF_EVT_START s) = said s" for env s
    by (simp add: rf_deliver_def RF_ProcessEvent_def) (simp add: said_def)
  moreover have "said (rf_bss fl) = (0, 0, 0, 0, 0)" by (simp add: said_def rf_bss_def)
  ultimately show ?thesis by (auto simp: rf_boot_def split: option.split)
qed

text \<open>
  The counters tell what the radio was told.  After boot and any operations of the link task, in any order,
  the number of configurations, of transmissions (beacons and responses together) and of sessions entered are
  those of the calls made, modulo the counters' width, and the last status recorded of a configuration and
  of a transmission is the one its last call returned.
\<close>
theorem counters_tell_calls:
  fixes ee :: "'f eeprom" and cfg :: rf_config and fl :: 'f and c0 :: rf_counts and ops :: "(rf_op \<times> u8) list"
  defines "s \<equiv> rf_run ee (map fst ops) (rf_boot cfg ee fl)"
    and "c \<equiv> cnt_run ee ops (rf_boot cfg ee fl) (rf_counts_init c0)"
  shows "rf_config_count c = config_calls (calls s) \<and> rf_last_config_status c = last_config (calls s)
       \<and> rf_pair_bcast_count c + rf_connected_tx_count c = tx_calls (calls s) \<and> rf_last_tx_status c = last_tx (calls s)
       \<and> entered_connected_count c = sessions (calls s)"
proof -
  have "claimed (rf_counts_init c0) = said (rf_boot cfg ee fl)"
    by (simp add: said_boot claimed_def rf_counts_init_def)
  from true_run [OF this, of ee ops] show ?thesis by (simp add: claimed_def said_def s_def c_def)
qed

text \<open>What was handed in and what was lost: every report counts, and a full ring counts what it coalesces.\<close>

lemma hid_rx_small [simp]:
  "ll_hid_rx (cnt_start_rx env st s c) = ll_hid_rx c" "ll_hid_rx (cnt_pair_broadcast env s c) = ll_hid_rx c"
  "ll_hid_rx (cnt_response_tx env s c) = ll_hid_rx c" "ll_hid_rx (cnt_enter_connected env st s c) = ll_hid_rx c"
  "ll_hid_rx (cnt_rest_probe_start s c) = ll_hid_rx c" "ll_hid_rx (cnt_rest_probe_end b c) = ll_hid_rx c"
  "ll_hid_rx (cnt_rest_enter c) = ll_hid_rx c" "ll_hid_rx (cnt_hop iv now h c) = ll_hid_rx c"
  "ll_hid_rx (cnt_callback env sta rsr rx s c) = ll_hid_rx c"
  by (auto simp: cnt_start_rx_def cnt_configure_if_needed_def cnt_configure_def cnt_pair_broadcast_def cnt_response_tx_def
      cnt_enter_connected_def cnt_rest_probe_start_def cnt_rest_probe_end_def cnt_rest_enter_def cnt_hop_def
      cnt_callback_def cnt_servo_def Let_def split: rf_sta.split option.split)

lemma cnt_queue_reports:
  "ll_hid_rx (cnt_exec op st s c) = ll_hid_rx c + (case op of Queue r \<Rightarrow> 1 | _ \<Rightarrow> 0)"
  by (cases op)
    (simp_all add: cnt_event_def cnt_tick_def cnt_queue_def Let_def if_distrib [of ll_hid_rx] cong: if_cong del: rf_evt_defs split del: if_split)

theorem reports_counted:
  "ll_hid_rx (cnt_run ee ops s c) = ll_hid_rx c + of_nat (length (filter (\<lambda>x. \<exists>r. fst x = Queue r) ops))"
  by (induction ee ops s c rule: cnt_run.induct) (auto simp: cnt_queue_reports split: rf_op.splits)

end
