(* ===== verification/Rf_Radio.thy ===== *)
theory Rf_Radio
  imports Rf_Reach
begin

text \<open>
  The radio and the report queue in every reachable state of the link task: the radio is off wherever the
  module may sleep, a poll response goes out on the channel the poll arrived on, and an acknowledgement
  retires only a report that was transmitted in the same session.
\<close>

section \<open>The radio\<close>

definition radio_inv :: "'f rf_t \<Rightarrow> bool" where
  "radio_inv s \<longleftrightarrow>
     (rf_state s = RF_STATE_IDLE \<longrightarrow> radio_off (calls s))
   \<and> (rf_state s = RF_STATE_RESTING \<longrightarrow> radio_off (calls s))
   \<and> (rf_state s = RF_STATE_PAIRING \<and> pair_flavor s = PAIR_FLAVOR_BONDED \<and> \<not> pair_rx_open s \<longrightarrow>
        radio_off (calls s))
   \<and> (rf_state s = RF_STATE_CONNECTED \<longrightarrow>
        tuned (calls s) = Some (rf_channel s) \<and> unat (prev_data_idx (hop s)) < 5
        \<and> rf_channel s = data_channels ! unat (prev_data_idx (hop s))
        \<and> (response_pending s \<longrightarrow> response_channel s = rf_channel s))"

lemma mod5_less: "unat (ucast ((x :: u32) mod 5) :: u8) < 5"
proof -
  have "unat (x mod 5) = unat x mod 5" by (simp add: unat_mod)
  then have "unat (x mod 5) < 5" by simp
  then show ?thesis by (simp add: unsigned_ucast_eq take_bit_eq_mod del: unsigned_take_bit_eq)
qed

lemma advance_idx: "unat (prev_data_idx h) < 5 \<Longrightarrow> unat (prev_data_idx (fst (hop_advance iv now h))) < 5"
  by (simp add: hop_advance_def Let_def NUM_DATA_CHANNELS_def mod5_less)

lemma advance_idle: "\<not> snd (hop_advance iv now h) \<Longrightarrow> fst (hop_advance iv now h) = h"
  by (simp add: hop_advance_def Let_def split: if_splits)

lemma enter_session_radio:
  "tuned (calls (enter_session env sil s)) = Some (rf_channel (enter_session env sil s))"
  "unat (prev_data_idx (hop (enter_session env sil s))) < 5"
  "rf_channel (enter_session env sil s) = data_channels ! unat (prev_data_idx (hop (enter_session env sil s)))"
  by (simp_all add: enter_session_def Let_def rf_call_defs NUM_DATA_CHANNELS_def mod5_less)

lemma radio_select: "radio_inv s \<Longrightarrow> radio_inv (fst (RF_Select2G4 s))"
  unfolding RF_Select2G4_def Let_def
  by (cases "rf_state s"; cases "has_bond (bond s)"; cases "rest_probe s") (simp_all add: radio_inv_def rf_rest_defs)

lemma radio_pair: "radio_inv s \<Longrightarrow> radio_inv (fst (RF_EnterPairing s))"
  by (simp add: radio_inv_def RF_EnterPairing_def rf_rest_defs Let_def)

lemma radio_disconnect: "radio_inv (RF_Disconnect s)"
  by (simp add: radio_inv_def RF_Disconnect_def rf_rest_defs Let_def)

lemma radio_queue: "radio_inv s \<Longrightarrow> radio_inv (RF_QueueHIDReport r s)"
  by (cases "rf_state s"; cases "rest_probe s")
    (simp_all add: radio_inv_def RF_QueueHIDReport_def rf_rest_defs Let_def)

lemma radio_misc:
  assumes "radio_inv s"
  shows "radio_inv (RF_DropQueueUnlessReselected s)" and "radio_inv (RF_FlushBondSave ee s)"
    and "radio_inv (RF_LedResync s)" and "radio_inv (TMR0_IRQHandler c s)" and "radio_inv (RF_ClearBond ee s)"
  using assms
  by (simp_all add: radio_inv_def RF_DropQueueUnlessReselected_def RF_FlushBondSave_def RF_LedResync_def
      TMR0_IRQHandler_def RF_ClearBond_def rf_rest_defs Let_def)

lemma radio_tick: "radio_inv s \<Longrightarrow> radio_inv (RF_ConnectedTick env s)"
proof (cases "rf_state s = RF_STATE_CONNECTED")
  case True
  assume s: "radio_inv s"
  let ?a = "hop_advance (conn_interval (kicked s)) (rtc_second env) (hop s)"
  have q: "radio_inv (rest_probe_end c s)" for c
    by (simp add: radio_inv_def rf_rest_defs Let_def)
  have i: "unat (prev_data_idx (fst ?a)) < 5" using s True by (simp add: radio_inv_def advance_idx)
  show ?thesis
    using s True q i advance_idle [of "conn_interval (kicked s)" "rtc_second env" "hop s"]
    by (cases "snd ?a") (simp_all add: tick_unfold radio_inv_def)
qed (simp add: tick_unfold)

lemma radio_pair_rx: "radio_inv s \<Longrightarrow> rf_state s = RF_STATE_PAIRING \<Longrightarrow> pred_option radio_inv (rf_pair_rx env rx s)"
  by (simp add: radio_inv_def rf_pair_rx_def rf_call_defs Let_def)

lemma radio_connected_rx: "radio_inv s \<Longrightarrow> rf_state s = RF_STATE_CONNECTED \<Longrightarrow> radio_inv (rf_connected_rx env rx s)"
  by (simp add: radio_inv_def rf_connected_rx_def rf_call_defs Let_def)

lemma radio_callback:
  assumes s: "radio_inv s"
  shows "radio_inv (RF_2G4StatusCallBack env sta rsr rxBuf s)"
proof (cases "sta = RX_MODE_RX_DATA \<and> rxBuf \<noteq> None")
  case True
  then obtain rx where rx: "sta = RX_MODE_RX_DATA" "rxBuf = Some rx" by blast
  let ?s = "s\<lparr>rf_rssi := rx ! 0\<rparr>"
  have s': "radio_inv ?s" using s by (simp add: radio_inv_def)
  have e: "radio_inv (rf_set_event_atomic e t)" if "radio_inv t" for e and t :: "'a rf_t"
    using that by (simp add: radio_inv_def rf_call_defs)
  have p: "rf_state s = RF_STATE_PAIRING \<Longrightarrow> rf_pair_rx env rx ?s = Some t \<Longrightarrow> radio_inv t" for t
    using radio_pair_rx [OF s', of env rx] by simp
  show ?thesis
    using s e [OF s] e [OF s'] p radio_connected_rx [OF s', of env rx]
    by (auto simp: rx RF_2G4StatusCallBack_def Let_def split: option.split)
next
  case False
  with s show ?thesis
    by (cases sta) (auto simp: radio_inv_def RF_2G4StatusCallBack_def rf_call_defs Let_def)
qed

lemma radio_do_tx: "radio_inv s \<Longrightarrow> rf_state s = RF_STATE_CONNECTED \<Longrightarrow> radio_inv (rf_do_response_tx env s)"
  by (simp add: radio_inv_def rf_do_response_tx_def rf_call_defs Let_def split: option.split)

lemma radio_enter: "radio_inv s \<Longrightarrow> radio_inv (rf_enter_connected env s)"
  by (simp add: radio_inv_def rf_enter_connected_def rf_rest_defs Let_def enter_session_radio)

lemma radio_broadcast: "rf_state s = RF_STATE_PAIRING \<Longrightarrow> radio_inv (rf_pair_broadcast env s)"
  by (simp add: radio_inv_def rf_pair_broadcast_def rf_configure_if_needed_def rf_configure_def rf_call_defs Let_def)

lemma radio_restart: "radio_inv s \<Longrightarrow> radio_inv (on_rx_restart env s)"
  by (simp add: radio_inv_def on_rx_restart_def rf_call_defs Let_def)

lemma radio_handlers:
  assumes "radio_inv s"
  shows "radio_inv (on_pair_rx_off s)" "radio_inv (on_pair_timeout s)" "radio_inv (on_notify_led s)"
    "radio_inv (on_rest_idle s)" "radio_inv (on_rest_probe s)" "radio_inv (on_rest_probe_timeout s)"
    "radio_inv (on_rest_stage2 s)" "radio_inv (on_disconnect s)"
  using assms
  by (simp_all add: radio_inv_def on_pair_rx_off_def on_pair_timeout_def on_notify_led_def on_rest_idle_def
      on_rest_probe_def on_rest_probe_timeout_def on_rest_stage2_def on_disconnect_def rf_rest_defs Let_def)

lemma radio_deliver: "radio_inv s \<Longrightarrow> radio_inv (rf_deliver ee env e s)"
proof -
  assume "radio_inv s"
  then have f: "radio_inv (call (Fired e) s)" by (simp add: radio_inv_def call_def)
  then have h: "radio_inv ((call (Fired e) s)\<lparr>hid := h\<rparr>)" "radio_inv ((call (Fired e) s)\<lparr>flash := fl\<rparr>)" for h fl
    by (simp_all add: radio_inv_def call_def)
  have st: "radio_inv (call Shut (t\<lparr>rf_state := RF_STATE_IDLE, rf_access_addr := aa, rf_channel := ch\<rparr>))" for aa ch and t :: "'a rf_t"
    by (simp add: radio_inv_def call_def)
  show ?thesis
    by (rule deliver_cases)
      (simp_all add: f h st radio_do_tx [OF f] radio_enter [OF f] radio_broadcast radio_restart [OF f] radio_handlers [OF f])
qed

lemma radio_boot: "radio_inv (rf_boot cfg ee fl)"
proof -
  obtain m v where i: "rf_init_keyboard_identity cfg (rf_bss fl) = (rf_bss fl)\<lparr>keyboard_mac := m, keyboard_mac_valid := v\<rparr>"
    by (rule identity_only)
  show ?thesis
    unfolding rf_boot_def RF_TaskInit_def i Let_def
    by (simp add: rf_bss_def rf_call_defs radio_inv_def rf_deliver_def RF_ProcessEvent_def)
qed

lemma radio_reach: "rf_reach cfg ee s \<Longrightarrow> radio_inv s"
proof (induction rule: rf_reach.induct)
  case (rf_reach_step s op)
  then show ?case
    by (cases op) (simp_all add: radio_deliver radio_callback radio_tick radio_misc radio_select radio_pair
        radio_disconnect radio_queue)
qed (rule radio_boot)

section \<open>Properties of the radio\<close>

text \<open>
  The module never sleeps on a live radio: in every reachable state in which \<open>RF_CanDeepSleep\<close> allows
  a deep sleep (IDLE, RESTING, or the closed part of a bonded search) the last radio call shut it.
\<close>

theorem sleep_radio_off:
  assumes "rf_reach cfg ee s" and "RF_CanDeepSleep s"
  shows "radio_off (calls s)"
  using radio_reach [OF assms(1)] assms(2) by (auto simp: radio_inv_def RF_CanDeepSleep_def split: if_splits)

definition demo_window :: "rf_op list" where
  "demo_window =
     [Event RF_EVT_PAIR_BCAST (demo_env 0), Callback (demo_env 0) TX_MODE_TX_FINISH 0 None,
      Event RF_EVT_RX_RESTART (demo_env 0), Event RF_EVT_PAIR_RX_OFF (demo_env 0)]"

lemma demo_window_oks: "rf_oks page_eeprom demo_window demo_boot"
  by code_simp

theorem sleep_radio_off_witness:
  "rf_state (rf_run page_eeprom demo_window demo_boot) = RF_STATE_PAIRING
   \<and> radio_off (calls (rf_run page_eeprom demo_window demo_boot))"
proof
  show "rf_state (rf_run page_eeprom demo_window demo_boot) = RF_STATE_PAIRING" by code_simp
  have "RF_CanDeepSleep (rf_run page_eeprom demo_window demo_boot)" by code_simp
  then show "radio_off (calls (rf_run page_eeprom demo_window demo_boot))"
    by (rule sleep_radio_off [OF rf_reach_run [OF demo_boot_reach demo_window_oks]])
qed

text \<open>
  What may end the sleep of the radio.  In the search, the beacon and the handling of a catch turn it on;
  a probe due in the rest, a key in the rest, and the two pairing commands open the listen window for the
  beacon they post.  An event word counts for the event that is handled.
\<close>

fun turns_on :: "rf_op \<Rightarrow> 'f rf_t \<Rightarrow> bool" where
  "turns_on (Event e env) s =
     (rf_state s = RF_STATE_PAIRING \<and> rf_first_event e \<in> {Some RF_EVT_PAIR_BCAST, Some RF_EVT_ENTER_CONNECTED})"
| "turns_on op s = False"

fun opens :: "rf_op \<Rightarrow> 'f rf_t \<Rightarrow> bool" where
  "opens (Event e env) s = (rf_state s = RF_STATE_RESTING \<and> rf_first_event e = Some RF_EVT_REST_PROBE)"
| "opens (Queue r) s = (rf_state s = RF_STATE_RESTING)"
| "opens Select s = True"
| "opens Pair s = True"
| "opens op s = False"

fun stays_shut :: "'f eeprom \<Rightarrow> rf_op list \<Rightarrow> 'f rf_t \<Rightarrow> bool" where
  "stays_shut ee [] s = True"
| "stays_shut ee (op # ops) s = (\<not> turns_on op s \<and> \<not> opens op s \<and> stays_shut ee ops (rf_exec ee op s))"

definition asleep :: "'f rf_t \<Rightarrow> bool" where
  "asleep s \<longleftrightarrow> RF_CanDeepSleep s \<and> radio_off (calls s)"

lemma can_sleep_iff:
  "RF_CanDeepSleep s \<longleftrightarrow> rf_state s = RF_STATE_IDLE \<or> rf_state s = RF_STATE_RESTING
     \<or> (rf_state s = RF_STATE_PAIRING \<and> pair_flavor s = PAIR_FLAVOR_BONDED \<and> \<not> pair_rx_open s)"
  by (simp add: RF_CanDeepSleep_def)

lemma asleep_pair_rx: "asleep s \<Longrightarrow> pred_option asleep (rf_pair_rx env rx s)"
  by (simp add: asleep_def can_sleep_iff rf_pair_rx_def rf_call_defs Let_def)

lemma asleep_callback: "asleep s \<Longrightarrow> asleep (RF_2G4StatusCallBack env sta rsr rxBuf s)"
proof (cases "sta = RX_MODE_RX_DATA \<and> rxBuf \<noteq> None")
  case True
  assume s: "asleep s"
  obtain rx where rx: "sta = RX_MODE_RX_DATA" "rxBuf = Some rx" using True by blast
  let ?s = "s\<lparr>rf_rssi := rx ! 0\<rparr>"
  have s': "asleep ?s" using s by (simp add: asleep_def can_sleep_iff)
  have e: "asleep (rf_set_event_atomic e t)" if "asleep t" for e and t :: "'a rf_t"
    using that by (simp add: asleep_def can_sleep_iff rf_call_defs)
  have p: "rf_pair_rx env rx ?s = Some t \<Longrightarrow> asleep t" for t
    using asleep_pair_rx [OF s', of env rx] by simp
  have n: "rf_state s \<noteq> RF_STATE_CONNECTED" using s by (auto simp: asleep_def can_sleep_iff)
  show ?thesis
    using s e [OF s] e [OF s'] p n by (auto simp: rx RF_2G4StatusCallBack_def Let_def split: option.split)
next
  case False
  assume "asleep s"
  with False show ?thesis
    by (cases sta) (auto simp: asleep_def can_sleep_iff RF_2G4StatusCallBack_def rf_call_defs Let_def)
qed

lemma asleep_process:
  assumes t: "asleep t" and f: "f \<in> set rf_priority"
    and on: "\<not> (rf_state t = RF_STATE_PAIRING \<and> f \<in> {RF_EVT_PAIR_BCAST, RF_EVT_ENTER_CONNECTED})"
  shows "rf_state t \<noteq> RF_STATE_RESTING \<or> f \<noteq> RF_EVT_REST_PROBE \<Longrightarrow> asleep (fst (RF_ProcessEvent ee env f t))"
    "radio_off (calls (fst (RF_ProcessEvent ee env f t)))"
proof -
  have probe: "radio_off (calls (fst (RF_ProcessEvent ee env RF_EVT_REST_PROBE t)))"
    using t by (simp add: asleep_def RF_ProcessEvent_def on_rest_probe_def rf_rest_defs Let_def)
  show a: "asleep (fst (RF_ProcessEvent ee env f t))" if "rf_state t \<noteq> RF_STATE_RESTING \<or> f \<noteq> RF_EVT_REST_PROBE"
    using f that t on unfolding rf_priority_def list.set insert_iff empty_iff
    by (elim disjE; cases "rf_state t")
      (simp_all add: asleep_def can_sleep_iff RF_ProcessEvent_def on_rx_restart_def on_pair_rx_off_def
        on_pair_timeout_def on_notify_led_def on_rest_idle_def on_rest_probe_def on_rest_probe_timeout_def
        on_rest_stage2_def on_disconnect_def rf_enter_connected_def rf_rest_defs Let_def)
  show "radio_off (calls (fst (RF_ProcessEvent ee env f t)))"
    using a probe by (cases "f = RF_EVT_REST_PROBE") (auto simp: asleep_def simp del: rf_evt_defs)
qed

lemma asleep_deliver:
  assumes a: "asleep s" and on: "\<not> turns_on (Event e env) s"
  shows "\<not> opens (Event e env) s \<Longrightarrow> asleep (rf_deliver ee env e s)"
    "radio_off (calls (rf_deliver ee env e s))"
proof -
  let ?t = "call (Fired e) s"
  have fr: "rf_state ?t = rf_state s" and t: "asleep ?t"
    using a by (simp_all add: asleep_def can_sleep_iff call_def)
  have none: "rf_deliver ee env e s = ?t" if "rf_first_event e = None"
    using that process_event_one [of ee env e ?t] by (simp add: rf_deliver_def)
  have one: "rf_deliver ee env e s = fst (RF_ProcessEvent ee env f ?t)" "f \<in> set rf_priority"
    if "rf_first_event e = Some f" for f
  proof -
    show "rf_deliver ee env e s = fst (RF_ProcessEvent ee env f ?t)"
      using that process_event_one [of ee env e ?t] by (simp add: rf_deliver_def)
    show "f \<in> set rf_priority"
      using that by (auto simp: rf_first_event_def find_Some_iff simp del: rf_evt_defs)
  qed
  show "asleep (rf_deliver ee env e s)" if "\<not> opens (Event e env) s"
    using that on t one asleep_process(1) [OF t, of _ ee env] none
    by (cases "rf_first_event e") (auto simp: fr simp del: rf_evt_defs)
  show "radio_off (calls (rf_deliver ee env e s))"
    using on t one asleep_process(2) [OF t, of _ ee env] none
    by (cases "rf_first_event e") (auto simp: fr asleep_def simp del: rf_evt_defs)
qed

lemma asleep_exec: "asleep s \<Longrightarrow> \<not> turns_on op s \<Longrightarrow> \<not> opens op s \<Longrightarrow> asleep (rf_exec ee op s)"
proof (cases op)
  case (Queue r)
  assume "asleep s" "\<not> opens op s"
  then show ?thesis
    by (simp add: Queue asleep_def can_sleep_iff RF_QueueHIDReport_def Let_def) (auto simp: rf_rest_defs Let_def)
qed (simp_all add: asleep_callback asleep_deliver(1),
    auto simp add: asleep_def can_sleep_iff tick_unfold TMR0_IRQHandler_def RF_Disconnect_def RF_ClearBond_def
    RF_DropQueueUnlessReselected_def RF_FlushBondSave_def RF_LedResync_def rf_rest_defs Let_def split: if_splits)

lemma radio_off_exec: "asleep s \<Longrightarrow> \<not> turns_on op s \<Longrightarrow> radio_off (calls (rf_exec ee op s))"
proof (cases "opens op s")
  case True
  assume s: "asleep s" "\<not> turns_on op s"
  from True show ?thesis
  proof (cases op)
    case (Event e env)
    with s show ?thesis by (simp add: asleep_deliver(2))
  next
    case (Queue r)
    with s True show ?thesis by (simp add: asleep_def RF_QueueHIDReport_def rf_rest_defs Let_def)
  next
    case Select
    with s show ?thesis by (auto simp: asleep_def can_sleep_iff RF_Select2G4_def rf_rest_defs Let_def)
  next
    case Pair
    with s show ?thesis by (auto simp: asleep_def can_sleep_iff RF_EnterPairing_def rf_rest_defs Let_def)
  qed simp_all
next
  case False
  assume "asleep s" "\<not> turns_on op s"
  with False have "asleep (rf_exec ee op s)" by (simp add: asleep_exec)
  then show ?thesis by (simp add: asleep_def)
qed

lemma asleep_run: "asleep s \<Longrightarrow> stays_shut ee ops s \<Longrightarrow> asleep (rf_run ee ops s)"
  by (induction ops arbitrary: s) (simp_all add: rf_run_def asleep_exec)

lemma catch_turns_on:
  "rf_state s = RF_STATE_PAIRING \<Longrightarrow> rf_state (rf_deliver ee env RF_EVT_ENTER_CONNECTED s) = RF_STATE_CONNECTED
     \<and> \<not> radio_off (calls (rf_deliver ee env RF_EVT_ENTER_CONNECTED s))"
  by (simp add: rf_deliver_def RF_ProcessEvent_def rf_enter_connected_def enter_session_def rf_rest_defs Let_def)

text \<open>
  C21: A closed listen window stays closed.  From any state that may sleep with its radio off, the only
  operations that turn the radio on are the beacon of a search and the handling of a catch (which goes
  on to the connection even when the window has closed meanwhile); and no sequence of callbacks,
  receiver restarts, other events, ticks, timer interrupts, reports and calls ends the sleep, as long
  as it holds neither of these, nor what starts a new search: a probe or a key in the rest, a select or
  pairing command.
\<close>

theorem closed_window_stays_closed:
  assumes "RF_CanDeepSleep s" and "radio_off (calls s)"
  shows "(\<not> radio_off (calls (rf_exec ee op s)) \<longrightarrow>
            rf_state s = RF_STATE_PAIRING
            \<and> (\<exists>e env. op = Event e env \<and> rf_first_event e \<in> {Some RF_EVT_PAIR_BCAST, Some RF_EVT_ENTER_CONNECTED}))
       \<and> (stays_shut ee ops s \<longrightarrow> RF_CanDeepSleep (rf_run ee ops s) \<and> radio_off (calls (rf_run ee ops s)))
       \<and> (rf_state s = RF_STATE_PAIRING \<longrightarrow>
            rf_state (rf_exec ee (Event RF_EVT_ENTER_CONNECTED env) s) = RF_STATE_CONNECTED
            \<and> \<not> radio_off (calls (rf_exec ee (Event RF_EVT_ENTER_CONNECTED env) s)))"
proof -
  have s: "asleep s" using assms by (simp add: asleep_def)
  have "turns_on op s" if "\<not> radio_off (calls (rf_exec ee op s))"
    using that radio_off_exec [OF s, of op ee] by blast
  then have "\<not> radio_off (calls (rf_exec ee op s)) \<longrightarrow> rf_state s = RF_STATE_PAIRING
      \<and> (\<exists>e env. op = Event e env \<and> rf_first_event e \<in> {Some RF_EVT_PAIR_BCAST, Some RF_EVT_ENTER_CONNECTED})"
    by (cases op) auto
  then show ?thesis using asleep_run [OF s, of ee ops] catch_turns_on [of s ee env] by (simp add: asleep_def)
qed

text \<open>After the window closed: a stale transmit callback, receiver restarts, a tick, a key and the idle
  timer.\<close>

definition demo_stale :: "rf_op list" where
  "demo_stale =
     [Callback (demo_env 0) TX_MODE_TX_FINISH 0 None, Event RF_EVT_RX_RESTART (demo_env 0), Tick (demo_env 0),
      Queue [0, 0, 4, 0, 0, 0, 0, 0], Event RF_EVT_RX_RESTART (demo_env 0), Event RF_EVT_REST_IDLE (demo_env 0)]"

theorem closed_window_stays_closed_witness:
  "let s = rf_run page_eeprom demo_window demo_boot in
     radio_off (calls (rf_run page_eeprom demo_stale s))
     \<and> rf_state (rf_exec page_eeprom (Event RF_EVT_ENTER_CONNECTED (demo_env 0)) s) = RF_STATE_CONNECTED"
proof -
  let ?s = "rf_run page_eeprom demo_window demo_boot"
  have "RF_CanDeepSleep ?s" "radio_off (calls ?s)" "rf_state ?s = RF_STATE_PAIRING" by code_simp+
  moreover have "stays_shut page_eeprom demo_stale ?s" by code_simp
  ultimately show ?thesis
    using closed_window_stays_closed [of ?s page_eeprom "Event RF_EVT_ENTER_CONNECTED (demo_env 0)" demo_stale "demo_env 0"]
    by (simp add: Let_def)
qed

text \<open>
  C19: The answer goes out where the poll came in: in every reachable connection the radio is tuned to the
  data channel of the hop index, a pending response belongs to that channel, and the response
  transmission does not retune.
\<close>

theorem response_on_poll_channel:
  assumes "rf_reach cfg ee s" and "rf_state s = RF_STATE_CONNECTED"
  shows "tuned (calls s) = Some (data_channels ! unat (prev_data_idx (hop s)))
       \<and> unat (prev_data_idx (hop s)) < length data_channels
       \<and> (response_pending s \<longrightarrow>
            tuned (calls (rf_deliver ee env RF_EVT_RESPOND s)) = Some (response_channel s))"
proof -
  have "tuned (calls (rf_deliver ee env RF_EVT_RESPOND s)) = tuned (calls s)"
    by (simp add: rf_deliver_def RF_ProcessEvent_def rf_do_response_tx_def rf_call_defs Let_def split: option.split)
  then show ?thesis
    using radio_reach [OF assms(1)] assms(2) by (simp add: radio_inv_def data_channels_def)
qed

theorem response_on_poll_channel_witness:
  "tuned (calls demo_connected) = Some 33"
proof -
  have "prev_data_idx (hop demo_connected) = 4" by code_simp
  then show ?thesis
    using response_on_poll_channel [OF demo_connected_reach demo_connected_state] by (simp add: data_channels_def)
qed

text \<open>What the keyboard MCU is told, newest first.\<close>

fun statuses :: "hw_call list \<Rightarrow> u8 list" where
  "statuses [] = []"
| "statuses (Send_Status b # l) = b # statuses l"
| "statuses (c # l) = statuses l"

lemma statuses_start_rx [simp]: "statuses (calls (rf_start_rx env ch s)) = statuses (calls s)"
  by (simp add: rf_start_rx_def rf_configure_if_needed_def rf_configure_def call_def Let_def)

lemma statuses_call: "statuses (calls (call c s)) = (case c of Send_Status b \<Rightarrow> b # statuses (calls s) | _ \<Rightarrow> statuses (calls s))"
  by (cases c) simp_all

lemma statuses_broadcast: "statuses (calls (rf_pair_broadcast env s)) = statuses (calls s)"
  by (simp add: rf_pair_broadcast_def rf_configure_if_needed_def rf_configure_def rf_call_defs Let_def)

lemma statuses_rest:
  "statuses (calls (rest_go_quiet t)) = statuses (calls t)" "statuses (calls (rest_cancel t)) = statuses (calls t)"
  "statuses (calls (rest_arm_idle t)) = statuses (calls t)"
  "statuses (calls (rest_promote_to_normal t)) = statuses (calls t)"
  "statuses (calls (rest_probe_start t)) = statuses (calls t)" "statuses (calls (rest_enter t)) = statuses (calls t)"
  by (simp_all add: rf_rest_defs Let_def)

lemma statuses_main:
  "statuses (calls (fst (RF_Select2G4 s))) = statuses (calls s)"
  "statuses (calls (fst (RF_EnterPairing s))) = statuses (calls s)"
  "statuses (calls (RF_Disconnect s)) = statuses (calls s)"
  "statuses (calls (RF_DropQueueUnlessReselected s)) = statuses (calls s)"
  "statuses (calls (RF_FlushBondSave ee s)) = statuses (calls s)"
  "statuses (calls (RF_LedResync s)) = statuses (calls s)"
  "statuses (calls (TMR0_IRQHandler c s)) = statuses (calls s)"
  "statuses (calls (RF_ClearBond ee s)) = statuses (calls s)"
  "statuses (calls (RF_QueueHIDReport r s)) = statuses (calls s)"
  by (simp_all add: RF_Select2G4_def RF_EnterPairing_def RF_Disconnect_def RF_DropQueueUnlessReselected_def
      RF_FlushBondSave_def RF_LedResync_def TMR0_IRQHandler_def RF_ClearBond_def RF_QueueHIDReport_def
      statuses_rest rf_call_defs Let_def)

lemma statuses_tick: "statuses (calls (RF_ConnectedTick env s)) = statuses (calls s)"
proof -
  have k: "statuses (calls (kicked s)) = statuses (calls s)" by (simp add: kicked_def rf_call_defs)
  have q: "statuses (calls (rest_probe_end c s)) = statuses (calls s)" for c by (simp add: rf_rest_defs Let_def)
  show ?thesis by (simp add: tick_unfold k q)
qed

lemma statuses_callback: "statuses (calls (RF_2G4StatusCallBack env sta rsr rxBuf s)) = statuses (calls s)"
proof (cases "sta = RX_MODE_RX_DATA \<and> rxBuf \<noteq> None")
  case True
  then obtain rx where rx: "sta = RX_MODE_RX_DATA" "rxBuf = Some rx" by blast
  let ?s = "s\<lparr>rf_rssi := rx ! 0\<rparr>"
  have "pred_option (\<lambda>t. statuses (calls t) = statuses (calls s)) (rf_pair_rx env rx ?s)"
    by (simp add: rf_pair_rx_def rf_call_defs Let_def)
  moreover have "statuses (calls (rf_connected_rx env rx ?s)) = statuses (calls s)"
    by (simp add: rf_connected_rx_def rf_call_defs Let_def)
  moreover have "statuses (calls (rf_set_event_atomic e ?s)) = statuses (calls s)"
    "statuses (calls (rf_set_event_atomic e s)) = statuses (calls s)" for e
    by (simp_all add: rf_call_defs)
  ultimately show ?thesis by (auto simp: rx RF_2G4StatusCallBack_def Let_def split: option.split)
next
  case False
  then show ?thesis
    by (cases sta) (auto simp: RF_2G4StatusCallBack_def rf_call_defs Let_def)
qed

lemma statuses_enter:
  "statuses (calls (rf_enter_connected env t)) =
     (if rf_state t = RF_STATE_PAIRING \<and> \<not> rest_probe t then 0x23 # 0x32 # statuses (calls t)
      else statuses (calls t))"
proof -
  have "statuses (calls (enter_session env sil t)) = statuses (calls t)" for sil
    by (simp add: enter_session_def rf_call_defs Let_def)
  then show ?thesis by (simp add: rf_enter_connected_def Let_def statuses_rest)
qed

lemma statuses_disconnect:
  "statuses (calls (on_disconnect t)) =
     (if rf_state t = RF_STATE_CONNECTED then 0x33 # statuses (calls t) else statuses (calls t))"
  by (simp add: on_disconnect_def rf_rest_defs Let_def)

lemma statuses_respond: "statuses (calls (rf_do_response_tx env t)) = statuses (calls t)"
  by (simp add: rf_do_response_tx_def rf_call_defs Let_def split: option.split)

lemma statuses_handlers:
  "statuses (calls (on_rx_restart env t)) = statuses (calls t)"
  "statuses (calls (on_pair_rx_off t)) = statuses (calls t)"
  "statuses (calls (on_pair_timeout t)) = statuses (calls t)"
  "statuses (calls (on_notify_led t)) = statuses (calls t)"
  "statuses (calls (on_rest_idle t)) = statuses (calls t)"
  "statuses (calls (on_rest_probe t)) = statuses (calls t)"
  "statuses (calls (on_rest_probe_timeout t)) = statuses (calls t)"
  "statuses (calls (on_rest_stage2 t)) = statuses (calls t)"
  by (simp_all add: on_rx_restart_def on_pair_rx_off_def on_pair_timeout_def on_notify_led_def on_rest_idle_def
    on_rest_probe_def on_rest_probe_timeout_def on_rest_stage2_def rest_probe_end_def statuses_rest rf_call_defs Let_def)

text \<open>
  C20: The keyboard MCU hears of real link changes and of nothing else: the only status frames the link
  task sends are 32 and 23 when a session that is no probe is entered, and 33 when the supervision timer
  ends a connection; probes, resting, promotion and every other operation send none.
\<close>

theorem statuses_are_link_changes:
  assumes "rf_ok op s"
  shows "statuses (calls (rf_exec ee op s)) =
     (case op of
        Event e env \<Rightarrow>
          if e = RF_EVT_ENTER_CONNECTED \<and> rf_state s = RF_STATE_PAIRING \<and> \<not> rest_probe s
          then 0x23 # 0x32 # statuses (calls s)
          else if e = RF_EVT_DISCONNECT \<and> rf_state s = RF_STATE_CONNECTED then 0x33 # statuses (calls s)
          else statuses (calls s)
      | _ \<Rightarrow> statuses (calls s))"
proof (cases op)
  case (Event e env)
  have p: "rest_probe (call c s) = rest_probe s" for c by (simp add: call_def)
  have "e \<in> set rf_priority" using assms by (simp add: Event)
  then show ?thesis
    unfolding Event rf_exec.simps rf_op.case rf_priority_def list.set insert_iff empty_iff
    by (elim disjE) (simp_all add: rf_deliver_def RF_ProcessEvent_def statuses_broadcast statuses_handlers
        statuses_respond statuses_enter statuses_disconnect p)
qed (simp_all add: statuses_main statuses_tick statuses_callback)

theorem statuses_are_link_changes_witness:
  "statuses (calls demo_connected) = [0x23, 0x32]"
proof -
  let ?s = "rf_run page_eeprom (butlast demo_connect) demo_boot"
  have ok: "rf_ok (Event RF_EVT_ENTER_CONNECTED (demo_env 1010)) ?s" by code_simp
  have e: "demo_connected = rf_exec page_eeprom (Event RF_EVT_ENTER_CONNECTED (demo_env 1010)) ?s"
    by (simp add: demo_connected_def rf_run_def demo_connect_def del: rf_exec.simps)
  have "rf_state ?s = RF_STATE_PAIRING" "\<not> rest_probe ?s" "statuses (calls ?s) = []" by code_simp+
  then show ?thesis unfolding e using statuses_are_link_changes [OF ok] by simp
qed

end
