(* ===== verification/Rf_Reports.thy ===== *)
theory Rf_Reports
  imports Rf_Radio
begin

text \<open>
  The report queue in the link task: in every reachable state, a head that an acknowledgement may retire
  was transmitted in the running session, and nothing but an acknowledgement, the host leaving and the
  coalescing of a full queue changes what is queued.
\<close>

section \<open>The head in flight\<close>

text \<open>The calls since the turnaround timer was last stopped, which every session starts with.\<close>

definition session_calls :: "hw_call list \<Rightarrow> hw_call list" where
  "session_calls l = takeWhile (\<lambda>c. c \<noteq> Tmr0_Stop) l"

definition sent_report :: "u8 list \<Rightarrow> hw_call list \<Rightarrow> bool" where
  "sent_report r l \<longleftrightarrow> (\<exists>c. Tx (c # 0xA1 # map (\<lambda>i. r ! i) [0..<8]) 0 \<in> set (session_calls l))"

definition report_inv :: "'f rf_t \<Rightarrow> bool" where
  "report_inv s \<longleftrightarrow>
     hid_wf (hid s)
   \<and> (rf_state s = RF_STATE_CONNECTED \<and> hid_head_sent (hid s) \<longrightarrow>
        hid_items (hid s) \<noteq> [] \<and> sent_report (hd (hid_items (hid s))) (calls s))"

lemma sent_report_cons: "c \<noteq> Tmr0_Stop \<Longrightarrow> sent_report r l \<Longrightarrow> sent_report r (c # l)"
  by (auto simp: sent_report_def session_calls_def)

lemma sent_report_call: "c \<noteq> Tmr0_Stop \<Longrightarrow> sent_report r (calls s) \<Longrightarrow> sent_report r (calls (call c s))"
  by (simp add: sent_report_cons)

lemma sent_report_start_rx: "sent_report r (calls s) \<Longrightarrow> sent_report r (calls (rf_start_rx env ch s))"
  by (simp add: rf_start_rx_def rf_configure_if_needed_def rf_configure_def call_def Let_def sent_report_cons)

lemma hid_select_items: "hid_select h = (if hid_items h = [] then None else Some (hd (hid_items h)))"
  by (auto simp: hid_select_def hid_items_empty hid_items_def ring_hd unat_and_15 ring_items_empty_iff)

lemma put_head: "xs \<noteq> [] \<Longrightarrow> list_put 16 replace_newest r xs \<noteq> [] \<and> hd (list_put 16 replace_newest r xs) = hd xs"
  by (cases xs) (auto simp: list_put_def replace_newest_def)

lemma queue_facts:
  assumes "hid_wf h"
  shows "hid_wf (hid_queue r h)" and "hid_head_sent (hid_queue r h) = hid_head_sent h"
    and "hid_items (hid_queue r h) = (if hid_changed r h then list_put 16 replace_newest r (hid_items h) else hid_items h)"
    and "hid_items h \<noteq> [] \<Longrightarrow> hid_items (hid_queue r h) \<noteq> [] \<and> hd (hid_items (hid_queue r h)) = hd (hid_items h)"
  using assms by (simp_all add: hid_queue_def hid_items_push hid_wf_push put_head)

lemma discard_facts:
  "hid_wf h \<Longrightarrow> hid_wf (rf_discard_hid_queue h)" "hid_items (rf_discard_hid_queue h) = []"
  "hid_head_sent (rf_discard_hid_queue h) = False"
  by (simp_all add: rf_discard_hid_queue_def hid_wf_def hid_items_def)

lemma ack_not_sent: "hid_head_sent (hid_ack h) = False"
  by (simp add: hid_ack_def Let_def hid_pop_def)

section \<open>Every operation keeps it\<close>

lemma report_rest:
  assumes "report_inv s"
  shows "report_inv (rest_arm_idle s)" "report_inv (rest_promote_to_normal s)"
    "rf_state s \<noteq> RF_STATE_CONNECTED \<Longrightarrow> report_inv (rest_probe_start s)"
    "c \<noteq> Tmr0_Stop \<Longrightarrow> report_inv (call c s)"
  using assms by (simp_all add: report_inv_def rf_rest_defs Let_def sent_report_cons)

lemma report_queue: "report_inv s \<Longrightarrow> report_inv (RF_QueueHIDReport r s)"
proof -
  assume s: "report_inv s"
  let ?t = "s\<lparr>hid := hid_queue r (hid s)\<rparr>"
  have wf: "hid_wf (hid s)" using s by (simp add: report_inv_def)
  have t: "report_inv ?t"
    using s queue_facts(4) [OF wf, of r] by (simp add: report_inv_def queue_facts(1,2) [OF wf])
  have w: "report_inv (?t\<lparr>rest_probe_wake := True\<rparr>)" "report_inv (?t\<lparr>rest_probe_wake := True, rest_quiet_pending := False\<rparr>)"
    using t by (simp_all add: report_inv_def)
  show ?thesis
    unfolding RF_QueueHIDReport_def Let_def rf_stop_task_atomic_def
    using t w by (simp add: report_rest)
qed

lemma report_main:
  assumes "report_inv s"
  shows "report_inv (fst (RF_Select2G4 s))" "report_inv (fst (RF_EnterPairing s))" "report_inv (RF_Disconnect s)"
    "report_inv (RF_DropQueueUnlessReselected s)" "report_inv (RF_FlushBondSave ee s)" "report_inv (RF_LedResync s)"
    "report_inv (TMR0_IRQHandler c s)" "report_inv (RF_ClearBond ee s)"
  using assms
  by (simp_all add: report_inv_def RF_Select2G4_def RF_EnterPairing_def RF_Disconnect_def
      RF_DropQueueUnlessReselected_def RF_FlushBondSave_def RF_LedResync_def TMR0_IRQHandler_def RF_ClearBond_def
      rf_rest_defs Let_def sent_report_cons discard_facts)

lemma report_tick: "report_inv s \<Longrightarrow> report_inv (RF_ConnectedTick env s)"
proof -
  assume s: "report_inv s"
  have k: "sent_report r (calls s) \<Longrightarrow> sent_report r (calls (kicked s))" for r
    by (simp add: kicked_def rf_call_defs sent_report_cons)
  have q: "report_inv (rest_probe_end c s)" for c
    using s by (simp add: report_inv_def rf_rest_defs Let_def)
  show ?thesis
    using s q by (simp add: tick_unfold report_inv_def k sent_report_start_rx)
qed

lemma report_pair_rx: "report_inv s \<Longrightarrow> rf_state s = RF_STATE_PAIRING \<Longrightarrow> pred_option report_inv (rf_pair_rx env rx s)"
  by (simp add: report_inv_def rf_pair_rx_def rf_call_defs Let_def)

lemma report_connected_rx: "report_inv s \<Longrightarrow> report_inv (rf_connected_rx env rx s)"
  by (simp add: report_inv_def rf_connected_rx_def rf_call_defs Let_def sent_report_cons hid_wf_ack ack_not_sent)

lemma report_callback:
  assumes s: "report_inv s"
  shows "report_inv (RF_2G4StatusCallBack env sta rsr rxBuf s)"
proof (cases "sta = RX_MODE_RX_DATA \<and> rxBuf \<noteq> None")
  case True
  then obtain rx where rx: "sta = RX_MODE_RX_DATA" "rxBuf = Some rx" by blast
  let ?s = "s\<lparr>rf_rssi := rx ! 0\<rparr>"
  have s': "report_inv ?s" using s by (simp add: report_inv_def)
  have e: "report_inv (rf_set_event_atomic e t)" if "report_inv t" for e and t :: "'a rf_t"
    using that by (simp add: report_inv_def rf_call_defs sent_report_cons)
  have p: "rf_state s = RF_STATE_PAIRING \<Longrightarrow> rf_pair_rx env rx ?s = Some t \<Longrightarrow> report_inv t" for t
    using report_pair_rx [OF s', of env rx] by simp
  show ?thesis
    using s e [OF s] e [OF s'] p report_connected_rx [OF s', of env rx]
    by (auto simp: rx RF_2G4StatusCallBack_def Let_def split: option.split)
next
  case False
  with s show ?thesis
    by (cases sta) (auto simp: report_inv_def RF_2G4StatusCallBack_def rf_call_defs Let_def sent_report_cons)
qed

lemma report_do_tx: "report_inv s \<Longrightarrow> report_inv (rf_do_response_tx env s)"
proof (cases "response_pending s")
  case True
  assume s: "report_inv s"
  let ?h = "hd (hid_items (hid s))"
  show ?thesis
  proof (cases "hid_items (hid s) = []")
    case True
    with s \<open>response_pending s\<close> show ?thesis
      by (simp add: report_inv_def rf_do_response_tx_def rf_call_defs Let_def hid_select_items)
  next
    case False
    have tx: "sent_report ?h (Tx (c # 0xA1 # map (\<lambda>i. ?h ! i) [0..<8]) 0 # l)" for c l
      by (auto simp: sent_report_def session_calls_def)
    show ?thesis
      using s False \<open>response_pending s\<close> tx
      by (simp add: report_inv_def rf_do_response_tx_def rf_call_defs Let_def hid_select_items sent_report_cons
          upt_rec numeral_eq_Suc)
  qed
qed (simp add: rf_do_response_tx_def)

lemma report_handlers:
  assumes "report_inv s"
  shows "report_inv (on_pair_rx_off s)" "report_inv (on_pair_timeout s)" "report_inv (on_notify_led s)"
    "report_inv (on_rest_idle s)" "report_inv (on_rest_probe s)" "report_inv (on_rest_probe_timeout s)"
    "report_inv (on_rest_stage2 s)" "report_inv (on_disconnect s)" "report_inv (on_rx_restart env s)"
    "report_inv (rf_enter_connected env s)"
  using assms
  by (simp_all add: report_inv_def on_pair_rx_off_def on_pair_timeout_def on_notify_led_def on_rest_idle_def
      on_rest_probe_def on_rest_probe_timeout_def on_rest_stage2_def on_disconnect_def on_rx_restart_def
      rf_enter_connected_def rf_rest_defs Let_def sent_report_cons sent_report_start_rx)

lemma report_broadcast: "report_inv s \<Longrightarrow> rf_state s = RF_STATE_PAIRING \<Longrightarrow> report_inv (rf_pair_broadcast env s)"
  by (simp add: report_inv_def rf_pair_broadcast_def rf_configure_if_needed_def rf_configure_def rf_call_defs Let_def)

lemma report_deliver: "report_inv s \<Longrightarrow> report_inv (rf_deliver ee env e s)"
proof -
  assume s: "report_inv s"
  then have f: "report_inv (call (Fired e) s)" by (simp add: report_inv_def call_def sent_report_cons)
  have d: "rf_state s = RF_STATE_IDLE \<Longrightarrow> report_inv ((call (Fired e) s)\<lparr>hid := rf_discard_hid_queue (hid s)\<rparr>)"
    "report_inv ((call (Fired e) s)\<lparr>flash := fl\<rparr>)"
    "report_inv (call Shut ((call (Fired e) s)\<lparr>rf_state := RF_STATE_IDLE, rf_access_addr := aa, rf_channel := ch\<rparr>))"
    for aa ch fl
    using s by (simp_all add: report_inv_def call_def discard_facts sent_report_cons)
  show ?thesis
    by (rule deliver_cases)
      (simp_all add: f d report_do_tx [OF f] report_broadcast [OF f] report_handlers [OF f])
qed

lemma report_boot: "report_inv (rf_boot cfg ee fl)"
proof -
  obtain m v where i: "rf_init_keyboard_identity cfg (rf_bss fl) = (rf_bss fl)\<lparr>keyboard_mac := m, keyboard_mac_valid := v\<rparr>"
    by (rule identity_only)
  show ?thesis
    unfolding rf_boot_def RF_TaskInit_def i Let_def
    by (simp add: rf_bss_def rf_call_defs report_inv_def rf_deliver_def RF_ProcessEvent_def hid_init_facts)
qed

lemma report_reach: "rf_reach cfg ee s \<Longrightarrow> report_inv s"
proof (induction rule: rf_reach.induct)
  case (rf_reach_step s op)
  then show ?case
    by (cases op) (simp_all add: report_deliver report_callback report_tick report_main report_queue)
qed (rule report_boot)

section \<open>What changes the queue\<close>

lemma items_main [simp]:
  "hid_items (hid (fst (RF_Select2G4 s))) = hid_items (hid s)"
  "hid_items (hid (fst (RF_EnterPairing s))) = hid_items (hid s)"
  "hid_items (hid (RF_Disconnect s)) = hid_items (hid s)"
  "hid_items (hid (RF_DropQueueUnlessReselected s)) = hid_items (hid s)"
  "hid_items (hid (RF_FlushBondSave ee s)) = hid_items (hid s)"
  "hid_items (hid (RF_LedResync s)) = hid_items (hid s)"
  "hid_items (hid (TMR0_IRQHandler c s)) = hid_items (hid s)"
  "hid_items (hid (RF_ConnectedTick env s)) = hid_items (hid s)"
  by (simp_all add: RF_Select2G4_def RF_EnterPairing_def RF_Disconnect_def tick_unfold
      RF_DropQueueUnlessReselected_def RF_FlushBondSave_def RF_LedResync_def TMR0_IRQHandler_def
      rf_rest_defs Let_def)

lemma items_rest [simp]:
  "hid (rest_arm_idle s) = hid s" "hid (rest_promote_to_normal s) = hid s" "hid (rest_probe_start s) = hid s"
  "hid (call c s) = hid s"
  by (simp_all add: rf_rest_defs Let_def)

lemma items_queue: "hid (RF_QueueHIDReport r s) = hid_queue r (hid s)"
  by (simp add: RF_QueueHIDReport_def Let_def rf_stop_task_atomic_def)

lemma items_deliver:
  "hid_items (hid (rf_deliver ee env e s)) \<noteq> hid_items (hid s) \<Longrightarrow>
     e = RF_EVT_DISCARD_HID \<or> (e \<notin> set rf_priority)"
  "hid_items (hid (rf_deliver ee env e s)) = hid_items (hid s)
   \<or> (rf_state s = RF_STATE_IDLE \<and> hid_items (hid (rf_deliver ee env e s)) = [])"
proof -
  have p: "hid (rf_pair_broadcast env t) = hid t" for t :: "'a rf_t"
    by (simp add: rf_pair_broadcast_def rf_configure_if_needed_def rf_configure_def rf_call_defs Let_def)
  have h: "hid_items (hid (on_rx_restart env t)) = hid_items (hid t)" "hid_items (hid (on_pair_rx_off t)) = hid_items (hid t)"
    "hid_items (hid (on_pair_timeout t)) = hid_items (hid t)" "hid_items (hid (on_notify_led t)) = hid_items (hid t)"
    "hid_items (hid (on_rest_idle t)) = hid_items (hid t)" "hid_items (hid (on_rest_probe t)) = hid_items (hid t)"
    "hid_items (hid (on_rest_probe_timeout t)) = hid_items (hid t)" "hid_items (hid (on_rest_stage2 t)) = hid_items (hid t)"
    "hid_items (hid (on_disconnect t)) = hid_items (hid t)" "hid_items (hid (rf_enter_connected env t)) = hid_items (hid t)"
    "hid_items (hid (rf_do_response_tx env t)) = hid_items (hid t)" for t :: "'a rf_t"
    by (simp_all add: on_pair_rx_off_def on_pair_timeout_def on_notify_led_def on_rest_idle_def
        on_rest_probe_def on_rest_probe_timeout_def on_rest_stage2_def on_disconnect_def on_rx_restart_def
        rf_enter_connected_def rf_do_response_tx_def rf_rest_defs Let_def split: option.split)
  show "hid_items (hid (rf_deliver ee env e s)) = hid_items (hid s)
   \<or> (rf_state s = RF_STATE_IDLE \<and> hid_items (hid (rf_deliver ee env e s)) = [])"
    by (rule deliver_cases) (simp_all add: h p discard_facts)
  show "hid_items (hid (rf_deliver ee env e s)) \<noteq> hid_items (hid s) \<Longrightarrow>
     e = RF_EVT_DISCARD_HID \<or> (e \<notin> set rf_priority)"
  proof (rule ccontr)
    assume ne: "hid_items (hid (rf_deliver ee env e s)) \<noteq> hid_items (hid s)"
      and "\<not> (e = RF_EVT_DISCARD_HID \<or> e \<notin> set rf_priority)"
    then have "e \<in> set rf_priority" "e \<noteq> RF_EVT_DISCARD_HID" by simp_all
    then have "hid_items (hid (rf_deliver ee env e s)) = hid_items (hid s)"
      unfolding rf_priority_def list.set insert_iff empty_iff
      by (elim disjE) (simp_all add: rf_deliver_def RF_ProcessEvent_def h p)
    with ne show False ..
  qed
qed

text \<open>The packet that acknowledges: a poll of one of the three known lengths whose control bit is not the
  one the keyboard last recorded.\<close>

definition poll_acks :: "u8 list \<Rightarrow> 'f rf_t \<Rightarrow> bool" where
  "poll_acks rx s \<longleftrightarrow> rx ! 1 \<in> {1, 3, 10} \<and> (rx ! 2 XOR tx_ctrl s) AND 1 \<noteq> 0"

lemma hid_connected_rx:
  "hid (rf_connected_rx env rx s) = (if poll_acks rx s then hid_ack (hid s) else hid s)"
  by (simp add: rf_connected_rx_def poll_acks_def rf_call_defs Let_def)

lemma items_connected_callback:
  assumes "rf_state s = RF_STATE_CONNECTED"
  shows "hid_items (hid (RF_2G4StatusCallBack env RX_MODE_RX_DATA 0 (Some rx) s)) =
    (if poll_acks rx s \<and> hid_head_sent (hid s) then tl (hid_items (hid s)) else hid_items (hid s))"
  using assms
  by (simp add: RF_2G4StatusCallBack_def Let_def hid_connected_rx hid_items_ack) (simp add: poll_acks_def)

lemma items_callback:
  assumes "hid_items (hid (RF_2G4StatusCallBack env sta rsr rxBuf s)) \<noteq> hid_items (hid s)"
  shows "\<exists>rx. sta = RX_MODE_RX_DATA \<and> rsr = 0 \<and> rxBuf = Some rx \<and> rf_state s = RF_STATE_CONNECTED
       \<and> poll_acks rx s \<and> hid_head_sent (hid s)
       \<and> hid_items (hid (RF_2G4StatusCallBack env sta rsr rxBuf s)) = tl (hid_items (hid s))"
proof -
  have p: "pred_option (\<lambda>t. hid t = hid s) (rf_pair_rx env rx (s\<lparr>rf_rssi := v\<rparr>))" for rx v
    by (simp add: rf_pair_rx_def rf_call_defs Let_def)
  then have p': "rf_pair_rx env rx (s\<lparr>rf_rssi := v\<rparr>) = Some t \<Longrightarrow> hid t = hid s" for rx v t
    by (metis option.pred_inject(2))
  show ?thesis
  proof (cases "sta = RX_MODE_RX_DATA \<and> rsr = 0 \<and> (\<exists>rx. rxBuf = Some rx) \<and> rf_state s = RF_STATE_CONNECTED")
    case True
    with assms items_connected_callback [of s env] show ?thesis by (auto split: if_splits)
  next
    case False
    then have "hid_items (hid (RF_2G4StatusCallBack env sta rsr rxBuf s)) = hid_items (hid s)"
      by (cases sta) (auto simp: RF_2G4StatusCallBack_def rf_call_defs Let_def p' split: option.split)
    with assms show ?thesis by simp
  qed
qed

section \<open>Properties of the queue\<close>

text \<open>
  C18: Nothing is retired that was not transmitted and acknowledged: in every reachable state, an operation
  changes the queued reports only by queueing the host's report (appended, or coalesced onto the newest
  when the queue is full), by dropping everything in IDLE after the host left or the bond was cleared, or
  by a packet received intact in a connection whose control bit the dongle has advanced (\<open>poll_acks\<close>),
  which retires exactly the oldest report, after a frame with exactly that report was started on the
  air in the same session.  And such a packet does retire it whenever the head has been sent.
\<close>

theorem report_fate:
  assumes "rf_reach cfg ee s" and "rf_ok op s"
  defines "items \<equiv> hid_items (hid s)" and "items' \<equiv> hid_items (hid (rf_exec ee op s))"
  shows "(items' \<noteq> items \<longrightarrow>
          (\<exists>r. op = Queue r \<and> items' = list_put 16 replace_newest r items)
        \<or> (rf_state s = RF_STATE_IDLE \<and> items' = []
             \<and> (op = Clear \<or> (\<exists>env. op = Event RF_EVT_DISCARD_HID env)))
        \<or> (\<exists>env rx c. op = Callback env RX_MODE_RX_DATA 0 (Some rx) \<and> rf_state s = RF_STATE_CONNECTED
             \<and> poll_acks rx s \<and> hid_head_sent (hid s) \<and> items \<noteq> [] \<and> items' = tl items
             \<and> Tx (c # 0xA1 # map (\<lambda>i. hd items ! i) [0..<8]) 0 \<in> set (session_calls (calls s))))
       \<and> (\<forall>env rx. op = Callback env RX_MODE_RX_DATA 0 (Some rx) \<and> rf_state s = RF_STATE_CONNECTED
            \<and> poll_acks rx s \<and> hid_head_sent (hid s) \<longrightarrow> items' = tl items)"
proof -
  have ack: "items' = tl items"
    if "op = Callback env RX_MODE_RX_DATA 0 (Some rx)" "rf_state s = RF_STATE_CONNECTED" "poll_acks rx s"
      "hid_head_sent (hid s)" for env rx
    using that by (simp add: items_def items'_def items_connected_callback)
  have "(\<exists>r. op = Queue r \<and> items' = list_put 16 replace_newest r items)
      \<or> (rf_state s = RF_STATE_IDLE \<and> items' = [] \<and> (op = Clear \<or> (\<exists>env. op = Event RF_EVT_DISCARD_HID env)))
      \<or> (\<exists>env rx c. op = Callback env RX_MODE_RX_DATA 0 (Some rx) \<and> rf_state s = RF_STATE_CONNECTED
           \<and> poll_acks rx s \<and> hid_head_sent (hid s) \<and> items \<noteq> [] \<and> items' = tl items
           \<and> Tx (c # 0xA1 # map (\<lambda>i. hd items ! i) [0..<8]) 0 \<in> set (session_calls (calls s)))"
    if ne: "items' \<noteq> items"
  proof (cases op)
    case (Event e env)
    then have "e = RF_EVT_DISCARD_HID" "rf_state s = RF_STATE_IDLE" "hid_items (hid (rf_deliver ee env e s)) = []"
      using items_deliver [of ee env e s] assms(2) ne by (auto simp: items_def items'_def)
    then show ?thesis unfolding items'_def Event rf_exec.simps by blast
  next
    case (Callback env sta rsr rxBuf)
    have "hid_items (hid (RF_2G4StatusCallBack env sta rsr rxBuf s)) \<noteq> hid_items (hid s)"
      using ne by (simp add: items_def items'_def Callback)
    from items_callback [OF this] report_reach [OF assms(1)] this show ?thesis
      unfolding items_def items'_def Callback rf_exec.simps by (auto simp: report_inv_def sent_report_def)
  next
    case Clear
    then show ?thesis
      using assms(2) by (simp add: items'_def RF_ClearBond_def Let_def rf_rest_defs discard_facts)
  next
    case (Queue r)
    have "hid_wf (hid s)" using report_reach [OF assms(1)] by (simp add: report_inv_def)
    then show ?thesis
      using ne by (auto simp: items_def items'_def Queue items_queue queue_facts(3) split: if_splits)
  qed (use ne in \<open>simp_all add: items_def items'_def\<close>)
  with ack show ?thesis by blast
qed

definition demo_key :: "u8 list" where "demo_key = [0, 0, 4, 0, 0, 0, 0, 0]"

text \<open>A key, the first poll, its turnaround, and the response that carries the report.\<close>

definition demo_report :: "rf_op list" where
  "demo_report =
     [Queue demo_key, Callback (demo_env 1030) RX_MODE_RX_DATA 0 (Some [0xc0, 1, 0]), Tmr0 True,
      Event RF_EVT_RESPOND (demo_env 1031), Callback (demo_env 1033) TX_MODE_TX_FINISH 0 None,
      Event RF_EVT_RX_RESTART (demo_env 1033)]"

lemma demo_report_oks: "rf_oks page_eeprom demo_report demo_connected"
  unfolding demo_connected_def by code_simp

theorem report_fate_witness:
  "let s = rf_run page_eeprom demo_report demo_connected;
       op = Callback (demo_env 1058) RX_MODE_RX_DATA 0 (Some [0xc0, 1, 1])
   in hid_items (hid s) = [demo_key] \<and> hid_items (hid (rf_exec page_eeprom op s)) = []
      \<and> hid_items (hid (rf_exec page_eeprom (Callback (demo_env 1058) RX_MODE_RX_DATA 0 (Some [0xc0, 1, 0])) s)) = [demo_key]
      \<and> poll_acks [0xc0, 1, 1] s \<and> \<not> poll_acks [0xc0, 1, 0] s
      \<and> (\<exists>c. Tx (c # 0xA1 # map (\<lambda>i. demo_key ! i) [0..<8]) 0 \<in> set (session_calls (calls s)))"
proof -
  let ?s = "rf_run page_eeprom demo_report demo_connected"
  let ?op = "Callback (demo_env 1058) RX_MODE_RX_DATA 0 (Some [0xc0, 1, 1])"
  let ?again = "Callback (demo_env 1058) RX_MODE_RX_DATA 0 (Some [0xc0, 1, 0])"
  have r: "rf_reach demo_cfg page_eeprom ?s" by (rule rf_reach_run [OF demo_connected_reach demo_report_oks])
  have i: "hid_items (hid ?s) = [demo_key]" "rf_state ?s = RF_STATE_CONNECTED" "hid_head_sent (hid ?s)"
    "poll_acks [0xc0, 1, 1] ?s" "\<not> poll_acks [0xc0, 1, 0] ?s"
    by code_simp+
  have gone: "hid_items (hid (rf_exec page_eeprom ?op ?s)) = []"
    using report_fate [OF r, of ?op] i by simp
  have kept: "hid_items (hid (rf_exec page_eeprom ?again ?s)) = [demo_key]"
    using report_fate [OF r, of ?again] i by auto
  have "\<exists>c. Tx (c # 0xA1 # map (\<lambda>i. demo_key ! i) [0..<8]) 0 \<in> set (session_calls (calls ?s))"
    using report_fate [OF r, of ?op] i gone by auto
  with gone kept i show ?thesis by (simp add: Let_def)
qed

end
