(* ===== verification/Power_Sleep.thy ===== *)
theory Power_Sleep
  imports Rf_Reach Sleep_Protocol Diag_Frame
begin

text \<open>
  The deep-sleep module \<^verbatim>\<open>firmware/src/power_sleep.c\<close>: the auto-sleep flag, the explicit request, the
  activity holdoff, the guarded entry into the vendor's \<open>LowPower_Sleep\<close> and the TMOS idle callback
  \<open>CH59x_LowPower\<close> that decides about it.  The register writes around a sleep are recorded, newest first,
  in \<open>pwr_calls\<close>; the readings (RTC, wait flags, the RX line) are arguments.  The wake window constants
  and \<open>MS_TO_RTC\<close> belong to the vendor SDK and are parameters.  The build is the shipped one, without the
  bench hook and the idle-callback forensics; the wake pin is PA8 or PB12 alike.
\<close>

section \<open>State\<close>

datatype pwr_call =
    Csr_Mask
  | Csr_Restore u32
  | Gpio_If_Clear
  | Gpio_Fall_Edge
  | Gpio_Int_En_Off
  | Gpio_Pfic_Clear
  | Gpio_Pfic bool
  | Periph_Wake bool
  | Rtc_Set_Trigger u32
  | Rtc_Trig_En bool
  | Rtc_Flag_Clear
  | Rtc_Pfic_Clear
  | Rtc_Pfic_Enable
  | Slp_Rtc_Wake
  | Sctlr_Plain
  | Wwdg_Restart
  | Low_Power u16
  | Hse_Current

record pwr_t =
  pwr_autosleep :: bool
  pwr_gpio_woke :: bool
  pwr_explicit_request :: bool
  pwr_holdoff_start :: u32
  pwr_holdoff_active :: bool
  pwr_diag :: diag_state
  pwr_calls :: "pwr_call list"

record pwr_platform =
  RTC_MAX_COUNT :: u32
  MS_TO_RTC :: "u32 \<Rightarrow> u32"
  WAKE_UP_RTC_MAX_TIME :: u32
  SLEEP_RTC_MIN_TIME :: u32
  SLEEP_RTC_MAX_TIME :: u32
  SLEEP_RAM :: u16
  WATCHDOG_ENABLE :: bool

text \<open>What one attempt to sleep reads: before the entry (the mask bits, the clock, the wake sources), during
  the sleep (whether the GPIO handler ran, whether the RTC trigger did) and after it.\<close>

record sleep_env =
  irq_state :: u32
  time_curr :: u32
  rx_line_low :: bool
  gpio_if :: bool
  gpio_pending :: bool
  uart_rfc :: u8
  rtc_tig_flag :: bool
  rtc_trig_flag :: bool
  rtc_pending :: bool
  gpio_isr :: bool
  tig_after :: bool
  time_wake :: u32
  gpio_if_after :: bool

definition pcall :: "pwr_call \<Rightarrow> pwr_t \<Rightarrow> pwr_t" where
  "pcall c p = p\<lparr>pwr_calls := c # pwr_calls p\<rparr>"

definition PWR_ABORT_TX :: u8 where "PWR_ABORT_TX = 2"
definition PWR_ABORT_RX :: u8 where "PWR_ABORT_RX = 3"
definition PWR_ABORT_RF :: u8 where "PWR_ABORT_RF = 1"
definition PWR_ABORT_OPENBOOT :: u8 where "PWR_ABORT_OPENBOOT = 4"
definition PWR_ABORT_WINDOW :: u8 where "PWR_ABORT_WINDOW = 5"
definition PWR_ABORT_LATE :: u8 where "PWR_ABORT_LATE = 6"
definition PWR_ABORT_RXLINE :: u8 where "PWR_ABORT_RXLINE = 7"
definition PWR_RTC32K_BACKSTEP_TOLERANCE :: u32 where "PWR_RTC32K_BACKSTEP_TOLERANCE = 1024"
definition KBD_AUTOSLEEP_HOLDOFF_MS :: u32 where "KBD_AUTOSLEEP_HOLDOFF_MS = 100"

section \<open>Counters\<close>

text \<open>Counters stand still while the record of a watchdog reset is frozen; \<open>upd\<close> is the counter's field.\<close>

definition pwr_diag_live :: "(diag_snapshot_t \<Rightarrow> diag_snapshot_t) \<Rightarrow> pwr_t \<Rightarrow> pwr_t" where
  "pwr_diag_live f p =
     (if pwr_forensics_frozen (pwr_diag p) then p
      else p\<lparr>pwr_diag := (pwr_diag p)\<lparr>diag_live := f (diag_live (pwr_diag p))\<rparr>\<rparr>)"

definition PWR_DIAG_INC16 :: "((u16 \<Rightarrow> u16) \<Rightarrow> diag_snapshot_t \<Rightarrow> diag_snapshot_t) \<Rightarrow> pwr_t \<Rightarrow> pwr_t" where
  "PWR_DIAG_INC16 upd = pwr_diag_live (upd (\<lambda>x. x + 1))"

definition PWR_ABORT :: "u8 \<Rightarrow> pwr_t \<Rightarrow> pwr_t" where
  "PWR_ABORT r =
     pwr_diag_live (\<lambda>d. d\<lparr>ds_pwr_last_abort_reason := r, ds_pwr_sleep_aborted := ds_pwr_sleep_aborted d + 1\<rparr>)"

section \<open>Activity and holdoff\<close>

definition rtc_ticks_elapsed :: "pwr_platform \<Rightarrow> u32 \<Rightarrow> u32 \<Rightarrow> u32" where
  "rtc_ticks_elapsed pf now start =
     SleepProtocol_ElapsedTicks now start (RTC_MAX_COUNT pf) PWR_RTC32K_BACKSTEP_TOLERANCE"

definition pwr_note_activity :: "u32 \<Rightarrow> pwr_t \<Rightarrow> pwr_t" where
  "pwr_note_activity now p = p\<lparr>pwr_holdoff_start := now, pwr_holdoff_active := True\<rparr>"

definition pwr_holdoff_expired :: "pwr_platform \<Rightarrow> u32 \<Rightarrow> uart_rx \<Rightarrow> pwr_t \<Rightarrow> bool \<times> uart_rx \<times> pwr_t" where
  "pwr_holdoff_expired pf now rx p =
     (let (rx, activity) = KeyboardUart_TakeRxActivity rx in
      if activity then (False, rx, pwr_note_activity now p)
      else if \<not> pwr_holdoff_active p then (True, rx, p)
      else if MS_TO_RTC pf KBD_AUTOSLEEP_HOLDOFF_MS \<le> rtc_ticks_elapsed pf now (pwr_holdoff_start p)
        then (True, rx, p\<lparr>pwr_holdoff_active := False\<rparr>)
      else (False, rx, p))"

section \<open>Wake sources\<close>

definition pwr_gpio_wake_arm :: "pwr_t \<Rightarrow> pwr_t" where
  "pwr_gpio_wake_arm p =
     (let p = pcall Gpio_If_Clear p;
          p = pcall Gpio_Fall_Edge p;
          p = pcall Gpio_Pfic_Clear p;
          p = pcall (Gpio_Pfic True) p
      in pcall (Periph_Wake True) p)"

definition pwr_gpio_wake_disarm :: "bool \<Rightarrow> pwr_t \<Rightarrow> pwr_t" where
  "pwr_gpio_wake_disarm int_if p =
     (let p = pcall (Periph_Wake False) p;
          p = pcall (Gpio_Pfic False) p;
          p = (if int_if then pcall Gpio_If_Clear (p\<lparr>pwr_gpio_woke := True\<rparr>) else p);
          p = pcall Gpio_Int_En_Off p
      in pcall Gpio_Pfic_Clear p)"

definition GPIO_IRQHandler :: "pwr_t \<Rightarrow> pwr_t" where
  "GPIO_IRQHandler p = pcall Gpio_If_Clear (p\<lparr>pwr_gpio_woke := True\<rparr>)"

definition pwr_rtc_trig_arm :: "u32 \<Rightarrow> pwr_t \<Rightarrow> pwr_t" where
  "pwr_rtc_trig_arm time p = pcall (Rtc_Trig_En True) (pcall (Rtc_Set_Trigger time) p)"

definition pwr_rtc_trig_disarm :: "pwr_t \<Rightarrow> pwr_t" where
  "pwr_rtc_trig_disarm p = pcall Rtc_Pfic_Clear (pcall Rtc_Flag_Clear (pcall (Rtc_Trig_En False) p))"

definition pwr_low_power_sleep :: "u16 \<Rightarrow> pwr_t \<Rightarrow> pwr_t" where
  "pwr_low_power_sleep rm p = pcall Hse_Current (pcall (Low_Power rm) p)"

section \<open>One sleep\<close>

definition pwr_sleep_until :: "pwr_platform \<Rightarrow> sleep_env \<Rightarrow> uart_rx \<Rightarrow> u32 \<Rightarrow> pwr_t \<Rightarrow> u32 \<times> pwr_t" where
  "pwr_sleep_until pf env rx time p =
     (let p = PWR_DIAG_INC16 ds_pwr_sleep_attempt_update p;
          time = pwr_rtc_sub (RTC_MAX_COUNT pf) time (WAKE_UP_RTC_MAX_TIME pf);
          p = pcall Csr_Mask p
      in if irq_state env AND 0x08 = 0 then (3, PWR_ABORT PWR_ABORT_LATE (pcall (Csr_Restore (irq_state env)) p))
      else
        (let time_sleep = (if time < time_curr env then time + (RTC_MAX_COUNT pf - time_curr env)
                           else time - time_curr env)
         in if time_sleep < SLEEP_RTC_MIN_TIME pf \<or> SLEEP_RTC_MAX_TIME pf < time_sleep
            then (2, PWR_ABORT PWR_ABORT_WINDOW (pcall (Csr_Restore (irq_state env)) p))
         else
           (let p = pwr_rtc_trig_arm time p;
                p = p\<lparr>pwr_gpio_woke := False\<rparr>;
                p = pwr_gpio_wake_arm p;
                p = pcall Sctlr_Plain p
            in if rx_line_low env \<or> gpio_if env \<or> gpio_pending env \<or> uart_rfc env \<noteq> 0
                  \<or> \<not> KeyboardUart_RxQuiet rx \<or> pwr_gpio_woke p
               then
                 (let p = pwr_gpio_wake_disarm (gpio_if env) p;
                      p = pwr_rtc_trig_disarm p;
                      p = pcall (Csr_Restore (irq_state env)) p
                  in (3, PWR_ABORT PWR_ABORT_RXLINE p))
            else if rtc_tig_flag env \<or> rtc_trig_flag env \<or> rtc_pending env
               then
                 (let p = pwr_gpio_wake_disarm (gpio_if env) p;
                      p = pwr_rtc_trig_disarm p;
                      p = pcall (Csr_Restore (irq_state env)) p
                  in (3, PWR_ABORT PWR_ABORT_LATE p))
            else
              (let p = (if WATCHDOG_ENABLE pf then pcall Wwdg_Restart p else p);
                   p = PWR_DIAG_INC16 ds_pwr_sleep_entered_update p;
                   p = pcall (Csr_Restore (irq_state env)) p;
                   p = pwr_low_power_sleep (SLEEP_RAM pf) p;
                   p = (if gpio_isr env then GPIO_IRQHandler p else p);
                   p = pcall Csr_Mask p;
                   p = (if tig_after env then PWR_DIAG_INC16 ds_pwr_wake_rtc_update p
                        else if pwr_gpio_woke p
                        then pwr_note_activity (time_wake env) (PWR_DIAG_INC16 ds_pwr_wake_gpio_update p)
                        else PWR_ABORT PWR_ABORT_LATE p);
                   p = pwr_gpio_wake_disarm (gpio_if_after env) p;
                   p = pwr_rtc_trig_disarm p;
                   p = pcall (Csr_Restore (irq_state env)) p
               in (0, p)))))"

section \<open>Requests\<close>

definition PowerSleep_SetAutosleep :: "u32 \<Rightarrow> bool \<Rightarrow> pwr_t \<Rightarrow> pwr_t" where
  "PowerSleep_SetAutosleep now on p =
     (let p = (if on \<and> \<not> pwr_autosleep p then pwr_note_activity now p else p)
      in p\<lparr>pwr_autosleep := on\<rparr>)"

definition PowerSleep_NoteActivity :: "u32 \<Rightarrow> pwr_t \<Rightarrow> pwr_t" where
  "PowerSleep_NoteActivity now p = pwr_note_activity now p"

definition PowerSleep_RequestExplicit :: "pwr_t \<Rightarrow> pwr_t" where
  "PowerSleep_RequestExplicit p = p\<lparr>pwr_explicit_request := True\<rparr>"

definition PowerSleep_CancelExplicit :: "pwr_t \<Rightarrow> pwr_t" where
  "PowerSleep_CancelExplicit p = p\<lparr>pwr_explicit_request := False\<rparr>"

definition PowerSleep_SleepPending :: "pwr_t \<Rightarrow> bool" where
  "PowerSleep_SleepPending p = pwr_explicit_request p"

section \<open>The TMOS idle callback\<close>

text \<open>What the callback reads besides: the transmit FIFO, the clock of the holdoff check, and the bytes the
  UART interrupt takes in between the checks and the masked entry.\<close>

record idle_env =
  idle_tfc :: u8
  idle_all_emp :: bool
  idle_now :: u32
  idle_late :: "u8 list"
  idle_sleep :: sleep_env

definition sleep_attempt :: "pwr_platform \<Rightarrow> idle_env \<Rightarrow> u32 \<Rightarrow> uart_rx \<Rightarrow> pwr_t \<Rightarrow> u32 \<times> uart_rx \<times> pwr_t" where
  "sleep_attempt pf env time rx p =
     (let rx = UART1_IRQHandler False False (idle_late env) rx;
          (rc, p) = pwr_sleep_until pf (idle_sleep env) rx time p
      in (rc, rx, p))"

definition CH59x_LowPower ::
    "pwr_platform \<Rightarrow> bool \<Rightarrow> idle_env \<Rightarrow> 'f rf_t \<Rightarrow> bool \<Rightarrow> kbd_uart \<Rightarrow> u32 \<Rightarrow> uart_rx \<Rightarrow> pwr_t
      \<Rightarrow> u32 \<times> uart_rx \<times> pwr_t" where
  "CH59x_LowPower pf hwk env rf openboot_pending k time rx p =
     (let tx_idle = KeyboardUart_TxIdle hwk (idle_tfc env) (idle_all_emp env) k in
      if pwr_explicit_request p then
        (if RF_GetState rf \<noteq> RF_STATE_IDLE \<or> openboot_pending \<or> \<not> tx_idle \<or> \<not> KeyboardUart_RxQuiet rx
         then (3, rx, p)
         else
           (let (rc, rx, p) = sleep_attempt pf env time rx p
            in (rc, rx, if rc = 0 \<and> pwr_gpio_woke p then p\<lparr>pwr_explicit_request := False\<rparr> else p)))
      else if \<not> pwr_autosleep p then (3, rx, p)
      else if openboot_pending then (3, rx, PWR_ABORT PWR_ABORT_OPENBOOT p)
      else
        (let (expired, rx, p) = pwr_holdoff_expired pf (idle_now env) rx p in
         if \<not> expired then (3, rx, p)
         else if \<not> tx_idle then (3, rx, PWR_ABORT PWR_ABORT_TX p)
         else if \<not> KeyboardUart_RxQuiet rx then (3, rx, PWR_ABORT PWR_ABORT_RX p)
         else if RF_GetState rf \<noteq> RF_STATE_IDLE \<and> \<not> RF_CanDeepSleep rf
         then (3, rx, PWR_ABORT PWR_ABORT_RF p)
         else sleep_attempt pf env time rx p))"

section \<open>Initialisation\<close>

text \<open>\<open>reset_status\<close> is the byte the startup code stashed.\<close>

definition HAL_SleepInit :: "u8 \<Rightarrow> pwr_t \<Rightarrow> pwr_t" where
  "HAL_SleepInit reset_status p =
     (let p = pcall Slp_Rtc_Wake p;
          p = pcall Rtc_Pfic_Enable p
      in if reset_status AND 0x07 = 0x02 then p\<lparr>pwr_diag := (pwr_diag p)\<lparr>pwr_forensics_frozen := True\<rparr>\<rparr>
         else p\<lparr>pwr_diag := (pwr_diag p)\<lparr>diag_live := (diag_live (pwr_diag p))
                  \<lparr>ds_pwr_sleep_attempt := 0, ds_pwr_sleep_entered := 0, ds_pwr_sleep_aborted := 0,
                   ds_pwr_wake_gpio := 0, ds_pwr_wake_rtc := 0, ds_pwr_last_abort_reason := 0,
                   ds_pwr_loop_passes := 0, ds_pwr_loop_stage := 0\<rparr>\<rparr>\<rparr>)"

section \<open>Reading the calls\<close>

text \<open>The last call that sets a switch decides its position; the trigger time is the last one set.\<close>

fun latest :: "(pwr_call \<Rightarrow> 'b option) \<Rightarrow> pwr_call list \<Rightarrow> 'b option" where
  "latest f [] = None"
| "latest f (c # l) = (case f c of None \<Rightarrow> latest f l | Some v \<Rightarrow> Some v)"

fun irq_switch :: "pwr_call \<Rightarrow> bool option" where
  "irq_switch Csr_Mask = Some False"
| "irq_switch (Csr_Restore s) = (if s AND 0x08 \<noteq> 0 then Some True else None)"
| "irq_switch c = None"

fun rtc_switch :: "pwr_call \<Rightarrow> bool option" where
  "rtc_switch (Rtc_Trig_En b) = Some b"
| "rtc_switch c = None"

fun edge_switch :: "pwr_call \<Rightarrow> bool option" where
  "edge_switch Gpio_Fall_Edge = Some True"
| "edge_switch Gpio_Int_En_Off = Some False"
| "edge_switch c = None"

fun gpio_irq_switch :: "pwr_call \<Rightarrow> bool option" where
  "gpio_irq_switch (Gpio_Pfic b) = Some b"
| "gpio_irq_switch c = None"

fun wake_switch :: "pwr_call \<Rightarrow> bool option" where
  "wake_switch (Periph_Wake b) = Some b"
| "wake_switch c = None"

fun trigger_of :: "pwr_call \<Rightarrow> u32 option" where
  "trigger_of (Rtc_Set_Trigger t) = Some t"
| "trigger_of c = None"

definition wakes_on :: "pwr_call list \<Rightarrow> bool" where
  "wakes_on l \<longleftrightarrow> latest irq_switch l = Some True \<and> latest rtc_switch l = Some True
     \<and> latest edge_switch l = Some True \<and> latest gpio_irq_switch l = Some True
     \<and> latest wake_switch l = Some True"

definition wakes_off :: "pwr_call list \<Rightarrow> bool" where
  "wakes_off l \<longleftrightarrow> latest rtc_switch l \<noteq> Some True \<and> latest edge_switch l \<noteq> Some True
     \<and> latest gpio_irq_switch l \<noteq> Some True \<and> latest wake_switch l \<noteq> Some True"

text \<open>Every sleep in the log was entered with both wake sources on and the interrupts unmasked.\<close>

fun sleeps_armed :: "pwr_call list \<Rightarrow> bool" where
  "sleeps_armed [] = True"
| "sleeps_armed (Low_Power rm # l) = (wakes_on l \<and> sleeps_armed l)"
| "sleeps_armed (c # l) = sleeps_armed l"

text \<open>The sleeps of a log, each with the trigger time it was entered with.\<close>

fun sleeps :: "pwr_call list \<Rightarrow> u32 option list" where
  "sleeps [] = []"
| "sleeps (Low_Power rm # l) = latest trigger_of l # sleeps l"
| "sleeps (c # l) = sleeps l"

lemmas pwr_basic_defs = pcall_def pwr_diag_live_def PWR_DIAG_INC16_def PWR_ABORT_def pwr_note_activity_def
lemmas pwr_step_defs = pwr_gpio_wake_arm_def pwr_gpio_wake_disarm_def GPIO_IRQHandler_def
  pwr_rtc_trig_arm_def pwr_rtc_trig_disarm_def pwr_low_power_sleep_def

lemma diag_frame [simp]:
  "pwr_calls (pwr_diag_live f p) = pwr_calls p" "pwr_autosleep (pwr_diag_live f p) = pwr_autosleep p"
  "pwr_gpio_woke (pwr_diag_live f p) = pwr_gpio_woke p"
  "pwr_explicit_request (pwr_diag_live f p) = pwr_explicit_request p"
  "pwr_holdoff_start (pwr_diag_live f p) = pwr_holdoff_start p"
  "pwr_holdoff_active (pwr_diag_live f p) = pwr_holdoff_active p"
  by (simp_all add: pwr_diag_live_def)

text \<open>\<open>pwr_sleep_until\<close> enters the sleep exactly when its checks pass.\<close>

definition sleep_wanted :: "pwr_platform \<Rightarrow> u32 \<Rightarrow> u32" where
  "sleep_wanted pf time = pwr_rtc_sub (RTC_MAX_COUNT pf) time (WAKE_UP_RTC_MAX_TIME pf)"

definition sleep_length :: "pwr_platform \<Rightarrow> u32 \<Rightarrow> u32 \<Rightarrow> u32" where
  "sleep_length pf now time =
     (if time < now then time + (RTC_MAX_COUNT pf - now) else time - now)"

definition sleep_clear :: "pwr_platform \<Rightarrow> sleep_env \<Rightarrow> uart_rx \<Rightarrow> u32 \<Rightarrow> bool" where
  "sleep_clear pf env rx time \<longleftrightarrow>
     irq_state env AND 0x08 \<noteq> 0
     \<and> SLEEP_RTC_MIN_TIME pf \<le> sleep_length pf (time_curr env) (sleep_wanted pf time)
     \<and> sleep_length pf (time_curr env) (sleep_wanted pf time) \<le> SLEEP_RTC_MAX_TIME pf
     \<and> \<not> rx_line_low env \<and> \<not> gpio_if env \<and> \<not> gpio_pending env \<and> uart_rfc env = 0
     \<and> KeyboardUart_RxQuiet rx
     \<and> \<not> rtc_tig_flag env \<and> \<not> rtc_trig_flag env \<and> \<not> rtc_pending env"

text \<open>The three ways a call goes: refused before the wake sources are armed, vetoed after, or entered.\<close>

definition sleep_armed :: "sleep_env \<Rightarrow> u32 \<Rightarrow> pwr_t \<Rightarrow> pwr_t" where
  "sleep_armed env t p =
     pcall Sctlr_Plain (pwr_gpio_wake_arm ((pwr_rtc_trig_arm t (pcall Csr_Mask p))\<lparr>pwr_gpio_woke := False\<rparr>))"

definition sleep_disarmed :: "sleep_env \<Rightarrow> bool \<Rightarrow> pwr_t \<Rightarrow> pwr_t" where
  "sleep_disarmed env int_if p =
     pcall (Csr_Restore (irq_state env)) (pwr_rtc_trig_disarm (pwr_gpio_wake_disarm int_if p))"

definition sleep_entered :: "pwr_platform \<Rightarrow> sleep_env \<Rightarrow> pwr_t \<Rightarrow> pwr_t" where
  "sleep_entered pf env p =
     (let p = pcall (Csr_Restore (irq_state env))
                (PWR_DIAG_INC16 ds_pwr_sleep_entered_update
                  (if WATCHDOG_ENABLE pf then pcall Wwdg_Restart p else p));
          p = pwr_low_power_sleep (SLEEP_RAM pf) p;
          p = pcall Csr_Mask (if gpio_isr env then GPIO_IRQHandler p else p)
      in if tig_after env then PWR_DIAG_INC16 ds_pwr_wake_rtc_update p
         else if pwr_gpio_woke p
         then pwr_note_activity (time_wake env) (PWR_DIAG_INC16 ds_pwr_wake_gpio_update p)
         else PWR_ABORT PWR_ABORT_LATE p)"

lemma armed_not_woke [simp]: "\<not> pwr_gpio_woke (sleep_armed env t p)"
  by (simp add: sleep_armed_def pwr_step_defs pcall_def)

lemma sleep_until_unfold:
  "pwr_sleep_until pf env rx time p =
     (let p = PWR_DIAG_INC16 ds_pwr_sleep_attempt_update p; t = sleep_wanted pf time;
          n = sleep_length pf (time_curr env) t
      in if irq_state env AND 0x08 = 0
         then (3, PWR_ABORT PWR_ABORT_LATE (pcall (Csr_Restore (irq_state env)) (pcall Csr_Mask p)))
         else if n < SLEEP_RTC_MIN_TIME pf \<or> SLEEP_RTC_MAX_TIME pf < n
         then (2, PWR_ABORT PWR_ABORT_WINDOW (pcall (Csr_Restore (irq_state env)) (pcall Csr_Mask p)))
         else if sleep_clear pf env rx time
         then (0, sleep_disarmed env (gpio_if_after env) (sleep_entered pf env (sleep_armed env t p)))
         else (3, PWR_ABORT (if rx_line_low env \<or> gpio_if env \<or> gpio_pending env \<or> uart_rfc env \<noteq> 0
                              \<or> \<not> KeyboardUart_RxQuiet rx then PWR_ABORT_RXLINE else PWR_ABORT_LATE)
                   (sleep_disarmed env (gpio_if env) (sleep_armed env t p))))"
  unfolding pwr_sleep_until_def sleep_wanted_def [symmetric] sleep_length_def [symmetric] Let_def
    sleep_armed_def [where env = env, symmetric] sleep_disarmed_def [symmetric]
    sleep_entered_def [unfolded Let_def, symmetric] armed_not_woke
  by (auto simp add: sleep_clear_def not_less)

lemma sleep_until_entered:
  "fst (pwr_sleep_until pf env rx time p) = 0 \<longleftrightarrow> sleep_clear pf env rx time"
  by (auto simp: sleep_until_unfold Let_def sleep_clear_def not_less)

lemmas sleep_shape_defs = sleep_armed_def sleep_disarmed_def sleep_entered_def pwr_step_defs

lemma sleep_until_sleeps:
  "sleeps (pwr_calls (snd (pwr_sleep_until pf env rx time p))) =
     (if sleep_clear pf env rx time then [Some (sleep_wanted pf time)] else []) @ sleeps (pwr_calls p)"
proof -
  have a: "sleeps (pwr_calls (sleep_armed env t q)) = sleeps (pwr_calls q)" for t q
    by (simp add: sleep_shape_defs pcall_def)
  have d: "sleeps (pwr_calls (sleep_disarmed env b q)) = sleeps (pwr_calls q)" for b q
    by (simp add: sleep_shape_defs pcall_def Let_def)
  have e: "sleeps (pwr_calls (sleep_entered pf env (sleep_armed env t q))) = Some t # sleeps (pwr_calls q)" for t q
    by (simp add: sleep_shape_defs pcall_def PWR_DIAG_INC16_def PWR_ABORT_def pwr_note_activity_def Let_def)
  show ?thesis
    by (auto simp: sleep_until_unfold Let_def a d e PWR_ABORT_def PWR_DIAG_INC16_def pcall_def
        sleep_clear_def not_less)
qed

section \<open>The switches between two operations\<close>

text \<open>Between operations the wake sources are off, the interrupts are not left masked, and every sleep so far
  was entered with the wake sources on.\<close>

definition pwr_ok :: "pwr_t \<Rightarrow> bool" where
  "pwr_ok p \<longleftrightarrow> sleeps_armed (pwr_calls p) \<and> wakes_off (pwr_calls p) \<and> latest irq_switch (pwr_calls p) \<noteq> Some False"

lemma pwr_ok_calls: "pwr_calls q = pwr_calls p \<Longrightarrow> pwr_ok q = pwr_ok p"
  by (simp add: pwr_ok_def)

definition pwr_bss :: "diag_state \<Rightarrow> pwr_t" where
  "pwr_bss d = \<lparr>pwr_autosleep = False, pwr_gpio_woke = False, pwr_explicit_request = False,
     pwr_holdoff_start = 0, pwr_holdoff_active = False, pwr_diag = d, pwr_calls = []\<rparr>"

lemma pwr_ok_boot: "pwr_ok (HAL_SleepInit st (pwr_bss d))"
  by (simp add: pwr_ok_def HAL_SleepInit_def pwr_bss_def pcall_def wakes_off_def Let_def)

text \<open>A sleep is entered with interrupts unmasked only because the attempt demands it of its caller.\<close>

lemma pwr_ok_refused:
  "pwr_ok p \<Longrightarrow> irq_state env AND 0x08 \<noteq> 0 \<Longrightarrow> pwr_ok (pcall (Csr_Restore (irq_state env)) (pcall Csr_Mask p))"
  by (simp add: pwr_ok_def pcall_def wakes_off_def)

lemma pwr_ok_vetoed:
  "pwr_ok p \<Longrightarrow> irq_state env AND 0x08 \<noteq> 0 \<Longrightarrow> pwr_ok (sleep_disarmed env b (sleep_armed env t p))"
  by (simp add: pwr_ok_def sleep_shape_defs pcall_def wakes_off_def Let_def)

lemma pwr_ok_entered:
  "pwr_ok p \<Longrightarrow> irq_state env AND 0x08 \<noteq> 0 \<Longrightarrow>
    pwr_ok (sleep_disarmed env b (sleep_entered pf env (sleep_armed env t p)))"
  by (simp add: pwr_ok_def sleep_shape_defs pcall_def wakes_off_def wakes_on_def Let_def
      PWR_DIAG_INC16_def PWR_ABORT_def pwr_note_activity_def)

lemma pwr_ok_sleep_until:
  assumes "pwr_ok p" and "irq_state env AND 0x08 \<noteq> 0"
  shows "pwr_ok (snd (pwr_sleep_until pf env rx time p))"
proof -
  have q: "pwr_ok (PWR_DIAG_INC16 u p)" for u
    using assms(1) by (simp add: PWR_DIAG_INC16_def pwr_ok_def)
  have a: "pwr_ok (PWR_ABORT r t) = pwr_ok t" for r t
    by (simp add: PWR_ABORT_def pwr_ok_def)
  show ?thesis
    using assms(2)
    by (simp add: sleep_until_unfold Let_def a pwr_ok_refused [OF q] pwr_ok_vetoed [OF q] pwr_ok_entered [OF q])
qed

lemma attempt_rx_quiet:
  assumes "rx_wf rx" and "KeyboardUart_RxQuiet (UART1_IRQHandler False False bs rx)"
  shows "bs = [] \<and> KeyboardUart_RxQuiet rx"
proof (cases bs rule: rev_cases)
  case Nil
  then show ?thesis using assms(2) by (simp add: UART1_IRQHandler_def Let_def)
next
  case (snoc cs c)
  let ?u = "fold isr_byte cs rx"
  have wf: "rx_wf ?u" using assms(1) by (induction cs arbitrary: rx) (simp_all add: rx_wf_isr)
  have "\<not> KeyboardUart_RxQuiet (isr_byte c ?u)"
  proof (cases "length (rx_items ?u) < 64")
    case True
    then have "rx_items (isr_byte c ?u) \<noteq> []" using rx_items_isr [OF wf, of c] by (simp add: list_put_def)
    then show ?thesis by (simp add: KeyboardUart_RxQuiet_def rx_items_empty)
  next
    case False
    then have "rx_overrun_latch (isr_byte c ?u)"
      by (simp add: isr_byte_def Let_def length_rx_items KBD_UART_RING_SIZE_def)
    then show ?thesis by (simp add: KeyboardUart_RxQuiet_def)
  qed
  with assms(2) snoc show ?thesis by (simp add: UART1_IRQHandler_def Let_def)
qed

text \<open>The autonomous sleep: what the holdoff check leaves.\<close>

definition host_silent :: "pwr_platform \<Rightarrow> u32 \<Rightarrow> uart_rx \<Rightarrow> pwr_t \<Rightarrow> bool" where
  "host_silent pf now rx p \<longleftrightarrow> \<not> rx_activity_latch rx
     \<and> (pwr_holdoff_active p \<longrightarrow>
          MS_TO_RTC pf KBD_AUTOSLEEP_HOLDOFF_MS \<le> rtc_ticks_elapsed pf now (pwr_holdoff_start p))"

lemma holdoff_cases:
  "pwr_holdoff_expired pf now rx p =
     (host_silent pf now rx p, rx\<lparr>rx_activity_latch := False\<rparr>,
      if rx_activity_latch rx then pwr_note_activity now p
      else if host_silent pf now rx p then p\<lparr>pwr_holdoff_active := False\<rparr> else p)"
  by (auto simp: pwr_holdoff_expired_def host_silent_def KeyboardUart_TakeRxActivity_def Let_def)

lemma quiet_latch [simp]: "KeyboardUart_RxQuiet (rx\<lparr>rx_activity_latch := b\<rparr>) = KeyboardUart_RxQuiet rx"
  by (simp add: KeyboardUart_RxQuiet_def)

text \<open>\<open>CH59x_LowPower\<close>: the permission, and the attempt it then makes.\<close>

definition sleep_allowed ::
    "pwr_platform \<Rightarrow> bool \<Rightarrow> idle_env \<Rightarrow> 'f rf_t \<Rightarrow> bool \<Rightarrow> kbd_uart \<Rightarrow> uart_rx \<Rightarrow> pwr_t \<Rightarrow> bool" where
  "sleep_allowed pf hwk env rf ob k rx p \<longleftrightarrow>
     \<not> ob \<and> KeyboardUart_TxIdle hwk (idle_tfc env) (idle_all_emp env) k \<and> KeyboardUart_RxQuiet rx
     \<and> (if pwr_explicit_request p then RF_GetState rf = RF_STATE_IDLE
        else pwr_autosleep p \<and> RF_CanDeepSleep rf \<and> host_silent pf (idle_now env) rx p)"

lemma attempt_eq:
  "sleep_attempt pf env time rx p =
     (fst (pwr_sleep_until pf (idle_sleep env) (UART1_IRQHandler False False (idle_late env) rx) time p),
      UART1_IRQHandler False False (idle_late env) rx,
      snd (pwr_sleep_until pf (idle_sleep env) (UART1_IRQHandler False False (idle_late env) rx) time p))"
  by (simp add: sleep_attempt_def Let_def case_prod_beta)

lemma low_power_refused:
  assumes "\<not> sleep_allowed pf hwk env rf ob k rx p"
  shows "fst (CH59x_LowPower pf hwk env rf ob k time rx p) = 3
    \<and> pwr_calls (snd (snd (CH59x_LowPower pf hwk env rf ob k time rx p))) = pwr_calls p
    \<and> pwr_explicit_request (snd (snd (CH59x_LowPower pf hwk env rf ob k time rx p))) = pwr_explicit_request p"
  using assms
  by (auto simp: CH59x_LowPower_def sleep_allowed_def Let_def holdoff_cases pwr_note_activity_def PWR_ABORT_def
      RF_GetState_def RF_CanDeepSleep_def split: if_splits)

definition take_activity :: "pwr_t \<Rightarrow> uart_rx \<Rightarrow> uart_rx" where
  "take_activity p rx = (if pwr_explicit_request p then rx else rx\<lparr>rx_activity_latch := False\<rparr>)"

definition end_holdoff :: "pwr_t \<Rightarrow> pwr_t" where
  "end_holdoff p = (if pwr_explicit_request p then p else p\<lparr>pwr_holdoff_active := False\<rparr>)"

lemma low_power_allowed:
  assumes "sleep_allowed pf hwk env rf ob k rx p"
  shows "CH59x_LowPower pf hwk env rf ob k time rx p =
    (let (rc, rx', p') = sleep_attempt pf env time (take_activity p rx) (end_holdoff p)
     in (rc, rx', if pwr_explicit_request p \<and> rc = 0 \<and> pwr_gpio_woke p'
                  then p'\<lparr>pwr_explicit_request := False\<rparr> else p'))"
  using assms
  by (auto simp: CH59x_LowPower_def sleep_allowed_def take_activity_def end_holdoff_def Let_def holdoff_cases
      host_silent_def RF_GetState_def attempt_eq)

lemma explicit_kept: "pwr_explicit_request (snd (pwr_sleep_until pf env rx time p)) = pwr_explicit_request p"
  by (simp add: sleep_until_unfold Let_def sleep_shape_defs pcall_def PWR_ABORT_def PWR_DIAG_INC16_def
      pwr_note_activity_def)

lemma autosleep_kept: "pwr_autosleep (snd (pwr_sleep_until pf env rx time p)) = pwr_autosleep p"
  by (simp add: sleep_until_unfold Let_def sleep_shape_defs pcall_def PWR_ABORT_def PWR_DIAG_INC16_def
      pwr_note_activity_def)

lemma low_power_flags:
  "pwr_explicit_request (snd (snd (CH59x_LowPower pf hwk env rf ob k time rx p))) \<Longrightarrow> pwr_explicit_request p"
  "pwr_autosleep (snd (snd (CH59x_LowPower pf hwk env rf ob k time rx p))) = pwr_autosleep p"
proof -
  have "(pwr_explicit_request (snd (snd (CH59x_LowPower pf hwk env rf ob k time rx p))) \<longrightarrow> pwr_explicit_request p)
    \<and> pwr_autosleep (snd (snd (CH59x_LowPower pf hwk env rf ob k time rx p))) = pwr_autosleep p"
  proof (cases "sleep_allowed pf hwk env rf ob k rx p")
    case True
    then show ?thesis
      by (simp add: low_power_allowed attempt_eq explicit_kept autosleep_kept end_holdoff_def)
  next
    case False
    then show ?thesis
      by (auto simp: CH59x_LowPower_def sleep_allowed_def Let_def holdoff_cases pwr_note_activity_def PWR_ABORT_def
          RF_GetState_def RF_CanDeepSleep_def split: if_splits)
  qed
  then show "pwr_explicit_request (snd (snd (CH59x_LowPower pf hwk env rf ob k time rx p))) \<Longrightarrow> pwr_explicit_request p"
    "pwr_autosleep (snd (snd (CH59x_LowPower pf hwk env rf ob k time rx p))) = pwr_autosleep p" by simp_all
qed

lemma low_power_ok:
  assumes "pwr_ok p" and "irq_state (idle_sleep env) AND 0x08 \<noteq> 0"
  shows "pwr_ok (snd (snd (CH59x_LowPower pf hwk env rf ob k time rx p)))"
proof (cases "sleep_allowed pf hwk env rf ob k rx p")
  case True
  have "pwr_ok (end_holdoff p)" using assms(1) by (simp add: end_holdoff_def pwr_ok_def)
  from pwr_ok_sleep_until [OF this assms(2)]
  have "pwr_ok (snd (pwr_sleep_until pf (idle_sleep env) r time (end_holdoff p)))" for r .
  with low_power_allowed [OF True] show ?thesis by (simp add: attempt_eq pwr_ok_def)
next
  case False
  with low_power_refused [OF False] assms(1) show ?thesis by (simp add: pwr_ok_def)
qed

section \<open>The holdoff in true time\<close>

lemma elapsed_true:
  assumes m: "0 < M" "M < 4294967296" and le: "n \<le> x" "x - n + 1024 < M"
  shows "unat (SleepProtocol_ElapsedTicks (rtc_raw M x) (rtc_raw M n) (of_nat M) 1024) = x - n"
proof -
  have M: "M < 2 ^ 32" using m(2) by simp
  have lt: "x - n < M" using le by simp
  have f: "unat (if rtc_raw M n \<le> rtc_raw M x then rtc_raw M x - rtc_raw M n
                 else rtc_raw M x + (of_nat M - rtc_raw M n) :: u32) = x - n"
    by (rule rtc_forward_delta [OF m(1) M le(1) lt])
  have "\<not> rtc_raw M n - rtc_raw M x \<le> (1024 :: u32)" if "\<not> rtc_raw M n \<le> rtc_raw M x"
  proof -
    have u: "unat (rtc_raw M y) = y mod M" for y by (rule unat_rtc_raw [OF m(1) M])
    have g: "x mod M < n mod M" using that by (simp add: word_le_nat_alt u)
    have "unat (rtc_raw M n - rtc_raw M x) = n mod M - x mod M"
      using that by (simp add: unat_sub_le u)
    moreover have "x mod M + (M - n mod M) = x - n" using mod_forward [OF le(1) lt] g by simp
    moreover have "n mod M < M" using m(1) by simp
    ultimately show ?thesis using le(2) g by (simp add: word_le_nat_alt)
  qed
  with f show ?thesis by (auto simp: SleepProtocol_ElapsedTicks_def)
qed

text \<open>Two limits of the holdoff.  A wake by the RTC and the host together starts none; and a stale reading
  taken just after the counter wrapped expires one at once, the backstep allowance notwithstanding.\<close>

lemma rtc_wake_hides_host_wake:
  assumes "sleep_clear pf env rx time" and "gpio_isr env" and "tig_after env"
  shows "let p' = snd (pwr_sleep_until pf env rx time p) in
    pwr_gpio_woke p' \<and> pwr_holdoff_active p' = pwr_holdoff_active p \<and> pwr_holdoff_start p' = pwr_holdoff_start p"
  using assms
  by (auto simp: sleep_until_unfold Let_def sleep_clear_def not_less sleep_shape_defs pcall_def PWR_ABORT_def
      PWR_DIAG_INC16_def)

lemma backstep_across_wrap_expires:
  assumes "RTC_MAX_COUNT pf = 2831155200" and "MS_TO_RTC pf 100 \<le> 100000" and "\<not> rx_activity_latch rx"
  shows "host_silent pf 2831155195 rx (PowerSleep_NoteActivity 3 p)"
  using assms order_trans [OF assms(2), of 2831155192]
  by (simp add: host_silent_def PowerSleep_NoteActivity_def pwr_note_activity_def rtc_ticks_elapsed_def
      SleepProtocol_ElapsedTicks_def PWR_RTC32K_BACKSTEP_TOLERANCE_def KBD_AUTOSLEEP_HOLDOFF_MS_def)

section \<open>Properties\<close>

text \<open>
  C14: Deep sleep is guarded: a call of the idle callback sleeps at most once, with the RTC trigger at the
  deadline it was given less the wake margin, and reports exactly that to TMOS as 0.  It sleeps only
  with no bootloader entry pending, nothing left to send, no byte received and unread (not even one
  that arrives during the checks), a radio that may be off, a deadline inside the allowed window, no
  wake source already asserted, and either the host's explicit request in IDLE or auto-sleep armed with
  the host silent.  The request survives the call unless the host's GPIO edge woke this sleep.
\<close>

theorem deep_sleep_guarded:
  assumes "CH59x_LowPower pf hwk env rf ob k time rx p = (rc, rx', p')" and "rx_wf rx"
  shows "sleeps (pwr_calls p') =
           (if rc = 0 then [Some (pwr_rtc_sub (RTC_MAX_COUNT pf) time (WAKE_UP_RTC_MAX_TIME pf))] else [])
             @ sleeps (pwr_calls p)
    \<and> (rc = 0 \<longrightarrow> \<not> ob \<and> KeyboardUart_TxIdle hwk (idle_tfc env) (idle_all_emp env) k
         \<and> rx_items rx = [] \<and> idle_late env = [] \<and> uart_rfc (idle_sleep env) = 0
         \<and> RF_CanDeepSleep rf
         \<and> (pwr_explicit_request p \<and> rf_state rf = RF_STATE_IDLE
            \<or> pwr_autosleep p \<and> host_silent pf (idle_now env) rx p)
         \<and> sleep_clear pf (idle_sleep env) rx time)
    \<and> (pwr_explicit_request p' \<longleftrightarrow> pwr_explicit_request p \<and> \<not> (rc = 0 \<and> pwr_gpio_woke p'))"
proof (cases "sleep_allowed pf hwk env rf ob k rx p")
  case True
  let ?rx = "take_activity p rx" and ?p = "end_holdoff p"
  let ?late = "UART1_IRQHandler False False (idle_late env) ?rx"
  let ?u = "pwr_sleep_until pf (idle_sleep env) ?late time ?p"
  have r: "rc = fst ?u" "pwr_calls p' = pwr_calls (snd ?u)" "pwr_gpio_woke p' = pwr_gpio_woke (snd ?u)"
    "pwr_explicit_request p' = (pwr_explicit_request p \<and> \<not> (rc = 0 \<and> pwr_gpio_woke p'))"
    using assms(1) low_power_allowed [OF True, of time] explicit_kept [of pf "idle_sleep env" ?late time ?p]
    by (auto simp: attempt_eq end_holdoff_def split: if_splits)
  have c: "pwr_calls ?p = pwr_calls p" by (simp add: end_holdoff_def)
  have s: "sleeps (pwr_calls p') = (if rc = 0 then [Some (sleep_wanted pf time)] else []) @ sleeps (pwr_calls p)"
    by (simp add: r(1,2) sleep_until_sleeps sleep_until_entered c)
  have "idle_late env = [] \<and> KeyboardUart_RxQuiet rx \<and> sleep_clear pf (idle_sleep env) rx time" if "rc = 0"
  proof -
    have cl: "sleep_clear pf (idle_sleep env) ?late time" using that r(1) by (simp add: sleep_until_entered)
    have "rx_wf ?rx" using assms(2) by (simp add: take_activity_def rx_wf_def)
    from attempt_rx_quiet [OF this, of "idle_late env"] cl
    have "idle_late env = []" "KeyboardUart_RxQuiet ?rx" by (auto simp: sleep_clear_def)
    with cl show ?thesis by (simp add: sleep_clear_def take_activity_def split: if_splits)
  qed
  with True r(4) s show ?thesis
    by (auto simp: sleep_allowed_def sleep_wanted_def sleep_clear_def rx_items_empty KeyboardUart_RxQuiet_def
        RF_GetState_def RF_CanDeepSleep_def split: if_splits)
next
  case False
  from low_power_refused [OF this, of time] assms(1) show ?thesis by simp
qed

definition demo_platform :: pwr_platform where
  "demo_platform = \<lparr>RTC_MAX_COUNT = 2831155200, MS_TO_RTC = (\<lambda>ms. ms * 32768 div 1000),
     WAKE_UP_RTC_MAX_TIME = 45, SLEEP_RTC_MIN_TIME = 33, SLEEP_RTC_MAX_TIME = 2831122432, SLEEP_RAM = 0x1802,
     WATCHDOG_ENABLE = True\<rparr>"

definition demo_sleep :: sleep_env where
  "demo_sleep = \<lparr>irq_state = 0x88, time_curr = 5000, rx_line_low = False, gpio_if = False,
     gpio_pending = False, uart_rfc = 0, rtc_tig_flag = False, rtc_trig_flag = False, rtc_pending = False,
     gpio_isr = True, tig_after = False, time_wake = 6000, gpio_if_after = False\<rparr>"

definition demo_idle :: idle_env where
  "demo_idle = \<lparr>idle_tfc = 0, idle_all_emp = True, idle_now = 5000, idle_late = [], idle_sleep = demo_sleep\<rparr>"

definition demo_kbd :: kbd_uart where
  "demo_kbd = \<lparr>k_tx = \<lparr>thr = [], tfc_reads = [], rtc_reads = []\<rparr>, host_wake = HostWake_Init 0 0 0,
     chwake_level = False, chwake_pin = []\<rparr>"

definition demo_diag :: diag_state where
  "demo_diag = \<lparr>diag_live = the (diag_parse (0x5D # 89 # 3 # replicate 88 0 @ [185])), pwr_forensics_frozen = False\<rparr>"

theorem deep_sleep_guarded_witness:
  "let rf = rf_bss ([] :: u8 list); p = PowerSleep_RequestExplicit (HAL_SleepInit 0 (pwr_bss demo_diag));
       r = CH59x_LowPower demo_platform True demo_idle rf False demo_kbd 9000 uart_rx_init p
   in fst r = 0 \<and> sleeps (pwr_calls (snd (snd r))) = [Some 8955] \<and> \<not> pwr_explicit_request (snd (snd r))"
proof -
  let ?p = "PowerSleep_RequestExplicit (HAL_SleepInit 0 (pwr_bss demo_diag))"
  let ?r = "CH59x_LowPower demo_platform True demo_idle (rf_bss ([] :: u8 list)) False demo_kbd 9000 uart_rx_init ?p"
  have r: "fst ?r = 0" "pwr_gpio_woke (snd (snd ?r))" "sleeps (pwr_calls ?p) = []"
    "pwr_rtc_sub (RTC_MAX_COUNT demo_platform) 9000 (WAKE_UP_RTC_MAX_TIME demo_platform) = 8955" by code_simp+
  have wf: "rx_wf uart_rx_init" by code_simp
  have eq: "?r = (fst ?r, fst (snd ?r), snd (snd ?r))" by simp
  show ?thesis using deep_sleep_guarded [OF eq wf] unfolding r by (simp only: Let_def r simp_thms if_True append_Nil2)
qed

text \<open>
  C15: The holdoff protects a talking host for exactly its length: after activity at true time \<open>n\<close>, through a
  wrap of the RTC counter or not, the idle callback takes no autonomous sleep at a time less than the
  holdoff later, and from then on the holdoff no longer stands in the way (for silences shorter than a
  period of the counter less the backstep allowance).
\<close>

theorem holdoff_protects_host:
  assumes "RTC_MAX_COUNT pf = of_nat M" "0 < M" "M < 4294967296"
    and "n \<le> x" "x - n + 1024 < M" and "\<not> pwr_explicit_request p" and "\<not> rx_activity_latch rx"
  defines "p1 \<equiv> PowerSleep_NoteActivity (rtc_raw M n) p"
  shows "(x - n < unat (MS_TO_RTC pf KBD_AUTOSLEEP_HOLDOFF_MS) \<and> idle_now env = rtc_raw M x \<longrightarrow>
            fst (CH59x_LowPower pf hwk env rf ob k time rx p1) = 3)
       \<and> (fst (pwr_holdoff_expired pf (rtc_raw M x) rx p1) \<longleftrightarrow>
            unat (MS_TO_RTC pf KBD_AUTOSLEEP_HOLDOFF_MS) \<le> x - n)"
proof -
  have silent: "host_silent pf (rtc_raw M x) rx p1 \<longleftrightarrow> unat (MS_TO_RTC pf KBD_AUTOSLEEP_HOLDOFF_MS) \<le> x - n"
    using assms(7) elapsed_true [OF assms(2-5)]
    by (simp add: host_silent_def p1_def PowerSleep_NoteActivity_def pwr_note_activity_def rtc_ticks_elapsed_def
        assms(1) PWR_RTC32K_BACKSTEP_TOLERANCE_def word_le_nat_alt)
  have e: "\<not> pwr_explicit_request p1"
    using assms(6) by (simp add: p1_def PowerSleep_NoteActivity_def pwr_note_activity_def)
  have "\<not> sleep_allowed pf hwk env rf ob k rx p1"
    if "x - n < unat (MS_TO_RTC pf KBD_AUTOSLEEP_HOLDOFF_MS)" and "idle_now env = rtc_raw M x"
    using that silent e by (simp add: sleep_allowed_def)
  from low_power_refused [OF this, THEN conjunct1] show ?thesis using silent by (simp add: holdoff_cases)
qed

theorem holdoff_protects_host_witness:
  "let p = PowerSleep_NoteActivity (rtc_raw 2831155200 2831155190)
             (PowerSleep_SetAutosleep 0 True (HAL_SleepInit 0 (pwr_bss demo_diag)));
       env = demo_idle\<lparr>idle_now := rtc_raw 2831155200 2831155210\<rparr>
   in fst (CH59x_LowPower demo_platform True env (rf_bss ([] :: u8 list)) False demo_kbd 9000 uart_rx_init p) = 3"
proof -
  let ?p = "PowerSleep_SetAutosleep 0 True (HAL_SleepInit 0 (pwr_bss demo_diag))"
  have "unat (MS_TO_RTC demo_platform KBD_AUTOSLEEP_HOLDOFF_MS) = 3276" by code_simp
  moreover have "\<not> pwr_explicit_request ?p" "\<not> rx_activity_latch uart_rx_init" by code_simp+
  ultimately show ?thesis
    using holdoff_protects_host [of demo_platform 2831155200 2831155190 2831155210 ?p uart_rx_init
        "demo_idle\<lparr>idle_now := rtc_raw 2831155200 2831155210\<rparr>" True "rf_bss ([] :: u8 list)" False demo_kbd 9000]
    by (simp add: Let_def demo_platform_def)
qed

end
