(* ===== verification/Main_Loop.thy ===== *)
theory Main_Loop
  imports Power_Sleep Rf_Radio "HOL-Library.Monad_Syntax"
begin

text \<open>
  The application \<^verbatim>\<open>firmware/src/main.c\<close>: the frame dispatch, the bootloader and sleep services, the
  heartbeat, the shallow idle and the main loop, composed from the components of the other theories.
  One record holds the whole program; a result \<open>None\<close> is a send that still spins when its readings run
  out (it never happens in a host-wake build for the frames the module originates).  Status and LED
  frames that the link task hands to the UART are recorded in its calls and forwarded here.
\<close>

section \<open>State\<close>

datatype app_call =
    Tmr3_Stop
  | Tmr3_Period u32
  | Tmr3_Ack
  | Tmr3_Int_En
  | Tmr3_Run
  | Tmr3_Pfic
  | Wwdg_Feed
  | Wwdg_Int_Off
  | Wwdg_Clear_Flag
  | Wwdg_Reset_On
  | App_Mask
  | App_Unmask
  | Sctlr_Not_Deep
  | Sctlr_Event
  | Sctlr_Wfe
  | Sctlr_Off
  | Wfi
  | Flash_Off
  | Request_Update

record 'f app =
  a_rf :: "'f rf_t"
  a_kbd :: kbd_uart
  a_rx :: uart_rx
  a_pwr :: pwr_t
  a_sleep :: sleep_proto_t
  a_clock :: rtc_clock
  transport_is_2g4 :: bool
  openboot_entry_pending :: bool
  ob_state :: u8
  ob_start :: u32
  ps_state :: u8
  ps_start :: u32
  hb_fast :: bool
  a_calls :: "app_call list"

text \<open>What the build and the vendor SDK fix.\<close>

record 'f board =
  KBD_HOST_WAKE :: bool
  UART_FIFO_SIZE :: u8
  FREQ_RTC :: u32
  EEPROM :: "'f eeprom"
  PLATFORM :: pwr_platform
  SYS_CLOCK :: u32

definition acall :: "app_call \<Rightarrow> 'f app \<Rightarrow> 'f app" where
  "acall c a = a\<lparr>a_calls := c # a_calls a\<rparr>"

definition OpenBoot_EntryPending :: "'f app \<Rightarrow> bool" where
  "OpenBoot_EntryPending a = openboot_entry_pending a"

text \<open>\<open>RtcClock_Now\<close> on a raw reading of the RTC.\<close>

definition clock_now :: "'f board \<Rightarrow> u32 \<Rightarrow> 'f app \<Rightarrow> 'f app \<times> u32" where
  "clock_now bd raw a =
     (let (clk, now) = RtcClock_Now (RTC_MAX_COUNT (PLATFORM bd)) raw (a_clock a) in (a\<lparr>a_clock := clk\<rparr>, now))"

definition ticks_us :: "'f board \<Rightarrow> u32 \<Rightarrow> u32" where
  "ticks_us bd us = RTC_CLOCK_TICKS_US (FREQ_RTC bd) us"

definition KBD_HOST_WAKE_FRAME_MAX_US :: "bool \<Rightarrow> u32" where
  "KBD_HOST_WAKE_FRAME_MAX_US hwk =
     (if hwk then KBD_HOST_WAKE_GUARD_US + (ucast KBD_HOST_WAKE_ATTEMPTS + 1) * KBD_HOST_WAKE_ACK_TIMEOUT_US else 0)"

definition KBD_HOST_WAKE_BACKLOG_MAX_US :: "bool \<Rightarrow> u32" where
  "KBD_HOST_WAKE_BACKLOG_MAX_US hwk =
     (if hwk then (of_nat HOST_WAKE_QUEUE_SIZE + 2) * KBD_HOST_WAKE_FRAME_MAX_US hwk else 0)"

section \<open>Sending\<close>

definition send_status :: "'f board \<Rightarrow> u8 \<Rightarrow> 'f app \<Rightarrow> 'f app option" where
  "send_status bd b a =
     map_option (\<lambda>k. a\<lparr>a_kbd := k\<rparr>)
       (KeyboardUart_SendStatus (KBD_HOST_WAKE bd) (UART_FIFO_SIZE bd) (FREQ_RTC bd) b (a_kbd a))"

definition send_battery :: "'f board \<Rightarrow> u8 \<Rightarrow> 'f app \<Rightarrow> 'f app option" where
  "send_battery bd b a =
     map_option (\<lambda>k. a\<lparr>a_kbd := k\<rparr>)
       (KeyboardUart_SendBattery (KBD_HOST_WAKE bd) (UART_FIFO_SIZE bd) (FREQ_RTC bd) b (a_kbd a))"

definition send_led :: "'f board \<Rightarrow> u8 \<Rightarrow> 'f app \<Rightarrow> 'f app option" where
  "send_led bd b a =
     map_option (\<lambda>k. a\<lparr>a_kbd := k\<rparr>)
       (KeyboardUart_SendLed (KBD_HOST_WAKE bd) (UART_FIFO_SIZE bd) (FREQ_RTC bd) b (a_kbd a))"

text \<open>What an operation of the link task sent, oldest first, and its forwarding.\<close>

definition rf_new_calls :: "'f rf_t \<Rightarrow> 'f rf_t \<Rightarrow> hw_call list" where
  "rf_new_calls r r' = rev (take (length (calls r') - length (calls r)) (calls r'))"

fun rf_forward :: "'f board \<Rightarrow> hw_call list \<Rightarrow> 'f app \<Rightarrow> 'f app option" where
  "rf_forward bd [] a = Some a"
| "rf_forward bd (Send_Status b # cs) a = Option.bind (send_status bd b a) (rf_forward bd cs)"
| "rf_forward bd (Send_Led b # cs) a = Option.bind (send_led bd b a) (rf_forward bd cs)"
| "rf_forward bd (c # cs) a = rf_forward bd cs a"

definition rf_step :: "'f board \<Rightarrow> rf_op \<Rightarrow> 'f app \<Rightarrow> 'f app option" where
  "rf_step bd op a =
     (let r = rf_exec (EEPROM bd) op (a_rf a)
      in rf_forward bd (rf_new_calls (a_rf a) r) (a\<lparr>a_rf := r\<rparr>))"

section \<open>The frame dispatch\<close>

definition SLEEP_PROTO_STATUS_READY :: u8 where "SLEEP_PROTO_STATUS_READY = 0x37"

fun rf_state_byte :: "rf_state_t \<Rightarrow> u8" where
  "rf_state_byte RF_STATE_IDLE = 0"
| "rf_state_byte RF_STATE_PAIRING = 1"
| "rf_state_byte RF_STATE_CONNECTED = 2"
| "rf_state_byte RF_STATE_RESTING = 3"

text \<open>What every accepted frame does first; \<open>t1\<close> and \<open>t2\<close> are the RTC readings of its two activity marks.\<close>

definition frame_sleep :: "'f board \<Rightarrow> u32 \<Rightarrow> u32 \<Rightarrow> u8 \<Rightarrow> u8 \<Rightarrow> 'f app \<Rightarrow> 'f app option" where
  "frame_sleep bd t1 t2 cmd sub a =
     (let (sp, action) = SleepProtocol_OnFrame cmd sub (openboot_entry_pending a) (a_sleep a);
          a = a\<lparr>a_sleep := sp\<rparr>
      in do {
        a \<leftarrow> (case action of SLEEP_PROTO_SEND_READY \<Rightarrow> send_status bd SLEEP_PROTO_STATUS_READY a | _ \<Rightarrow> Some a);
        let p = PowerSleep_SetAutosleep t1 (autosleep (a_sleep a)) (a_pwr a);
        let p = PowerSleep_NoteActivity t2 p;
        let p = (if SleepProtocol_IsStateChanging cmd sub then PowerSleep_CancelExplicit p else p);
        Some (a\<lparr>a_pwr := p\<rparr>)
      })"

definition a6_command :: "'f board \<Rightarrow> u8 \<Rightarrow> 'f app \<Rightarrow> 'f app option" where
  "a6_command bd sub a =
     (if sub = 0x11 then
        (let a = a\<lparr>transport_is_2g4 := False\<rparr>;
             a = a\<lparr>a_rf := RF_Disconnect (a_rf a)\<rparr>;
             a = a\<lparr>a_rf := RF_DropQueueUnlessReselected (a_rf a)\<rparr>
         in do { a \<leftarrow> send_status bd 0x34 a; send_status bd 0x36 a })
      else if sub = 0x30 then
        (let a = a\<lparr>transport_is_2g4 := True\<rparr>;
             (rf, has_bond) = RF_Select2G4 (a_rf a);
             a = a\<lparr>a_rf := rf\<rparr>
         in do { a \<leftarrow> send_status bd 0x34 a; send_status bd (if has_bond then 0x35 else 0x36) a })
      else if sub = 0x31 \<or> sub = 0x32 \<or> sub = 0x33 then
        (let a = a\<lparr>transport_is_2g4 := False\<rparr>;
             a = a\<lparr>a_rf := RF_Disconnect (a_rf a)\<rparr>;
             a = a\<lparr>a_rf := RF_DropQueueUnlessReselected (a_rf a)\<rparr>
         in do { a \<leftarrow> send_status bd 0x34 a; a \<leftarrow> send_status bd 0x36 a; send_status bd 0x23 a })
      else if sub = 0x51 then
        (if transport_is_2g4 a then
           (if \<not> RF_IdentityValid (a_rf a) then send_status bd 0x36 a
            else
              (let (rf, entered) = RF_EnterPairing (a_rf a);
                   a = a\<lparr>a_rf := rf\<rparr>
               in if entered then do { a \<leftarrow> send_status bd 0x31 a; send_status bd 0x23 a }
                  else send_status bd 0x32 a))
         else Some a)
      else if sub = 0x52 then
        (let a = a\<lparr>a_rf := RF_Disconnect (a_rf a)\<rparr>;
             a = a\<lparr>a_rf := RF_ClearBond (EEPROM bd) (a_rf a)\<rparr>
         in send_status bd 0x33 a)
      else if sub = 0x53 then send_battery bd 100 a
      else if sub = 0x54 \<or> sub = 0x55 \<or> sub = 0x57 \<or> sub = 0x62 then Some a
      else if sub = 0x63 then
        (let a = a\<lparr>transport_is_2g4 := True\<rparr> in
         if \<not> RF_IdentityValid (a_rf a) then send_status bd 0x36 a
         else
           (let a = a\<lparr>a_rf := RF_Disconnect (a_rf a)\<rparr>;
                a = a\<lparr>a_rf := RF_ClearBond (EEPROM bd) (a_rf a)\<rparr>;
                a = a\<lparr>a_rf := fst (RF_EnterPairing (a_rf a))\<rparr>
            in do { a \<leftarrow> send_status bd 0x31 a; send_status bd 0x23 a }))
      else if sub = 0x58 then (if KBD_HOST_WAKE bd then send_status bd 0x38 a else Some a)
      else if sub = 0x70 then Some a
      else if sub = 0x71 then
        map_option (\<lambda>(d, tx). a\<lparr>a_pwr := (a_pwr a)\<lparr>pwr_diag := d\<rparr>, a_kbd := (a_kbd a)\<lparr>k_tx := tx\<rparr>\<rparr>)
          (DiagDump_Send (UART_FIFO_SIZE bd) (FREQ_RTC bd) (rf_state_byte (RF_GetState (a_rf a)))
             (pwr_diag (a_pwr a)) (k_tx (a_kbd a)))
      else if sub = 0x72 then
        Some (a\<lparr>a_pwr := (a_pwr a)\<lparr>pwr_diag :=
                  DiagDump_Zero (rf_state_byte (RF_GetState (a_rf a))) (pwr_diag (a_pwr a))\<rparr>\<rparr>)
      else if sub = 0x81 then Some (a\<lparr>openboot_entry_pending := True\<rparr>)
      else Some a)"

text \<open>The parser hands an A1 frame over with its eight report bytes.\<close>

definition handle_uart_frame ::
    "'f board \<Rightarrow> u32 \<Rightarrow> u32 \<Rightarrow> u8 \<Rightarrow> u8 \<Rightarrow> u8 list option \<Rightarrow> u8 \<Rightarrow> 'f app \<Rightarrow> 'f app option" where
  "handle_uart_frame bd t1 t2 cmd sub payload len a =
     do {
       a \<leftarrow> frame_sleep bd t1 t2 cmd sub a;
       if cmd = 0xA1 then Some (a\<lparr>a_rf := RF_QueueHIDReport (the payload) (a_rf a)\<rparr>)
       else if cmd = 0xA9 then Some a
       else if cmd \<noteq> 0xA6 then Some a
       else a6_command bd sub a
     }"

section \<open>The bootloader and sleep services\<close>

text \<open>What a service reads: the transmit FIFO level, the line status, and the RTC when it asks for the time.\<close>

record svc_env =
  svc_tfc :: u8
  svc_all_emp :: bool
  svc_raw :: u32

text \<open>\<open>Request_Update\<close> stands for \<open>openboot_request_update\<close>, which does not return.\<close>

definition enter_openboot :: "'f app \<Rightarrow> 'f app" where
  "enter_openboot a = acall Request_Update (acall App_Mask a)"

definition left_for_openboot :: "'f app \<Rightarrow> bool" where
  "left_for_openboot a \<longleftrightarrow> Request_Update \<in> set (a_calls a)"

definition OpenBoot_Service :: "'f board \<Rightarrow> svc_env \<Rightarrow> 'f app \<Rightarrow> 'f app" where
  "OpenBoot_Service bd env a =
     (if ob_state a = 0 then
        (if \<not> openboot_entry_pending a then a
         else
           (let a = a\<lparr>a_rf := RF_FlushBondSave (EEPROM bd) (a_rf a)\<rparr>;
                a = a\<lparr>a_rf := RF_Disconnect (a_rf a)\<rparr>;
                (a, now) = clock_now bd (svc_raw env) a
            in a\<lparr>ob_start := now, ob_state := 1\<rparr>))
      else if \<not> KeyboardUart_FifoIdle (svc_tfc env) (svc_all_emp env) then
        (let (a, now) = clock_now bd (svc_raw env) a
         in if now - ob_start a < ticks_us bd 20000 then a else enter_openboot a)
      else enter_openboot a)"

definition Power_Service :: "'f board \<Rightarrow> svc_env \<Rightarrow> 'f app \<Rightarrow> 'f app" where
  "Power_Service bd env a =
     (let drop_request = (\<lambda>a. a\<lparr>a_sleep := (a_sleep a)\<lparr>sleep_pending := False\<rparr>\<rparr>) in
      if ps_state a = 0 then
        (if \<not> sleep_pending (a_sleep a) then a
         else if openboot_entry_pending a then drop_request a
         else (let (a, now) = clock_now bd (svc_raw env) a in a\<lparr>ps_start := now, ps_state := 1\<rparr>))
      else if \<not> sleep_pending (a_sleep a) \<or> openboot_entry_pending a then (drop_request a)\<lparr>ps_state := 0\<rparr>
      else if \<not> KeyboardUart_TxIdle (KBD_HOST_WAKE bd) (svc_tfc env) (svc_all_emp env) (a_kbd a) then
        (let (a, now) = clock_now bd (svc_raw env) a
         in if now - ps_start a < ticks_us bd (20000 + KBD_HOST_WAKE_BACKLOG_MAX_US (KBD_HOST_WAKE bd)) then a
            else (drop_request a)\<lparr>ps_state := 0\<rparr>)
      else
        (let a = (drop_request a)\<lparr>ps_state := 0\<rparr>;
             a = a\<lparr>a_rf := RF_FlushBondSave (EEPROM bd) (a_rf a)\<rparr>;
             a = a\<lparr>a_rf := RF_Disconnect (a_rf a)\<rparr>
         in a\<lparr>a_pwr := PowerSleep_RequestExplicit (a_pwr a)\<rparr>))"

section \<open>Watchdog, heartbeat and shallow idle\<close>

definition watchdog_init :: "'f app \<Rightarrow> 'f app" where
  "watchdog_init a = acall Wwdg_Feed (acall Wwdg_Reset_On (acall Wwdg_Feed (acall Wwdg_Clear_Flag (acall Wwdg_Int_Off a))))"

definition heartbeat_set :: "u32 \<Rightarrow> 'f app \<Rightarrow> 'f app" where
  "heartbeat_set cnt_end a =
     (let a = acall Tmr3_Stop a;
          a = acall (Tmr3_Period cnt_end) a;
          a = acall Tmr3_Ack a;
          a = acall Tmr3_Int_En a
      in acall Tmr3_Run a)"

definition heartbeat_init :: "'f board \<Rightarrow> 'f app \<Rightarrow> 'f app" where
  "heartbeat_init bd a = acall Tmr3_Pfic (heartbeat_set (SYS_CLOCK bd div 5) a)"

definition heartbeat_follow_rf_state :: "'f board \<Rightarrow> 'f app \<Rightarrow> 'f app" where
  "heartbeat_follow_rf_state bd a =
     (let want = (RF_GetState (a_rf a) = RF_STATE_RESTING \<and> RF_RestProbing (a_rf a)) in
      if want \<noteq> hb_fast a then
        heartbeat_set (if want then SYS_CLOCK bd div 250 else SYS_CLOCK bd div 5) (a\<lparr>hb_fast := want\<rparr>)
      else a)"

definition TMR3_IRQHandler :: "'f app \<Rightarrow> 'f app" where
  "TMR3_IRQHandler a = acall Tmr3_Ack a"

definition idle_arm_and_drain :: "'f app \<Rightarrow> 'f app" where
  "idle_arm_and_drain a = acall Sctlr_Wfe (acall Wfi (acall Sctlr_Event (acall Sctlr_Not_Deep a)))"

definition idle_sleep_once :: "'f app \<Rightarrow> 'f app" where
  "idle_sleep_once a = acall Wfi (acall Flash_Off a)"

definition idle_disarm :: "'f app \<Rightarrow> 'f app" where
  "idle_disarm a = acall Sctlr_Off a"

text \<open>What the idle step reads: bytes the UART interrupt takes in before the mask, and, masked, the receive
  FIFO and the heartbeat's flag.\<close>

record wfe_env =
  wfe_late :: "u8 list"
  wfe_rfc :: u8
  wfe_tmr3 :: bool

definition idle_wanted :: "'f board \<Rightarrow> 'f app \<Rightarrow> bool" where
  "idle_wanted bd a \<longleftrightarrow>
     (RF_GetState (a_rf a) = RF_STATE_IDLE \<or> RF_GetState (a_rf a) = RF_STATE_RESTING)
     \<and> \<not> openboot_entry_pending a
     \<and> KeyboardUart_HostWakeIdle (KBD_HOST_WAKE bd) (a_kbd a)
     \<and> \<not> sleep_pending (a_sleep a) \<and> \<not> PowerSleep_SleepPending (a_pwr a)
     \<and> KeyboardUart_RxQuiet (a_rx a)"

definition app_diag :: "(diag_snapshot_t \<Rightarrow> diag_snapshot_t) \<Rightarrow> 'f app \<Rightarrow> 'f app" where
  "app_diag f a = a\<lparr>a_pwr := pwr_diag_live f (a_pwr a)\<rparr>"

definition idle_step :: "'f board \<Rightarrow> wfe_env \<Rightarrow> 'f app \<Rightarrow> 'f app" where
  "idle_step bd env a =
     (if idle_wanted bd a then
        (let a = a\<lparr>a_rx := UART1_IRQHandler False False (wfe_late env) (a_rx a)\<rparr>;
             a = acall App_Mask a;
             a = idle_arm_and_drain a;
             a = (if KeyboardUart_RxQuiet (a_rx a) \<and> wfe_rfc env = 0 \<and> \<not> openboot_entry_pending a
                     \<and> \<not> wfe_tmr3 env
                  then idle_sleep_once (app_diag (ds_pwr_wfi_count_update (\<lambda>n. n + 1)) (acall Wwdg_Feed a))
                  else a);
             a = idle_disarm a
         in acall App_Unmask a)
      else a)"

section \<open>The steps of the main loop\<close>

text \<open>The receive path with the dispatch behind it; the RTC readings of one poll are numbered.\<close>

definition app_uart_env :: "'f board \<Rightarrow> (nat \<Rightarrow> u32) \<Rightarrow> ('f app \<times> nat) option uart_env" where
  "app_uart_env bd rtc =
     \<lparr>env_ack = (\<lambda>w. Option.bind w (\<lambda>(a, i).
        map_option (\<lambda>tx. (a\<lparr>a_kbd := (a_kbd a)\<lparr>k_tx := tx\<rparr>\<rparr>, i))
          (KeyboardUart_SendAck (UART_FIFO_SIZE bd) (FREQ_RTC bd) (k_tx (a_kbd a))))),
      env_frame_cb = Some (\<lambda>cmd sub payload len w. Option.bind w (\<lambda>(a, i).
        map_option (\<lambda>a. (a, i + 2)) (handle_uart_frame bd (rtc i) (rtc (i + 1)) cmd sub payload len a))),
      env_host_ack = (\<lambda>w. map_option (\<lambda>(a, i).
        (if KBD_HOST_WAKE bd
         then a\<lparr>a_kbd := (a_kbd a)\<lparr>host_wake := HostWake_OnAck (host_wake (a_kbd a))\<rparr>\<rparr> else a, i)) w)\<rparr>"

definition uart_poll :: "'f board \<Rightarrow> (nat \<Rightarrow> u32) \<Rightarrow> 'f app \<Rightarrow> 'f app option" where
  "uart_poll bd rtc a =
     (let (rx, w) = KeyboardUart_Poll (app_uart_env bd rtc) (a_rx a) (Some (a, 0))
      in map_option (\<lambda>(a, i). a\<lparr>a_rx := rx\<rparr>) w)"

definition uart_service :: "'f board \<Rightarrow> u32 \<Rightarrow> 'f app \<Rightarrow> 'f app option" where
  "uart_service bd raw a =
     (let (a, now) = (if KBD_HOST_WAKE bd then clock_now bd raw a else (a, 0))
      in map_option (\<lambda>k. a\<lparr>a_kbd := k\<rparr>)
           (KeyboardUart_Service (KBD_HOST_WAKE bd) (UART_FIFO_SIZE bd) (FREQ_RTC bd) now (a_kbd a)))"

definition led_lost_step :: "'f board \<Rightarrow> 'f app \<Rightarrow> 'f app" where
  "led_lost_step bd a =
     (let (k, lost) = KeyboardUart_TakeLedLost (KBD_HOST_WAKE bd) (a_kbd a);
          a = a\<lparr>a_kbd := k\<rparr>
      in if lost then a\<lparr>a_rf := RF_LedResync (a_rf a)\<rparr> else a)"

definition tmos_idle :: "'f board \<Rightarrow> u32 \<Rightarrow> idle_env \<Rightarrow> 'f app \<Rightarrow> 'f app" where
  "tmos_idle bd time env a =
     (let (rc, rx, p) = CH59x_LowPower (PLATFORM bd) (KBD_HOST_WAKE bd) env (a_rf a) (OpenBoot_EntryPending a)
                          (a_kbd a) time (a_rx a) (a_pwr a)
      in a\<lparr>a_rx := rx, a_pwr := p\<rparr>)"

definition loop_end :: "'f app \<Rightarrow> 'f app" where
  "loop_end a = app_diag (ds_pwr_loop_passes_update (\<lambda>n. n + 1)) (acall Wwdg_Feed a)"

text \<open>What happens, one step at a time: the calls of the main loop and the interrupts between them.\<close>

datatype app_op =
    Link rf_op
  | Uart_Irq bool bool "u8 list"
  | Tmos_Idle u32 idle_env
  | Uart_Poll "nat \<Rightarrow> u32"
  | Uart_Service u32
  | Led_Lost
  | Ob_Service svc_env
  | Ps_Service svc_env
  | Loop_End
  | Heartbeat
  | Tmr3
  | Idle wfe_env

fun app_exec :: "'f board \<Rightarrow> app_op \<Rightarrow> 'f app \<Rightarrow> 'f app option" where
  "app_exec bd (Link op) a = rf_step bd op a"
| "app_exec bd (Uart_Irq ls oe bs) a = Some (a\<lparr>a_rx := UART1_IRQHandler ls oe bs (a_rx a)\<rparr>)"
| "app_exec bd (Tmos_Idle time env) a = Some (tmos_idle bd time env a)"
| "app_exec bd (Uart_Poll rtc) a = uart_poll bd rtc a"
| "app_exec bd (Uart_Service raw) a = uart_service bd raw a"
| "app_exec bd Led_Lost a = Some (led_lost_step bd a)"
| "app_exec bd (Ob_Service env) a = Some (OpenBoot_Service bd env a)"
| "app_exec bd (Ps_Service env) a = Some (Power_Service bd env a)"
| "app_exec bd Loop_End a = Some (loop_end a)"
| "app_exec bd Heartbeat a = Some (heartbeat_follow_rf_state bd a)"
| "app_exec bd Tmr3 a = Some (TMR3_IRQHandler a)"
| "app_exec bd (Idle env) a = Some (idle_step bd env a)"

text \<open>The environment: TMOS delivers what may fire, the radio calls back, the idle callback is called with
  interrupts on; the link task's other calls are made by the code above, and nothing runs after the
  program has left for the bootloader.\<close>

fun app_ok :: "app_op \<Rightarrow> 'f app \<Rightarrow> bool" where
  "app_ok (Link (Event e env)) a = (rf_ok (Event e env) (a_rf a) \<and> \<not> left_for_openboot a)"
| "app_ok (Link (Callback env sta rsr rx)) a = (\<not> left_for_openboot a)"
| "app_ok (Link (Tick env)) a = (\<not> left_for_openboot a)"
| "app_ok (Link (Tmr0 c)) a = (\<not> left_for_openboot a)"
| "app_ok (Link op) a = False"
| "app_ok (Tmos_Idle time env) a = (irq_state (idle_sleep env) AND 0x08 \<noteq> 0 \<and> \<not> left_for_openboot a)"
| "app_ok op a = (\<not> left_for_openboot a)"

fun app_run :: "'f board \<Rightarrow> app_op list \<Rightarrow> 'f app \<Rightarrow> 'f app option" where
  "app_run bd [] a = Some a"
| "app_run bd (op # ops) a = (if app_ok op a then Option.bind (app_exec bd op a) (app_run bd ops) else None)"

text \<open>One pass of \<open>Main_Circulation\<close>, less the interrupts that may come anywhere: what TMOS does, then the
  fixed sequence.  The services of a pass that leaves for the bootloader do not run.\<close>

record pass_env =
  pe_tmos :: "app_op list"
  pe_tick :: rf_env
  pe_rtc :: "nat \<Rightarrow> u32"
  pe_raw :: u32
  pe_ob :: svc_env
  pe_ps :: svc_env
  pe_wfe :: wfe_env

definition Main_Circulation :: "'f board \<Rightarrow> pass_env \<Rightarrow> 'f app \<Rightarrow> 'f app option" where
  "Main_Circulation bd pe a =
     do {
       a \<leftarrow> app_run bd (pe_tmos pe) a;
       a \<leftarrow> rf_step bd (Tick (pe_tick pe)) a;
       a \<leftarrow> uart_poll bd (pe_rtc pe) a;
       a \<leftarrow> uart_service bd (pe_raw pe) a;
       let a = led_lost_step bd a;
       let a = OpenBoot_Service bd (pe_ob pe) a;
       if left_for_openboot a then Some a
       else
         (let a = Power_Service bd (pe_ps pe) a;
              a = loop_end a;
              a = heartbeat_follow_rf_state bd a
          in Some (idle_step bd (pe_wfe pe) a))
     }"

section \<open>Boot\<close>

text \<open>\<open>main\<close>, less the clock, pin and vendor-stack setup: the zeroed statics, then the initialisation of each
  component in the order of the code.  \<open>None\<close>: TMOS had no task identifier, and the code stops.\<close>

definition app_bss :: "diag_state \<Rightarrow> uart_tx \<Rightarrow> 'f \<Rightarrow> 'f app" where
  "app_bss d tx fl =
     \<lparr>a_rf = rf_bss fl, a_kbd = \<lparr>k_tx = tx, host_wake = HostWake_Init 0 0 0, chwake_level = False, chwake_pin = []\<rparr>,
      a_rx = uart_rx_init, a_pwr = pwr_bss d,
      a_sleep = \<lparr>unlocked = False, sleep_pending = False, autosleep = False\<rparr>, a_clock = rtc_clock_init,
      transport_is_2g4 = False, openboot_entry_pending = False, ob_state = 0, ob_start = 0,
      ps_state = 0, ps_start = 0, hb_fast = False, a_calls = []\<rparr>"

definition main_init :: "rf_config \<Rightarrow> 'f board \<Rightarrow> bool \<Rightarrow> u8 \<Rightarrow> 'f app \<Rightarrow> 'f app option" where
  "main_init cfg bd registered reset_status a =
     (let a = a\<lparr>a_kbd := KeyboardUart_Init (KBD_HOST_WAKE bd) (FREQ_RTC bd) (a_kbd a)\<rparr>;
          a = a\<lparr>a_pwr := HAL_SleepInit reset_status (a_pwr a)\<rparr>
      in do {
        rf \<leftarrow> RF_TaskInit cfg (EEPROM bd) registered (a_rf a);
        let a = a\<lparr>a_rf := rf\<rparr>;
        a \<leftarrow> (if RF_HasBond (a_rf a) \<and> RF_IdentityValid (a_rf a)
              then do { a \<leftarrow> send_status bd 0x34 (a\<lparr>transport_is_2g4 := True\<rparr>); send_status bd 0x35 a }
              else Some a);
        let a = watchdog_init a;
        let a = a\<lparr>a_sleep := SleepProtocol_Reset (a_sleep a)\<rparr>;
        let a = (if reset_status AND 0x07 \<noteq> 0x02
                 then a\<lparr>a_pwr := (a_pwr a)\<lparr>pwr_diag := (pwr_diag (a_pwr a))
                          \<lparr>diag_live := (diag_live (pwr_diag (a_pwr a)))\<lparr>ds_pwr_wfi_count := 0\<rparr>\<rparr>\<rparr>\<rparr>
                 else a);
        Some (heartbeat_init bd a)
      })"

text \<open>The start event, which the initialisation posts when there is no bond to search for, is the first thing
  TMOS delivers.\<close>

definition app_boot :: "rf_config \<Rightarrow> 'f board \<Rightarrow> u8 \<Rightarrow> diag_state \<Rightarrow> uart_tx \<Rightarrow> 'f \<Rightarrow> 'f app option" where
  "app_boot cfg bd reset_status d tx fl =
     do {
       a \<leftarrow> main_init cfg bd True reset_status (app_bss d tx fl);
       if bit_posted RF_EVT_START (calls (a_rf a))
       then rf_step bd (Event RF_EVT_START \<lparr>cfg_status = 0, tx_status = 0, rtc_first = 0, rtc_second = 0\<rparr>) a
       else Some a
     }"

inductive app_reach :: "rf_config \<Rightarrow> 'f board \<Rightarrow> 'f app \<Rightarrow> bool" for cfg bd where
  app_reach_boot: "app_boot cfg bd st d tx fl = Some a \<Longrightarrow> app_reach cfg bd a"
| app_reach_step: "app_reach cfg bd a \<Longrightarrow> app_ok op a \<Longrightarrow> app_exec bd op a = Some a' \<Longrightarrow> app_reach cfg bd a'"

end
