(* ===== verification/Main_Reach.thy ===== *)
theory Main_Reach
  imports Main_Loop
begin

text \<open>
  What holds of the whole program in every state it reaches: the link task only ever sees what its own
  model allows, the wake sources are bracketed, an armed sleep stays possible until it is withdrawn, and
  the services leave nothing behind.  The receive path is entered through one contract, \<open>uart_client\<close>.
\<close>

section \<open>The contract of the receive path\<close>

text \<open>
  Whatever the three calls of the parser keep, a whole poll keeps.  A client that is \<open>sized\<close> relies on the
  eight bytes of a report; it gets them as long as the parser's buffer has its length, which every step
  of the parser keeps.
\<close>

lemma buf_length_shift: "length (rx_buf (shift_rx_buf n p)) = length (rx_buf p)"
proof -
  have "length (fold (\<lambda>i buf. buf[i := buf ! (i + m)]) is b) = length b" for m "is" and b :: "u8 list"
    by (induction "is" arbitrary: b) simp_all
  then show ?thesis by (simp add: shift_rx_buf_def reset_parser_def Let_def)
qed

lemma buf_length_process: "length (rx_buf (fst (process_rx_buf e p w))) = length (rx_buf p)"
proof (induction e p w rule: process_rx_buf.induct)
  case (1 e p w)
  then show ?case
    by (subst process_rx_buf.simps)
      (simp add: buf_length_shift resync_parser_def reset_parser_def split: option.split)
qed

lemma buf_length_feed: "length (rx_buf (fst (feed_byte e b p w))) = length (rx_buf p)"
  by (simp add: feed_byte_def reset_parser_def buf_length_process Let_def)

locale uart_client =
  fixes env :: "'w uart_env" and sized :: bool and P :: "'w \<Rightarrow> bool"
  assumes ack: "P w \<Longrightarrow> P (env_ack env w)"
    and host_ack: "P w \<Longrightarrow> P (env_host_ack env w)"
    and frame: "P w \<Longrightarrow> (sized \<Longrightarrow> cmd = 0xA1 \<Longrightarrow> length (the payload) = 8)
                  \<Longrightarrow> P (call_cb env cmd sub payload len w)"
begin

lemma dispatch: "(sized \<Longrightarrow> length (rx_buf p) = 24) \<Longrightarrow> P w \<Longrightarrow> P (dispatch_frame env p w)"
  by (auto simp: dispatch_frame_def Let_def intro!: ack host_ack frame)

lemma process: "e = env \<Longrightarrow> (sized \<Longrightarrow> length (rx_buf p) = 24) \<Longrightarrow> P w \<Longrightarrow> P (snd (process_rx_buf e p w))"
proof (induction e p w rule: process_rx_buf.induct)
  case (1 e p w)
  have "length (rx_buf (resync_parser (p\<lparr>rx_frame_error_count := n\<rparr>))) = length (rx_buf p)" for n
    by (simp add: buf_length_shift resync_parser_def reset_parser_def split: option.split)
  with 1 show ?case
    by (subst process_rx_buf.simps) (simp add: dispatch buf_length_shift)
qed

lemma feed: "(sized \<Longrightarrow> length (rx_buf p) = 24) \<Longrightarrow> P w \<Longrightarrow> P (snd (feed_byte env b p w))"
  by (simp add: feed_byte_def Let_def process)

lemma poll:
  "e = env \<Longrightarrow> (sized \<Longrightarrow> length (rx_buf (rx_parser u)) = 24) \<Longrightarrow> P w \<Longrightarrow> P (snd (KeyboardUart_Poll e u w))"
proof (induction e u w rule: KeyboardUart_Poll.induct)
  case (1 e u w)
  have "P (snd (poll_feed env u w))" using 1(4,5) by (simp add: poll_feed_def Let_def feed)
  moreover have "length (rx_buf (rx_parser (rx_pop (fst (poll_feed e u w))))) = length (rx_buf (rx_parser u))"
    by (simp add: rx_pop_def poll_feed_def buf_length_feed Let_def)
  moreover have "length (rx_buf (rx_parser (poll_hole u))) = length (rx_buf (rx_parser u))"
    by (simp add: poll_hole_def reset_parser_def)
  ultimately show ?case using 1 by (subst KeyboardUart_Poll.simps) (simp add: Let_def)
qed

end

lemma poll_rx_wf: "rx_wf u \<Longrightarrow> rx_wf (fst (KeyboardUart_Poll e u w))"
proof (induction e u w rule: KeyboardUart_Poll.induct)
  case (1 e u w)
  have h: "rx_wf (poll_hole u)" using 1(3) by (simp add: rx_wf_def poll_hole_def)
  have p: "rx_wf (rx_pop (fst (poll_feed e u w)))" if "rx_ring_tail u \<noteq> rx_ring_head u"
    using 1(3) that by (intro rx_wf_pop) (simp_all add: rx_items_empty)
  from 1 h p show ?case by (subst KeyboardUart_Poll.simps) (simp add: Let_def)
qed

section \<open>What a frame does to each component\<close>

lemma send_status_some: "send_status bd b a = Some a' \<Longrightarrow> \<exists>k. a' = a\<lparr>a_kbd := k\<rparr>"
  by (auto simp: send_status_def)

lemma send_battery_some: "send_battery bd b a = Some a' \<Longrightarrow> \<exists>k. a' = a\<lparr>a_kbd := k\<rparr>"
  by (auto simp: send_battery_def)

lemma send_led_some: "send_led bd b a = Some a' \<Longrightarrow> \<exists>k. a' = a\<lparr>a_kbd := k\<rparr>"
  by (auto simp: send_led_def)

lemmas send_some = send_status_some send_battery_some send_led_some

definition a6_rf :: "'f board \<Rightarrow> u8 \<Rightarrow> 'f app \<Rightarrow> 'f rf_t" where
  "a6_rf bd sub a =
     (if sub \<in> {0x11, 0x31, 0x32, 0x33} then RF_DropQueueUnlessReselected (RF_Disconnect (a_rf a))
      else if sub = 0x30 then fst (RF_Select2G4 (a_rf a))
      else if sub = 0x51 \<and> transport_is_2g4 a \<and> RF_IdentityValid (a_rf a) then fst (RF_EnterPairing (a_rf a))
      else if sub = 0x52 then RF_ClearBond (EEPROM bd) (RF_Disconnect (a_rf a))
      else if sub = 0x63 \<and> RF_IdentityValid (a_rf a)
        then fst (RF_EnterPairing (RF_ClearBond (EEPROM bd) (RF_Disconnect (a_rf a))))
      else a_rf a)"

definition a6_transport :: "u8 \<Rightarrow> 'f app \<Rightarrow> bool" where
  "a6_transport sub a =
     (if sub \<in> {0x11, 0x31, 0x32, 0x33} then False else if sub \<in> {0x30, 0x63} then True else transport_is_2g4 a)"

definition app_rest where
  "app_rest a = (a_sleep a, a_rx a, a_clock a, ob_state a, ob_start a, ps_state a, ps_start a, hb_fast a, a_calls a)"

lemmas a6_case_defs = a6_command_def a6_rf_def a6_transport_def bind_eq_Some_conv send_status_def send_battery_def
  app_rest_def

lemma a6_fields:
  assumes "a6_command bd sub a = Some a'"
  shows "a_rf a' = a6_rf bd sub a \<and> transport_is_2g4 a' = a6_transport sub a
    \<and> openboot_entry_pending a' = (openboot_entry_pending a \<or> sub = 0x81)
    \<and> a_pwr a' = (a_pwr a)\<lparr>pwr_diag := pwr_diag (a_pwr a')\<rparr> \<and> app_rest a' = app_rest a"
proof (cases "sub \<in> {0x11, 0x30, 0x31, 0x32, 0x33, 0x51, 0x52, 0x53, 0x63, 0x58, 0x71, 0x72, 0x81}")
  case True
  then show ?thesis
    using assms unfolding insert_iff empty_iff
    by (elim disjE) (auto simp: a6_case_defs Let_def split: if_splits prod.splits)
next
  case False
  then show ?thesis using assms by (simp add: a6_case_defs split: if_splits)
qed

definition frame_rf :: "'f board \<Rightarrow> u8 \<Rightarrow> u8 \<Rightarrow> u8 list option \<Rightarrow> 'f app \<Rightarrow> 'f rf_t" where
  "frame_rf bd cmd sub payload a =
     (if cmd = 0xA1 then RF_QueueHIDReport (the payload) (a_rf a)
      else if cmd = 0xA6 then a6_rf bd sub a else a_rf a)"

definition frame_pwr :: "u32 \<Rightarrow> u32 \<Rightarrow> u8 \<Rightarrow> u8 \<Rightarrow> 'f app \<Rightarrow> pwr_t" where
  "frame_pwr t1 t2 cmd sub a =
     (let on = autosleep (fst (SleepProtocol_OnFrame cmd sub (openboot_entry_pending a) (a_sleep a)));
          p = PowerSleep_NoteActivity t2 (PowerSleep_SetAutosleep t1 on (a_pwr a))
      in if SleepProtocol_IsStateChanging cmd sub then PowerSleep_CancelExplicit p else p)"

lemma frame_sleep_fields:
  assumes "frame_sleep bd t1 t2 cmd sub a = Some a'"
  shows "a' = a\<lparr>a_sleep := fst (SleepProtocol_OnFrame cmd sub (openboot_entry_pending a) (a_sleep a)),
                a_kbd := a_kbd a', a_pwr := frame_pwr t1 t2 cmd sub a\<rparr>"
  using assms
  by (auto simp: frame_sleep_def frame_pwr_def Let_def bind_eq_Some_conv send_status_def case_prod_beta
      split: sleep_proto_action_t.splits intro!: app.equality)

lemma frame_fields:
  assumes "handle_uart_frame bd t1 t2 cmd sub payload len a = Some a'"
  shows "a_rf a' = frame_rf bd cmd sub payload a
    \<and> a_sleep a' = fst (SleepProtocol_OnFrame cmd sub (openboot_entry_pending a) (a_sleep a))
    \<and> openboot_entry_pending a' = (openboot_entry_pending a \<or> cmd = 0xA6 \<and> sub = 0x81)
    \<and> a_pwr a' = (frame_pwr t1 t2 cmd sub a)\<lparr>pwr_diag := pwr_diag (a_pwr a')\<rparr>
    \<and> transport_is_2g4 a' = (if cmd = 0xA6 then a6_transport sub a else transport_is_2g4 a)
    \<and> ob_state a' = ob_state a \<and> ps_state a' = ps_state a \<and> hb_fast a' = hb_fast a
    \<and> a_calls a' = a_calls a \<and> a_rx a' = a_rx a \<and> a_clock a' = a_clock a
    \<and> ob_start a' = ob_start a \<and> ps_start a' = ps_start a"
proof -
  obtain k where front: "frame_sleep bd t1 t2 cmd sub a =
      Some (a\<lparr>a_sleep := fst (SleepProtocol_OnFrame cmd sub (openboot_entry_pending a) (a_sleep a)),
              a_kbd := k, a_pwr := frame_pwr t1 t2 cmd sub a\<rparr>)" (is "_ = Some ?b")
    using assms frame_sleep_fields [of bd t1 t2 cmd sub a]
    by (cases "frame_sleep bd t1 t2 cmd sub a") (auto simp: handle_uart_frame_def)
  have rf: "a6_rf bd sub ?b = a6_rf bd sub a" "a6_transport sub ?b = a6_transport sub a"
    by (simp_all add: a6_rf_def a6_transport_def)
  show ?thesis
  proof (cases "cmd = 0xA6")
    case True
    then have "a6_command bd sub ?b = Some a'" using assms unfolding handle_uart_frame_def front by simp
    from a6_fields [OF this] True rf show ?thesis by (simp add: frame_rf_def app_rest_def)
  next
    case False
    then show ?thesis using assms unfolding handle_uart_frame_def front
      by (auto simp: frame_rf_def split: if_splits)
  qed
qed

lemma frame_pwr_fields:
  "pwr_calls (frame_pwr t1 t2 cmd sub a) = pwr_calls (a_pwr a)"
  "pwr_explicit_request (frame_pwr t1 t2 cmd sub a) =
     (pwr_explicit_request (a_pwr a) \<and> \<not> SleepProtocol_IsStateChanging cmd sub)"
  "pwr_autosleep (frame_pwr t1 t2 cmd sub a) =
     autosleep (fst (SleepProtocol_OnFrame cmd sub (openboot_entry_pending a) (a_sleep a)))"
  "pwr_holdoff_active (frame_pwr t1 t2 cmd sub a)" "pwr_holdoff_start (frame_pwr t1 t2 cmd sub a) = t2"
  by (simp_all add: frame_pwr_def Let_def PowerSleep_NoteActivity_def PowerSleep_SetAutosleep_def
      PowerSleep_CancelExplicit_def pwr_note_activity_def)

section \<open>The invariant of the program\<close>

text \<open>The last period written to the heartbeat timer.\<close>

fun hb_period :: "app_call list \<Rightarrow> u32 option" where
  "hb_period [] = None"
| "hb_period (Tmr3_Period n # l) = Some n"
| "hb_period (c # l) = hb_period l"

definition app_inv :: "rf_config \<Rightarrow> 'f board \<Rightarrow> 'f app \<Rightarrow> bool" where
  "app_inv cfg bd a \<longleftrightarrow>
     rf_reach cfg (EEPROM bd) (a_rf a)
     \<and> pwr_ok (a_pwr a)
     \<and> (pwr_explicit_request (a_pwr a) \<longrightarrow>
          rf_state (a_rf a) = RF_STATE_IDLE \<and> \<not> bond_save_pending (a_rf a) \<and> \<not> openboot_entry_pending a)
     \<and> pwr_autosleep (a_pwr a) = autosleep (a_sleep a)
     \<and> (ob_state a \<noteq> 0 \<longrightarrow> openboot_entry_pending a)
     \<and> (left_for_openboot a \<longrightarrow> openboot_entry_pending a)
     \<and> hb_period (a_calls a) = Some (if hb_fast a then SYS_CLOCK bd div 250 else SYS_CLOCK bd div 5)"

lemma idle_frame:
  "rf_state (RF_QueueHIDReport r s) = RF_STATE_IDLE" "\<not> bond_save_pending (RF_QueueHIDReport r s)"
  if "rf_state s = RF_STATE_IDLE" "\<not> bond_save_pending s"
  using that by (simp_all add: RF_QueueHIDReport_def Let_def)

lemma reach_exec: "rf_reach cfg ee s \<Longrightarrow> rf_ok op s \<Longrightarrow> rf_exec ee op s = t \<Longrightarrow> rf_reach cfg ee t"
  using rf_reach_step by blast

lemma reach_main_calls:
  assumes "rf_reach cfg ee s"
  shows "rf_reach cfg ee (RF_Disconnect s)" "rf_reach cfg ee (RF_DropQueueUnlessReselected s)"
    "rf_reach cfg ee (fst (RF_Select2G4 s))" "rf_reach cfg ee (fst (RF_EnterPairing s))"
    "rf_reach cfg ee (RF_QueueHIDReport r s)" "rf_reach cfg ee (RF_FlushBondSave ee s)"
    "rf_reach cfg ee (RF_LedResync s)"
  using rf_reach_step [OF assms, of Disconnect] rf_reach_step [OF assms, of Drop_Unless]
    rf_reach_step [OF assms, of Select] rf_reach_step [OF assms, of Pair] rf_reach_step [OF assms, of "Queue r"]
    rf_reach_step [OF assms, of Flush] rf_reach_step [OF assms, of Led_Resync]
  by simp_all

lemma disconnect_idle: "rf_state (RF_Disconnect s) = RF_STATE_IDLE" "\<not> bond_save_pending (RF_Disconnect s)"
  by (simp_all add: RF_Disconnect_def Let_def rest_cancel_def rf_call_defs)

text \<open>The only calls of \<open>RF_ClearBond\<close> come right after a disconnect.\<close>

lemma reach_clear: "rf_reach cfg ee s \<Longrightarrow> rf_reach cfg ee (RF_ClearBond ee (RF_Disconnect s))"
  using rf_reach_step [of cfg ee "RF_Disconnect s" Clear] reach_main_calls(1) [of cfg ee s]
  by (simp add: disconnect_idle)

lemma reach_frame_rf: "rf_reach cfg (EEPROM bd) (a_rf a) \<Longrightarrow> rf_reach cfg (EEPROM bd) (frame_rf bd cmd sub payload a)"
  by (auto simp: frame_rf_def a6_rf_def intro!: reach_main_calls reach_clear)

lemma explicit_frame_rf:
  "\<not> SleepProtocol_IsStateChanging cmd sub \<Longrightarrow> frame_rf bd cmd sub payload a = a_rf a
     \<and> \<not> (cmd = 0xA6 \<and> sub = 0x81)"
  by (auto simp: SleepProtocol_IsStateChanging_def frame_rf_def a6_rf_def)

lemma inv_frame:
  assumes "app_inv cfg bd a" and "handle_uart_frame bd t1 t2 cmd sub payload len a = Some a'"
  shows "app_inv cfg bd a'"
proof -
  note f = frame_fields [OF assms(2)]
  then have g: "a_rf a' = frame_rf bd cmd sub payload a" "hb_fast a' = hb_fast a" "a_calls a' = a_calls a"
    "openboot_entry_pending a' = (openboot_entry_pending a \<or> cmd = 0xA6 \<and> sub = 0x81)" "ob_state a' = ob_state a"
    by simp_all
  obtain d where q: "a_pwr a' = (frame_pwr t1 t2 cmd sub a)\<lparr>pwr_diag := d\<rparr>" using f by blast
  have p: "pwr_calls (a_pwr a') = pwr_calls (a_pwr a)"
    "pwr_explicit_request (a_pwr a') = (pwr_explicit_request (a_pwr a) \<and> \<not> SleepProtocol_IsStateChanging cmd sub)"
    "pwr_autosleep (a_pwr a') = autosleep (a_sleep a')"
    using f by (simp_all add: q frame_pwr_fields)
  have "rf_reach cfg (EEPROM bd) (a_rf a')"
    using assms(1) reach_frame_rf [of cfg bd a cmd sub payload] by (simp add: app_inv_def g)
  moreover have "pwr_explicit_request (a_pwr a') \<longrightarrow>
      rf_state (a_rf a') = RF_STATE_IDLE \<and> \<not> bond_save_pending (a_rf a') \<and> \<not> openboot_entry_pending a'"
    using assms(1) explicit_frame_rf [of cmd sub bd payload a] by (auto simp: app_inv_def g p(2))
  ultimately show ?thesis
    using assms(1) p(3) by (simp add: app_inv_def g(2-5) p(1) left_for_openboot_def pwr_ok_def)
qed

lemma inv_kbd: "app_inv cfg bd a \<Longrightarrow> app_inv cfg bd (a\<lparr>a_kbd := k\<rparr>)"
  by (simp add: app_inv_def left_for_openboot_def)

lemma inv_rx: "app_inv cfg bd (a\<lparr>a_rx := u\<rparr>) = app_inv cfg bd a"
  by (simp add: app_inv_def left_for_openboot_def)

text \<open>The receive path keeps what every frame keeps: the contract of the parser, met by the dispatch.\<close>

definition poll_keeps :: "('f app \<Rightarrow> bool) \<Rightarrow> ('f app \<times> nat) option \<Rightarrow> bool" where
  "poll_keeps I w = pred_option (\<lambda>(a, i). I a) w"

locale frame_client =
  fixes bd :: "'f board" and sized :: bool and I :: "'f app \<Rightarrow> bool"
  assumes ack_tx: "I a \<Longrightarrow> I (a\<lparr>a_kbd := (a_kbd a)\<lparr>k_tx := tx\<rparr>\<rparr>)"
    and acked: "KBD_HOST_WAKE bd \<Longrightarrow> I a \<Longrightarrow>
                  I (a\<lparr>a_kbd := (a_kbd a)\<lparr>host_wake := HostWake_OnAck (host_wake (a_kbd a))\<rparr>\<rparr>)"
    and handle: "I a \<Longrightarrow> (sized \<Longrightarrow> cmd = 0xA1 \<Longrightarrow> length (the payload) = 8)
                   \<Longrightarrow> handle_uart_frame bd t1 t2 cmd sub payload len a = Some a' \<Longrightarrow> I a'"

sublocale frame_client \<subseteq> poll: uart_client "app_uart_env bd rtc" sized "poll_keeps I" for rtc
proof
  show "poll_keeps I (env_ack (app_uart_env bd rtc) w)" if "poll_keeps I w" for w
    using that ack_tx by (cases w) (auto simp: poll_keeps_def app_uart_env_def option.pred_map split: option.split
      simp: pred_option_def)
  show "poll_keeps I (env_host_ack (app_uart_env bd rtc) w)" if "poll_keeps I w" for w
    using that acked by (cases w) (auto simp: poll_keeps_def app_uart_env_def)
  show "poll_keeps I (call_cb (app_uart_env bd rtc) cmd sub payload len w)"
    if "poll_keeps I w" and "sized \<Longrightarrow> cmd = 0xA1 \<Longrightarrow> length (the payload) = 8" for cmd sub payload len w
    using that by (cases w) (auto simp: poll_keeps_def app_uart_env_def call_cb_def pred_option_def intro: handle)
qed

context frame_client
begin

lemma uart_poll_keeps:
  assumes "I a" and "uart_poll bd rtc a = Some a'" and "sized \<Longrightarrow> length (rx_buf (rx_parser (a_rx a))) = 24"
  shows "\<exists>b. I b \<and> a' = b\<lparr>a_rx := a_rx a'\<rparr>"
proof -
  have "poll_keeps I (snd (KeyboardUart_Poll (app_uart_env bd rtc) (a_rx a) (Some (a, 0))))"
    using assms(1,3) by (intro poll.poll) (simp_all add: poll_keeps_def)
  with assms(2) show ?thesis
    by (auto simp: uart_poll_def poll_keeps_def case_prod_beta pred_option_def)
qed

end

interpretation inv: frame_client bd False "app_inv cfg bd" for cfg bd
  by unfold_locales (simp_all add: inv_kbd inv_frame)

lemma inv_uart_poll: "app_inv cfg bd a \<Longrightarrow> uart_poll bd rtc a = Some a' \<Longrightarrow> app_inv cfg bd a'"
  using inv.uart_poll_keeps [of cfg bd a rtc a'] inv_rx by metis

section \<open>The other steps keep the invariant\<close>

lemma forward_fields: "rf_forward bd cs a = Some a' \<Longrightarrow> a' = a\<lparr>a_kbd := a_kbd a'\<rparr>"
proof (induction bd cs a rule: rf_forward.induct)
  case (2 bd b cs a)
  then obtain c where c: "send_status bd b a = Some c" "rf_forward bd cs c = Some a'"
    by (auto simp: bind_eq_Some_conv)
  from 2(1) [OF c] have "a' = c\<lparr>a_kbd := a_kbd a'\<rparr>" .
  with send_status_some [OF c(1)] show ?case by auto
next
  case (3 bd b cs a)
  then obtain c where c: "send_led bd b a = Some c" "rf_forward bd cs c = Some a'"
    by (auto simp: bind_eq_Some_conv)
  from 3(1) [OF c] have "a' = c\<lparr>a_kbd := a_kbd a'\<rparr>" .
  with send_led_some [OF c(1)] show ?case by auto
qed simp_all

lemma rf_step_fields:
  assumes "rf_step bd op a = Some a'"
  shows "a' = a\<lparr>a_rf := rf_exec (EEPROM bd) op (a_rf a), a_kbd := a_kbd a'\<rparr>"
  using forward_fields [OF assms [unfolded rf_step_def Let_def]] by simp

lemma idle_no_probe: "rf_reach cfg ee s \<Longrightarrow> rf_state s = RF_STATE_IDLE \<Longrightarrow> \<not> rest_probe s"
  using sched_reach [of cfg ee s] by (auto simp: sched_inv_def no_rest_def rest_sched_def)

text \<open>Without a command, IDLE stays IDLE.\<close>

definition idle_clean :: "'f rf_t \<Rightarrow> bool" where
  "idle_clean s \<longleftrightarrow> rf_state s = RF_STATE_IDLE \<and> \<not> bond_save_pending s \<and> \<not> rest_probe s"

lemma idle_pair_rx: "idle_clean s \<Longrightarrow> idle_clean (RF_2G4StatusCallBack env sta rsr rxBuf s)"
  by (cases sta) (auto simp: idle_clean_def RF_2G4StatusCallBack_def rf_call_defs Let_def split: option.split)

lemma idle_event: "idle_clean s \<Longrightarrow> idle_clean (rf_deliver ee env e s)"
  by (rule deliver_cases)
    (auto simp: idle_clean_def rf_call_defs on_rx_restart_def on_pair_rx_off_def on_pair_timeout_def
      rf_enter_connected_def on_notify_led_def on_rest_idle_def on_rest_probe_def on_rest_probe_timeout_def
      on_rest_stage2_def on_disconnect_def Let_def)

lemma idle_exec: "idle_clean s \<Longrightarrow> app_ok (Link op) a \<Longrightarrow> idle_clean (rf_exec ee op s)"
  by (cases op) (simp_all add: idle_event idle_pair_rx, auto simp: idle_clean_def RF_ConnectedTick_def TMR0_IRQHandler_def
      rf_call_defs Let_def)

lemma app_ok_link: "app_ok (Link op) a \<Longrightarrow> rf_ok op (a_rf a)"
  by (cases op) simp_all

lemma inv_link:
  assumes "app_inv cfg bd a" and "app_ok (Link op) a" and "rf_step bd op a = Some a'"
  shows "app_inv cfg bd a'"
proof -
  let ?r = "rf_exec (EEPROM bd) op (a_rf a)"
  have a': "a' = a\<lparr>a_rf := ?r, a_kbd := a_kbd a'\<rparr>" by (rule rf_step_fields [OF assms(3)])
  have r: "rf_reach cfg (EEPROM bd) (a_rf a)" using assms(1) by (simp add: app_inv_def)
  have "rf_reach cfg (EEPROM bd) ?r" by (rule rf_reach_step [OF r app_ok_link [OF assms(2)]])
  moreover have "rf_state ?r = RF_STATE_IDLE \<and> \<not> bond_save_pending ?r" if "pwr_explicit_request (a_pwr a)"
    using idle_exec [of "a_rf a" op a "EEPROM bd"] assms(1,2) that idle_no_probe [OF r]
    by (simp add: idle_clean_def app_inv_def)
  ultimately have "app_inv cfg bd (a\<lparr>a_rf := ?r, a_kbd := a_kbd a'\<rparr>)"
    using assms(1) by (simp add: app_inv_def left_for_openboot_def)
  then show ?thesis using a' by simp
qed

lemma inv_clock: "app_inv cfg bd (fst (clock_now bd raw a)) = app_inv cfg bd a"
  by (simp add: clock_now_def case_prod_beta app_inv_def left_for_openboot_def)

lemma clock_fields [simp]:
  "a_rf (fst (clock_now bd raw a)) = a_rf a" "a_kbd (fst (clock_now bd raw a)) = a_kbd a"
  "a_rx (fst (clock_now bd raw a)) = a_rx a" "a_pwr (fst (clock_now bd raw a)) = a_pwr a"
  "a_sleep (fst (clock_now bd raw a)) = a_sleep a"
  "openboot_entry_pending (fst (clock_now bd raw a)) = openboot_entry_pending a"
  "ob_state (fst (clock_now bd raw a)) = ob_state a" "ob_start (fst (clock_now bd raw a)) = ob_start a"
  "ps_state (fst (clock_now bd raw a)) = ps_state a" "ps_start (fst (clock_now bd raw a)) = ps_start a"
  "hb_fast (fst (clock_now bd raw a)) = hb_fast a" "a_calls (fst (clock_now bd raw a)) = a_calls a"
  by (simp_all add: clock_now_def case_prod_beta)

lemma inv_service: "app_inv cfg bd a \<Longrightarrow> uart_service bd raw a = Some a' \<Longrightarrow> app_inv cfg bd a'"
  by (auto simp: uart_service_def case_prod_beta inv_clock intro!: inv_kbd)

lemma inv_led_lost: "app_inv cfg bd a \<Longrightarrow> app_inv cfg bd (led_lost_step bd a)"
  using reach_main_calls(7) [of cfg "EEPROM bd" "a_rf a"]
  by (auto simp: led_lost_step_def case_prod_beta app_inv_def left_for_openboot_def RF_LedResync_def Let_def)

lemma diag_calls [simp]: "pwr_ok (pwr_diag_live f p) = pwr_ok p"
  by (simp add: pwr_ok_def)

lemma inv_pass_end: "app_inv cfg bd a \<Longrightarrow> app_inv cfg bd (loop_end a)"
  by (simp add: loop_end_def app_diag_def acall_def app_inv_def left_for_openboot_def)

lemma inv_heartbeat: "app_inv cfg bd a \<Longrightarrow> app_inv cfg bd (heartbeat_follow_rf_state bd a)"
  by (simp add: heartbeat_follow_rf_state_def heartbeat_set_def acall_def app_inv_def left_for_openboot_def Let_def)

lemma inv_tmr3: "app_inv cfg bd a \<Longrightarrow> app_inv cfg bd (TMR3_IRQHandler a)"
  by (simp add: TMR3_IRQHandler_def acall_def app_inv_def left_for_openboot_def)

lemma inv_idle: "app_inv cfg bd a \<Longrightarrow> app_inv cfg bd (idle_step bd env a)"
  by (auto simp add: idle_step_def idle_arm_and_drain_def idle_sleep_once_def idle_disarm_def app_diag_def acall_def
      app_inv_def left_for_openboot_def Let_def)

lemma inv_tmos_idle:
  assumes "app_inv cfg bd a" and "app_ok (Tmos_Idle time env) a"
  shows "app_inv cfg bd (tmos_idle bd time env a)"
proof -
  let ?r = "CH59x_LowPower (PLATFORM bd) (KBD_HOST_WAKE bd) env (a_rf a) (openboot_entry_pending a) (a_kbd a) time (a_rx a) (a_pwr a)"
  have ok: "pwr_ok (snd (snd ?r))" using assms by (intro low_power_ok) (simp_all add: app_inv_def)
  have e: "pwr_explicit_request (snd (snd ?r)) \<Longrightarrow> pwr_explicit_request (a_pwr a)"
    "pwr_autosleep (snd (snd ?r)) = pwr_autosleep (a_pwr a)"
    by (rule low_power_flags, assumption, rule low_power_flags)
  show ?thesis
    using assms(1) ok e
    by (auto simp: tmos_idle_def OpenBoot_EntryPending_def case_prod_beta app_inv_def left_for_openboot_def)
qed

lemma inv_openboot: "app_inv cfg bd a \<Longrightarrow> app_inv cfg bd (OpenBoot_Service bd env a)"
  using reach_main_calls(1) [OF reach_main_calls(6), of cfg "EEPROM bd" "a_rf a"] disconnect_idle
  by (auto simp: OpenBoot_Service_def enter_openboot_def acall_def case_prod_beta app_inv_def left_for_openboot_def Let_def)

lemma inv_power: "app_inv cfg bd a \<Longrightarrow> app_inv cfg bd (Power_Service bd env a)"
  using reach_main_calls(1) [OF reach_main_calls(6), of cfg "EEPROM bd" "a_rf a"] disconnect_idle
  by (auto simp: Power_Service_def PowerSleep_RequestExplicit_def case_prod_beta app_inv_def left_for_openboot_def Let_def
      pwr_ok_def)

lemma inv_exec:
  assumes I: "app_inv cfg bd a" and ok: "app_ok op a" and e: "app_exec bd op a = Some a'"
  shows "app_inv cfg bd a'"
proof (cases op)
  case (Link x)
  with ok e inv_link [OF I] show ?thesis by (simp only: app_exec.simps)
next
  case (Tmos_Idle time env)
  with ok e inv_tmos_idle [OF I] show ?thesis by (auto simp only: app_exec.simps option.inject)
next
  case (Uart_Poll rtc)
  with e inv_uart_poll [OF I] show ?thesis by (simp only: app_exec.simps)
next
  case (Uart_Service raw)
  with e inv_service [OF I] show ?thesis by (simp only: app_exec.simps)
next
  case (Uart_Irq ls oe bs)
  with e have "a' = a\<lparr>a_rx := UART1_IRQHandler ls oe bs (a_rx a)\<rparr>" by simp
  with I show ?thesis by (simp only: inv_rx)
qed (use e I in \<open>auto simp only: app_exec.simps option.inject intro: inv_led_lost inv_openboot inv_power
    inv_pass_end inv_heartbeat inv_tmr3 inv_idle\<close>)

text \<open>Boot.\<close>

lemma main_init_fields:
  assumes "main_init cfg bd True st (app_bss d tx fl) = Some a"
  shows "RF_TaskInit cfg (EEPROM bd) True (rf_bss fl) = Some (a_rf a)
    \<and> pwr_calls (a_pwr a) = pwr_calls (HAL_SleepInit st (pwr_bss d)) \<and> \<not> pwr_explicit_request (a_pwr a)
    \<and> \<not> pwr_autosleep (a_pwr a) \<and> \<not> autosleep (a_sleep a) \<and> ob_state a = 0 \<and> \<not> left_for_openboot a
    \<and> hb_period (a_calls a) = Some (SYS_CLOCK bd div 5) \<and> \<not> hb_fast a \<and> a_rx a = uart_rx_init
    \<and> ps_state a = 0"
  using assms
  by (auto simp: main_init_def Let_def bind_eq_Some_conv heartbeat_init_def heartbeat_set_def watchdog_init_def acall_def
      left_for_openboot_def app_bss_def SleepProtocol_Reset_def HAL_SleepInit_def pwr_bss_def pcall_def
      split: if_splits dest!: send_status_some)

lemma app_boot_rf:
  assumes "app_boot cfg bd st d tx fl = Some a"
  shows "a_rf a = rf_boot cfg (EEPROM bd) fl"
proof -
  obtain b where b: "main_init cfg bd True st (app_bss d tx fl) = Some b"
    and e: "(if bit_posted RF_EVT_START (calls (a_rf b))
       then rf_step bd (Event RF_EVT_START \<lparr>cfg_status = 0, tx_status = 0, rtc_first = 0, rtc_second = 0\<rparr>) b
       else Some b) = Some a"
    using assms by (auto simp: app_boot_def bind_eq_Some_conv)
  have rf: "RF_TaskInit cfg (EEPROM bd) True (rf_bss fl) = Some (a_rf b)" using main_init_fields [OF b] by simp
  show ?thesis
  proof (cases "bit_posted RF_EVT_START (calls (a_rf b))")
    case True
    with e rf_step_fields [of bd "Event RF_EVT_START \<lparr>cfg_status = 0, tx_status = 0, rtc_first = 0, rtc_second = 0\<rparr>" b a]
    have "a_rf a = rf_exec (EEPROM bd) (Event RF_EVT_START \<lparr>cfg_status = 0, tx_status = 0, rtc_first = 0, rtc_second = 0\<rparr>) (a_rf b)"
      by (simp only: if_True) (metis app.select_convs(1) app.surjective app.update_convs(1) app.update_convs(2))
    with True rf show ?thesis by (simp add: rf_boot_def del: rf_evt_defs)
  next
    case False
    with e rf show ?thesis by (simp add: rf_boot_def del: rf_evt_defs)
  qed
qed

lemma app_boot_fields:
  assumes "app_boot cfg bd st d tx fl = Some a"
  shows "\<exists>b k. main_init cfg bd True st (app_bss d tx fl) = Some b
    \<and> a = b\<lparr>a_rf := rf_boot cfg (EEPROM bd) fl, a_kbd := k\<rparr>"
proof -
  let ?op = "Event RF_EVT_START \<lparr>cfg_status = 0, tx_status = 0, rtc_first = 0, rtc_second = 0\<rparr>"
  obtain b where b: "main_init cfg bd True st (app_bss d tx fl) = Some b"
    and e: "(if bit_posted RF_EVT_START (calls (a_rf b)) then rf_step bd ?op b else Some b) = Some a"
    using assms by (auto simp: app_boot_def bind_eq_Some_conv)
  have "\<exists>r k. a = b\<lparr>a_rf := r, a_kbd := k\<rparr>"
  proof (cases "bit_posted RF_EVT_START (calls (a_rf b))")
    case True
    with e have "rf_step bd ?op b = Some a" by simp
    from rf_step_fields [OF this] show ?thesis by blast
  next
    case False
    with e have "a = b\<lparr>a_rf := a_rf b, a_kbd := a_kbd b\<rparr>" by simp
    then show ?thesis by blast
  qed
  then obtain r k where a: "a = b\<lparr>a_rf := r, a_kbd := k\<rparr>" by blast
  have "r = rf_boot cfg (EEPROM bd) fl" using app_boot_rf [OF assms] by (simp add: a)
  with b a show ?thesis by blast
qed

lemma inv_boot:
  assumes "app_boot cfg bd st d tx fl = Some a"
  shows "app_inv cfg bd a \<and> rx_wf (a_rx a)"
proof -
  obtain b k where b: "main_init cfg bd True st (app_bss d tx fl) = Some b"
    and a: "a = b\<lparr>a_rf := rf_boot cfg (EEPROM bd) fl, a_kbd := k\<rparr>" using app_boot_fields [OF assms] by blast
  note m = main_init_fields [OF b]
  have "pwr_ok (a_pwr b)" using pwr_ok_boot [of st d] m by (simp add: pwr_ok_def)
  with m show ?thesis by (simp add: a app_inv_def left_for_openboot_def rf_reach_boot)
qed

lemma inv_reach: "app_reach cfg bd a \<Longrightarrow> app_inv cfg bd a"
proof (induction rule: app_reach.induct)
  case (app_reach_boot st d tx fl a)
  then show ?case by (rule inv_boot [THEN conjunct1])
next
  case (app_reach_step a op a')
  show ?case by (rule inv_exec) (fact app_reach_step)+
qed

text \<open>The receive ring stays well-formed.\<close>

lemma rx_wf_irq: "rx_wf u \<Longrightarrow> rx_wf (UART1_IRQHandler ls oe bs u)"
proof -
  assume "rx_wf u"
  moreover have "rx_wf v \<Longrightarrow> rx_wf (fold isr_byte bs v)" for v
    by (induction bs arbitrary: v) (simp_all add: rx_wf_isr)
  ultimately show ?thesis by (auto simp: UART1_IRQHandler_def Let_def rx_wf_def)
qed

lemma rx_low_power: "rx_wf rx \<Longrightarrow> rx_wf (fst (snd (CH59x_LowPower pf hwk env rf ob k time rx p)))"
proof (cases "sleep_allowed pf hwk env rf ob k rx p")
  case True
  assume "rx_wf rx"
  then have "rx_wf (take_activity p rx)" by (simp add: take_activity_def rx_wf_def)
  with low_power_allowed [OF True] show ?thesis by (simp add: attempt_eq rx_wf_irq)
next
  case False
  assume "rx_wf rx"
  then have "rx_wf (rx\<lparr>rx_activity_latch := False\<rparr>)" by (simp add: rx_wf_def)
  with \<open>rx_wf rx\<close> show ?thesis by (simp add: CH59x_LowPower_def Let_def holdoff_cases attempt_eq rx_wf_irq)
qed

lemma rx_exec: "rx_wf (a_rx a) \<Longrightarrow> app_exec bd op a = Some a' \<Longrightarrow> rx_wf (a_rx a')"
proof (cases op)
  case (Link x)
  assume "rx_wf (a_rx a)" "app_exec bd op a = Some a'"
  with Link rf_step_fields [of bd x a a'] show ?thesis by (metis app_exec.simps(1) app.select_convs(3) app.surjective app.update_convs(1) app.update_convs(2))
next
  case (Uart_Poll rtc)
  assume "rx_wf (a_rx a)" "app_exec bd op a = Some a'"
  with Uart_Poll poll_rx_wf [of "a_rx a" "app_uart_env bd rtc" "Some (a, 0)"] show ?thesis
    by (auto simp: uart_poll_def case_prod_beta)
next
  case (Uart_Service raw)
  assume "rx_wf (a_rx a)" "app_exec bd op a = Some a'"
  with Uart_Service show ?thesis by (auto simp: uart_service_def case_prod_beta split: if_splits)
qed (auto simp: rx_wf_irq tmos_idle_def case_prod_beta rx_low_power led_lost_step_def Let_def OpenBoot_Service_def
    Power_Service_def enter_openboot_def acall_def loop_end_def app_diag_def heartbeat_follow_rf_state_def
    heartbeat_set_def TMR3_IRQHandler_def idle_step_def idle_arm_and_drain_def idle_sleep_once_def idle_disarm_def)

lemma rx_reach: "app_reach cfg bd a \<Longrightarrow> rx_wf (a_rx a)"
proof (induction rule: app_reach.induct)
  case (app_reach_boot st d tx fl a)
  then show ?case by (rule inv_boot [THEN conjunct2])
next
  case (app_reach_step a op a')
  show ?case by (rule rx_exec) (fact app_reach_step)+
qed

end
