(* ===== verification/Rf_Types.thy ===== *)
theory Rf_Types
  imports Rf_Radio
begin

text \<open>
  The link task keeps to its arrays and its air: every list that stands for a C array has the array's
  length, every index into one is in range, and every channel and packet handed to the radio is one the
  link knows.  The two facts the task relies on are the eight bytes of a queued report and the six of an
  identity.
\<close>

section \<open>Types\<close>

definition own_channels :: "u8 list" where
  "own_channels = pair_channels @ data_channels"

text \<open>Calls the radio and the scheduler accept: own channels, a packet of the ten-byte buffers, own events.\<close>

fun call_typed :: "hw_call \<Rightarrow> bool" where
  "call_typed (Set_Channel ch) = (ch \<in> set own_channels)"
| "call_typed (Tx bs st) = (1 \<le> length bs \<and> length bs \<le> 10)"
| "call_typed (Start_Task e t) = (e \<in> set rf_priority \<and> t \<noteq> 0)"
| "call_typed (Stop_Task e) = (e \<in> set rf_priority)"
| "call_typed (Set_Event e) = (e \<in> set rf_priority)"
| "call_typed (Send_Status b) = (b \<in> {0x23, 0x32, 0x33})"
| "call_typed _ = True"

definition hid_typed :: "hid_t \<Rightarrow> bool" where
  "hid_typed h \<longleftrightarrow> hid_wf h \<and> list_all (\<lambda>r. length r = 8) (hid_fifo h) \<and> length (hid_last_queued h) = 8"

definition rf_typed :: "'f rf_t \<Rightarrow> bool" where
  "rf_typed s \<longleftrightarrow>
     length (tx_payload s) = 10 \<and> length (pair_payload s) = 10 \<and> length (keyboard_mac s) = 6
   \<and> length (stored_dongle_mac (bond s)) = 6
   \<and> unat (prev_data_idx (hop s)) < length data_channels \<and> rest_stage s \<le> 2
   \<and> rf_channel s \<in> set own_channels
   \<and> hid_typed (hid s) \<and> list_all call_typed (calls s)"

definition cfg_typed :: "rf_config \<Rightarrow> bool" where
  "cfg_typed cfg \<longleftrightarrow> length (KBD_MAC cfg) = 6 \<and> (KBD_FACTORY_MAC cfg \<longrightarrow> length (snd (GetMACAddress cfg)) = 6)"

section \<open>The report queue\<close>

lemma hid_typed_push: "hid_typed h \<Longrightarrow> length r = 8 \<Longrightarrow> hid_typed (hid_push r h)"
  using hid_wf_push [of h r]
  by (auto simp: hid_typed_def hid_push_def Let_def list_all_iff dest!: set_update_subset_insert [THEN subsetD])

lemma hid_typed_queue: "hid_typed h \<Longrightarrow> length r = 8 \<Longrightarrow> hid_typed (hid_queue r h)"
  by (simp add: hid_queue_def hid_typed_push)

lemma hid_typed_ack: "hid_typed h \<Longrightarrow> hid_typed (hid_ack h)"
  using hid_wf_ack [of h] by (simp add: hid_typed_def hid_ack_def hid_pop_def Let_def)

lemma hid_typed_frame [simp]:
  "hid_typed (h\<lparr>hid_head_sent := a\<rparr>) = hid_typed h" "hid_typed (h\<lparr>hid_last_queued_valid := b\<rparr>) = hid_typed h"
  by (simp_all add: hid_typed_def)

lemma hid_typed_discard: "hid_typed h \<Longrightarrow> hid_typed (rf_discard_hid_queue h)"
  by (simp add: hid_typed_def rf_discard_hid_queue_def hid_wf_def)

lemma hid_typed_init: "hid_typed hid_init"
  using hid_init_facts(1) by (simp add: hid_typed_def) (simp add: hid_init_def list_all_iff)

section \<open>The operations\<close>

text \<open>Typing looks at nine fields, and calls are typed one at a time.\<close>

lemma typed_call: "call_typed c \<Longrightarrow> rf_typed (call c s) = rf_typed s"
  by (simp add: rf_typed_def call_def)

lemma typed_frame:
  "rf_typed (s\<lparr>rf_state := a1\<rparr>) = rf_typed s" "rf_typed (s\<lparr>pair_flavor := a2\<rparr>) = rf_typed s"
  "rf_typed (s\<lparr>pair_rx_open := a3\<rparr>) = rf_typed s" "rf_typed (s\<lparr>pair_rx_off_armed := a4\<rparr>) = rf_typed s"
  "rf_typed (s\<lparr>rf_rssi := a5\<rparr>) = rf_typed s" "rf_typed (s\<lparr>rf_access_addr := a6\<rparr>) = rf_typed s"
  "rf_typed (s\<lparr>rf_conn_interval := a7\<rparr>) = rf_typed s" "rf_typed (s\<lparr>pair_bcast_count := a8\<rparr>) = rf_typed s"
  "rf_typed (s\<lparr>pending_type_tag := a9\<rparr>) = rf_typed s" "rf_typed (s\<lparr>pending_interval := b1\<rparr>) = rf_typed s"
  "rf_typed (s\<lparr>pending_session_aa := b2\<rparr>) = rf_typed s" "rf_typed (s\<lparr>tx_ctrl := b3\<rparr>) = rf_typed s"
  "rf_typed (s\<lparr>pending_led := b4\<rparr>) = rf_typed s" "rf_typed (s\<lparr>last_led_sent := b5\<rparr>) = rf_typed s"
  "rf_typed (s\<lparr>hid_tx_down_inflight := b6\<rparr>) = rf_typed s" "rf_typed (s\<lparr>pending_anchor := b7\<rparr>) = rf_typed s"
  "rf_typed (s\<lparr>response_channel := b8\<rparr>) = rf_typed s" "rf_typed (s\<lparr>response_ctrl := b9\<rparr>) = rf_typed s"
  "rf_typed (s\<lparr>response_pending := c1\<rparr>) = rf_typed s" "rf_typed (s\<lparr>response_armed_rtc := c2\<rparr>) = rf_typed s"
  "rf_typed (s\<lparr>bond_save_pending := c3\<rparr>) = rf_typed s" "rf_typed (s\<lparr>supervision_kick := c4\<rparr>) = rf_typed s"
  "rf_typed (s\<lparr>rest_probe := c5\<rparr>) = rf_typed s" "rf_typed (s\<lparr>rest_probe_wake := c6\<rparr>) = rf_typed s"
  "rf_typed (s\<lparr>rest_answers := c7\<rparr>) = rf_typed s" "rf_typed (s\<lparr>rest_quiet_pending := c8\<rparr>) = rf_typed s"
  "rf_typed (s\<lparr>rf_configured_aa := c9\<rparr>) = rf_typed s" "rf_typed (s\<lparr>rf_configured_valid := d1\<rparr>) = rf_typed s"
  "rf_typed (s\<lparr>keyboard_mac_valid := d2\<rparr>) = rf_typed s" "rf_typed (s\<lparr>flash := d3\<rparr>) = rf_typed s"
  by (simp_all add: rf_typed_def)

lemma typed_parts:
  "rf_typed s \<Longrightarrow> n \<le> 2 \<Longrightarrow> rf_typed (s\<lparr>rest_stage := n\<rparr>)"
  "rf_typed s \<Longrightarrow> ch \<in> set own_channels \<Longrightarrow> rf_typed (s\<lparr>rf_channel := ch\<rparr>)"
  "rf_typed s \<Longrightarrow> hid_typed h \<Longrightarrow> rf_typed (s\<lparr>hid := h\<rparr>)"
  "rf_typed s \<Longrightarrow> length (stored_dongle_mac b) = 6 \<Longrightarrow> rf_typed (s\<lparr>bond := b\<rparr>)"
  "rf_typed s \<Longrightarrow> unat (prev_data_idx j) < length data_channels \<Longrightarrow> rf_typed (s\<lparr>hop := j\<rparr>)"
  by (simp_all add: rf_typed_def)

lemma typed_facts:
  "rf_typed s \<Longrightarrow> hid_typed (hid s)" "rf_typed s \<Longrightarrow> length (stored_dongle_mac (bond s)) = 6"
  "rf_typed s \<Longrightarrow> unat (prev_data_idx (hop s)) < length data_channels"
  by (simp_all add: rf_typed_def)

lemma call_parts:
  "hid (call c s) = hid s" "bond (call c s) = bond s" "hop (call c s) = hop s" "rf_channel (call c s) = rf_channel s"
  "rest_probe (call c s) = rest_probe s"
  by (simp_all add: call_def)

text \<open>Peel an operation apart: its updates and its calls, one at a time.\<close>

lemmas typed_peel = typed_frame typed_parts typed_call call_parts Let_def
  rf_start_task_atomic_def rf_stop_task_atomic_def rf_set_event_atomic_def rf_tmr0_stop_def rf_tmr0_arm_def
  rf_priority_def KBD_REST_IDLE_TICKS_def KBD_REST_PROBE_TICKS_def KBD_REST_STAGE2_TICKS_def
  KBD_REST_PROBE_TIMEOUT_TICKS_def KBD_REST_IDLE_RETRY_TICKS_def KBD_PAIR_RX_WINDOW_TICKS_def
  RF_CONNECTED_TIMEOUT_TICKS_def KBD_RESELECT_KEEP_TICKS_def RF_PAIR_WINDOW_TICKS_def RF_PAIR_BCAST_TICKS_def

lemmas typed_defs = rf_typed_def rf_call_defs rf_priority_def

lemma channels_own:
  "n < length pair_channels \<Longrightarrow> pair_channels ! n \<in> set own_channels"
  "m < length data_channels \<Longrightarrow> data_channels ! m \<in> set own_channels"
  by (simp_all add: own_channels_def)

lemma pair_channel_0: "pair_channels ! 0 \<in> set own_channels"
  by (rule channels_own) (simp add: pair_channels_def)

lemma typed_configure: "rf_typed s \<Longrightarrow> rf_typed (rf_configure_if_needed env aa s)"
  by (simp add: rf_typed_def rf_configure_if_needed_def rf_configure_def call_def Let_def)

lemma typed_start_rx: "rf_typed s \<Longrightarrow> ch \<in> set own_channels \<Longrightarrow> rf_typed (rf_start_rx env ch s)"
proof -
  assume "rf_typed s" and ch: "ch \<in> set own_channels"
  then have "rf_typed ((call Shut s)\<lparr>rf_channel := ch\<rparr>)" by (simp add: rf_typed_def call_def)
  then show ?thesis by (simp add: rf_start_rx_def Let_def typed_call typed_configure)
qed

lemma typed_rest:
  assumes "rf_typed s"
  shows "rf_typed (rest_cancel s)" and "rf_typed (rest_arm_idle s)" and "rf_typed (rest_go_quiet s)"
    and "rf_typed (rest_enter s)" and "rf_typed (rest_probe_start s)" and "rf_typed (rest_probe_end c s)"
    and "rf_typed (rest_promote_to_normal s)"
  using assms pair_channel_0
  by (simp_all add: typed_peel rest_cancel_def rest_arm_idle_def rest_go_quiet_def rest_enter_def rest_probe_start_def
      rest_probe_end_def rest_promote_to_normal_def)

lemma typed_rest_cancel_hid: "hid (rest_cancel s) = hid s"
  by (simp add: rest_cancel_def rf_call_defs Let_def)

lemma length_channels: "length data_channels = 5" "length pair_channels = 3"
  by (simp_all add: data_channels_def pair_channels_def)

lemma mod3_less: "unat ((x :: u8) mod 3) < 3"
  by (simp add: unat_mod)

lemma typed_broadcast: "rf_typed s \<Longrightarrow> rf_typed (rf_pair_broadcast env s)"
proof -
  assume s: "rf_typed s"
  have ch: "pair_channels ! unat ((pair_bcast_count s div 12) mod 3) \<in> set own_channels"
    by (rule channels_own) (simp only: length_channels mod3_less)
  show ?thesis
    using s ch
    by (simp add: typed_defs rf_pair_broadcast_def rf_configure_if_needed_def rf_configure_def Let_def
        RF_PAIR_BCAST_TICKS_def RF_PAIR_DWELL_BCASTS_def NUM_PAIR_CHANNELS_def)
qed

lemma typed_start_data: "rf_typed s \<Longrightarrow> rf_typed (rf_start_rx env (data_channels ! unat (prev_data_idx (hop s))) s)"
  by (rule typed_start_rx [OF _ channels_own(2)]) (simp_all add: rf_typed_def)

lemma typed_session: "rf_typed s \<Longrightarrow> rf_typed (enter_session env sil s)"
proof -
  assume s: "rf_typed s"
  obtain t where t: "enter_session env sil s =
      rf_start_task_atomic RF_EVT_DISCONNECT RF_CONNECTED_TIMEOUT_TICKS (rf_stop_task_atomic RF_EVT_DISCONNECT
        (call Tmr0_Enable (rf_start_rx env (data_channels ! unat (prev_data_idx (hop t))) t)))"
    and "rf_typed t"
  proof (rule that)
    show "rf_typed (rf_tmr0_stop ((rf_stop_task_atomic RF_EVT_PAIR_RX_OFF (rf_stop_task_atomic RF_EVT_PAIR_TIMEOUT
        (rf_stop_task_atomic RF_EVT_PAIR_BCAST s)))
        \<lparr>bond := (bond s)\<lparr>stored_session_aa := pending_session_aa s, stored_type_tag := pending_type_tag s\<rparr>,
          rf_access_addr := pending_session_aa s, rf_conn_interval := pending_interval s,
          tx_ctrl := 0x02, hid := (hid s)\<lparr>hid_head_sent := False\<rparr>,
          hop := (hop s)\<lparr>prev_data_idx :=
            ucast (((ucast (pending_type_tag s) :: u32) + STOCK_CONNECT_IDX_BIAS) mod NUM_DATA_CHANNELS),
            hop_anchor := pending_anchor s, since_rx := 0, provisional := True\<rparr>,
          response_pending := False, bond_save_pending := \<not> sil, rf_state := RF_STATE_CONNECTED\<rparr>))"
      using s by (simp add: typed_defs length_channels NUM_DATA_CHANNELS_def mod5_less)
  qed (simp add: enter_session_def Let_def rf_call_defs)
  then show ?thesis
    by (simp add: t rf_start_task_atomic_def rf_stop_task_atomic_def typed_call typed_start_data rf_priority_def
        RF_CONNECTED_TIMEOUT_TICKS_def)
qed

text \<open>The callbacks, the tick and the handlers.\<close>

lemma typed_pair_rx: "rf_typed s \<Longrightarrow> pred_option rf_typed (rf_pair_rx env rx s)"
  by (simp add: typed_defs rf_pair_rx_def Let_def)

lemma typed_connected_rx: "rf_typed s \<Longrightarrow> rf_typed (rf_connected_rx env rx s)"
  by (simp add: typed_peel rf_connected_rx_def hid_typed_ack typed_facts)

lemma typed_callback: "rf_typed s \<Longrightarrow> rf_typed (RF_2G4StatusCallBack env sta rsr rxBuf s)"
proof -
  assume s: "rf_typed s"
  have p: "rf_pair_rx env rx t = Some u \<Longrightarrow> rf_typed u" if "rf_typed t" for t u :: "'a rf_t" and rx
    using typed_pair_rx [OF that, of env rx] by simp
  show ?thesis
    using s p [of "s\<lparr>rf_rssi := the rxBuf ! 0\<rparr>"] typed_connected_rx [of "s\<lparr>rf_rssi := the rxBuf ! 0\<rparr>"]
    by (cases sta) (auto simp: RF_2G4StatusCallBack_def Let_def typed_frame typed_call rf_set_event_atomic_def
        rf_priority_def split: option.split)
qed

lemma typed_do_tx: "rf_typed s \<Longrightarrow> rf_typed (rf_do_response_tx env s)"
  by (simp add: typed_defs rf_do_response_tx_def Let_def split: option.split)

lemma typed_tick: "rf_typed s \<Longrightarrow> rf_typed (RF_ConnectedTick env s)"
proof -
  assume s: "rf_typed s"
  let ?h = "fst (hop_advance (conn_interval (kicked s)) (rtc_second env) (hop (kicked s)))"
  have k: "rf_typed (kicked s)"
    using s by (simp add: kicked_def typed_defs RF_CONNECTED_TIMEOUT_TICKS_def)
  then have "rf_typed ((kicked s)\<lparr>response_pending := False, hop := ?h\<rparr>)"
    using advance_idx by (simp add: rf_typed_def length_channels)
  from this typed_start_data [OF this] show ?thesis
    using s k typed_rest(6) [OF s] by (simp add: tick_unfold)
qed

lemma typed_handlers:
  assumes "rf_typed s"
  shows "rf_typed (on_rx_restart env s)" "rf_typed (on_pair_rx_off s)" "rf_typed (on_pair_timeout s)"
    "rf_typed (on_notify_led s)" "rf_typed (on_rest_idle s)" "rf_typed (on_rest_probe s)"
    "rf_typed (on_rest_probe_timeout s)" "rf_typed (on_rest_stage2 s)" "rf_typed (on_disconnect s)"
    "rf_typed (rf_enter_connected env s)"
proof -
  have rx: "rf_typed (rf_start_rx env (rf_channel s) s)"
    using assms by (intro typed_start_rx) (simp_all add: rf_typed_def)
  show "rf_typed (on_rx_restart env s)"
    using assms rx by (simp add: on_rx_restart_def typed_peel)
  show "rf_typed (rf_enter_connected env s)"
    using assms typed_session [OF assms] by (simp add: rf_enter_connected_def typed_peel typed_rest)
qed (use assms in \<open>simp_all add: on_pair_rx_off_def on_pair_timeout_def on_notify_led_def on_rest_idle_def on_rest_probe_def
    on_rest_probe_timeout_def on_rest_stage2_def on_disconnect_def typed_peel typed_rest typed_facts typed_rest_cancel_hid\<close>)

lemma typed_deliver: "rf_typed s \<Longrightarrow> rf_typed (rf_deliver ee env e s)"
proof -
  assume s: "rf_typed s"
  then have f: "rf_typed (call (Fired e) s)" by (simp add: typed_call)
  then have h: "rf_typed ((call (Fired e) s)\<lparr>hid := rf_discard_hid_queue (hid s)\<rparr>)"
    by (simp add: rf_typed_def call_def hid_typed_discard)
  show ?thesis
    by (rule deliver_cases)
      (use f h pair_channel_0 in \<open>simp_all add: typed_peel typed_broadcast typed_do_tx typed_handlers\<close>)
qed

lemma typed_main_calls:
  assumes "rf_typed s"
  shows "rf_typed (RF_DropQueueUnlessReselected s)" "rf_typed (fst (RF_Select2G4 s))"
    "rf_typed (fst (RF_EnterPairing s))" "rf_typed (RF_Disconnect s)" "rf_typed (RF_FlushBondSave ee s)"
    "rf_typed (RF_ClearBond ee s)" "rf_typed (RF_LedResync s)" "rf_typed (TMR0_IRQHandler c s)"
  using assms pair_channel_0
  by (simp_all add: typed_peel typed_rest typed_facts RF_DropQueueUnlessReselected_def RF_Select2G4_def RF_EnterPairing_def
      RF_Disconnect_def RF_FlushBondSave_def RF_ClearBond_def RF_LedResync_def TMR0_IRQHandler_def
      rf_clear_bond_ram_def hid_typed_discard typed_rest_cancel_hid)

lemma typed_queue: "rf_typed s \<Longrightarrow> length r = 8 \<Longrightarrow> rf_typed (RF_QueueHIDReport r s)"
proof -
  assume "rf_typed s" "length r = 8"
  then have h: "rf_typed (s\<lparr>hid := hid_queue r (hid s)\<rparr>)" by (simp add: rf_typed_def hid_typed_queue)
  show ?thesis
    using h by (simp add: RF_QueueHIDReport_def Let_def typed_rest typed_frame typed_call rf_stop_task_atomic_def
        rf_priority_def)
qed

fun op_typed :: "rf_op \<Rightarrow> bool" where
  "op_typed (Queue r) = (length r = 8)"
| "op_typed op = True"

lemma typed_exec: "rf_typed s \<Longrightarrow> op_typed op \<Longrightarrow> rf_typed (rf_exec ee op s)"
  by (cases op) (simp_all add: typed_deliver typed_callback typed_tick typed_main_calls typed_queue)

lemma typed_init:
  assumes "cfg_typed cfg" and "RF_TaskInit cfg ee reg (rf_bss fl) = Some s"
  shows "rf_typed s"
proof -
  have b: "length (stored_dongle_mac (fst (rf_load_bond_from_flash ee f b))) = 6"
    if "length (stored_dongle_mac b) = 6" for f b
    using that by (simp add: rf_load_bond_from_flash_def bond_of_bytes_def Let_def split: prod.split)
  obtain m v where i: "rf_init_keyboard_identity cfg (rf_bss fl) = (rf_bss fl)\<lparr>keyboard_mac := m, keyboard_mac_valid := v\<rparr>"
    by (rule identity_only)
  have "keyboard_mac (rf_init_keyboard_identity cfg (rf_bss fl)) = m" by (simp add: i)
  then have "length m = 6"
    using assms(1) by (auto simp: rf_init_keyboard_identity_def cfg_typed_def Let_def split: prod.splits if_splits)
  then show ?thesis
    using assms(2) pair_channel_0 b [of "rf_clear_bond_ram (bond (rf_bss fl))"]
    unfolding RF_TaskInit_def i Let_def
    by (auto simp: typed_defs rf_bss_def rf_clear_bond_ram_def hid_typed_init length_channels split: if_splits)
qed

lemma typed_boot: "cfg_typed cfg \<Longrightarrow> rf_typed (rf_boot cfg ee fl)"
proof -
  assume c: "cfg_typed cfg"
  have "RF_TaskInit cfg ee True (rf_bss fl) \<noteq> None" by (simp add: RF_TaskInit_def Let_def)
  then obtain s where s: "RF_TaskInit cfg ee True (rf_bss fl) = Some s" by blast
  then show ?thesis using typed_init [OF c s] by (simp add: rf_boot_def typed_deliver)
qed

end
