(* ===== verification/Main_Types.thy ===== *)
theory Main_Types
  imports Main_Reach Rf_Types
begin

text \<open>
  The type of the program's state: in every state it reaches, each array has its length, each index is in
  range, the parser is between frames, the host-wake machine is well-formed and CHWAKE follows it.
\<close>

section \<open>The host frames of an operation\<close>

text \<open>What every host frame, acknowledgement and raw byte keeps of the UART, the operations keep.\<close>

locale kbd_client =
  fixes bd :: "'f board" and Q :: "kbd_uart \<Rightarrow> bool"
  assumes tx: "Q k \<Longrightarrow> Q (k\<lparr>k_tx := t\<rparr>)"
    and status: "Q k \<Longrightarrow> KeyboardUart_SendStatus (KBD_HOST_WAKE bd) (UART_FIFO_SIZE bd) (FREQ_RTC bd) b k = Some k' \<Longrightarrow> Q k'"
    and battery: "Q k \<Longrightarrow> KeyboardUart_SendBattery (KBD_HOST_WAKE bd) (UART_FIFO_SIZE bd) (FREQ_RTC bd) b k = Some k' \<Longrightarrow> Q k'"
    and led: "Q k \<Longrightarrow> KeyboardUart_SendLed (KBD_HOST_WAKE bd) (UART_FIFO_SIZE bd) (FREQ_RTC bd) b k = Some k' \<Longrightarrow> Q k'"
begin

lemma send_keeps:
  "Q (a_kbd a) \<Longrightarrow> send_status bd b a = Some a' \<Longrightarrow> Q (a_kbd a')"
  "Q (a_kbd a) \<Longrightarrow> send_battery bd b a = Some a' \<Longrightarrow> Q (a_kbd a')"
  "Q (a_kbd a) \<Longrightarrow> send_led bd b a = Some a' \<Longrightarrow> Q (a_kbd a')"
  by (auto simp: send_status_def send_battery_def send_led_def intro: status battery led)

lemma forward_keeps: "Q (a_kbd a) \<Longrightarrow> rf_forward bd cs a = Some a' \<Longrightarrow> Q (a_kbd a')"
proof (induction cs arbitrary: a)
  case (Cons c cs)
  then show ?case by (cases c) (auto simp: bind_eq_Some_conv dest: send_keeps)
qed simp

lemma rf_step_keeps: "Q (a_kbd a) \<Longrightarrow> rf_step bd op a = Some a' \<Longrightarrow> Q (a_kbd a')"
  by (auto simp: rf_step_def Let_def dest!: forward_keeps [rotated])

lemma a6_keeps:
  assumes "Q (a_kbd a)" and "a6_command bd sub a = Some a'"
  shows "Q (a_kbd a')"
proof (cases "sub \<in> {0x11, 0x30, 0x31, 0x32, 0x33, 0x51, 0x52, 0x53, 0x63, 0x58, 0x71, 0x72, 0x81}")
  case True
  then show ?thesis
    using assms unfolding insert_iff empty_iff
    by (elim disjE) (auto simp: a6_command_def bind_eq_Some_conv Let_def tx split: if_splits prod.splits
        dest!: send_keeps [rotated])
next
  case False
  then show ?thesis using assms by (simp add: a6_command_def split: if_splits)
qed

lemma frame_keeps:
  assumes "Q (a_kbd a)" and "handle_uart_frame bd t1 t2 cmd sub payload len a = Some a'"
  shows "Q (a_kbd a')"
proof -
  obtain b where b: "frame_sleep bd t1 t2 cmd sub a = Some b"
    and e: "(if cmd = 0xA1 then Some (b\<lparr>a_rf := RF_QueueHIDReport (the payload) (a_rf b)\<rparr>)
        else if cmd = 0xA9 then Some b else if cmd \<noteq> 0xA6 then Some b else a6_command bd sub b) = Some a'"
    using assms(2) by (auto simp: handle_uart_frame_def bind_eq_Some_conv)
  have "Q (a_kbd b)"
    using b assms(1) by (auto simp: frame_sleep_def case_prod_beta Let_def bind_eq_Some_conv
        split: sleep_proto_action_t.splits dest!: send_keeps [rotated])
  with e a6_keeps show ?thesis by (auto split: if_splits)
qed

end

text \<open>The machine is well-formed and CHWAKE follows it.\<close>

definition hw_config :: "u32 \<Rightarrow> host_wake_t \<Rightarrow> bool" where
  "hw_config Q hw \<longleftrightarrow> guard_ticks hw = RTC_CLOCK_TICKS_US Q KBD_HOST_WAKE_GUARD_US
     \<and> ack_timeout_ticks hw = RTC_CLOCK_TICKS_US Q KBD_HOST_WAKE_ACK_TIMEOUT_US
     \<and> max_attempts hw = KBD_HOST_WAKE_ATTEMPTS"

definition kbd_typed :: "bool \<Rightarrow> u32 \<Rightarrow> kbd_uart \<Rightarrow> bool" where
  "kbd_typed hwk Q k \<longleftrightarrow> (hwk \<longrightarrow> hw_wf (host_wake k) \<and> hw_config Q (host_wake k) \<and> chwake_ok k)"

lemma hw_config_init:
  "hw_config Q (HostWake_Init (RTC_CLOCK_TICKS_US Q KBD_HOST_WAKE_GUARD_US)
     (RTC_CLOCK_TICKS_US Q KBD_HOST_WAKE_ACK_TIMEOUT_US) KBD_HOST_WAKE_ATTEMPTS)"
  by (simp add: hw_config_def HostWake_Init_def KBD_HOST_WAKE_ATTEMPTS_def)

lemma hw_config_apply: "hw_config Q (fst (hw_apply e hw)) = hw_config Q hw"
  by (simp add: hw_config_def)

lemmas hw_config_ops =
  hw_config_apply [of Q "Enq c v" for Q c v, simplified] hw_config_apply [of Q "Latest c v" for Q c v, simplified]
  hw_config_apply [of Q Ack for Q, simplified] hw_config_apply [of Q "Step now" for Q now, simplified]

lemma kbd_typed_send:
  assumes "kbd_typed hwk Q k"
  shows "KeyboardUart_SendStatus hwk F Q b k = Some k' \<Longrightarrow> kbd_typed hwk Q k'"
    "KeyboardUart_SendBattery hwk F Q b k = Some k' \<Longrightarrow> kbd_typed hwk Q k'"
    "KeyboardUart_SendLed hwk F Q b k = Some k' \<Longrightarrow> kbd_typed hwk Q k'"
  using assms chwake_apply [of k F Q "K_Status b" k'] chwake_apply [of k F Q "K_Battery b" k']
    chwake_apply [of k F Q "K_Led b" k']
  by (auto simp: kbd_typed_def KeyboardUart_SendStatus_def KeyboardUart_SendBattery_def KeyboardUart_SendLed_def
      send_host_frame_def hw_wf_enqueue hw_wf_latest hw_config_ops)

lemma kbd_typed_tx: "kbd_typed hwk Q (k\<lparr>k_tx := t\<rparr>) = kbd_typed hwk Q k"
  by (simp add: kbd_typed_def chwake_ok_def)

lemma kbd_typed_ack: "kbd_typed hwk Q k \<Longrightarrow> kbd_typed hwk Q (k\<lparr>host_wake := HostWake_OnAck (host_wake k)\<rparr>)"
  by (auto simp: kbd_typed_def chwake_ok_def hw_wf_ack hw_config_ops) (simp_all add: HostWake_OnAck_def split: if_splits)

lemma service_step: "KeyboardUart_Service True F Q now k = Some k' \<Longrightarrow> host_wake k' = fst (HostWake_Step now (host_wake k))"
  by (auto simp: KeyboardUart_Service_def Let_def split: if_splits option.splits)

lemma kbd_typed_service:
  assumes "kbd_typed hwk Q k" and "KeyboardUart_Service hwk F Q now k = Some k'"
  shows "kbd_typed hwk Q k'"
proof (cases hwk)
  case True
  with assms hw_wf_step chwake_service service_step [of F Q now k k'] show ?thesis by (auto simp: kbd_typed_def hw_config_ops)
qed (simp add: kbd_typed_def)

lemma kbd_typed_led_lost: "kbd_typed hwk Q k \<Longrightarrow> kbd_typed hwk Q (fst (KeyboardUart_TakeLedLost hwk k))"
  using chwake_apply [of k 0 0 K_LedLost "fst (KeyboardUart_TakeLedLost True k)"]
  by (auto simp: kbd_typed_def KeyboardUart_TakeLedLost_def Let_def hw_wf_def hw_phase_wf_def have_pending_def hw_config_def
      split: host_wake_state.splits)

interpretation kbd_frames: kbd_client bd "kbd_typed (KBD_HOST_WAKE bd) (FREQ_RTC bd)" for bd
  by unfold_locales (auto simp: kbd_typed_tx intro: kbd_typed_send)

section \<open>The typing of the program\<close>

definition app_typed :: "'f board \<Rightarrow> 'f app \<Rightarrow> bool" where
  "app_typed bd a \<longleftrightarrow>
     rf_typed (a_rf a) \<and> rx_wf (a_rx a) \<and> p_ready (rx_parser (a_rx a))
   \<and> kbd_typed (KBD_HOST_WAKE bd) (FREQ_RTC bd) (a_kbd a) \<and> ob_state a \<le> 1 \<and> ps_state a \<le> 1"

lemma app_typed_frame [simp]:
  "app_typed bd (a\<lparr>a_pwr := a1\<rparr>) = app_typed bd a" "app_typed bd (a\<lparr>a_sleep := a2\<rparr>) = app_typed bd a"
  "app_typed bd (a\<lparr>a_clock := a3\<rparr>) = app_typed bd a" "app_typed bd (a\<lparr>ob_start := a4\<rparr>) = app_typed bd a"
  "app_typed bd (a\<lparr>ps_start := a5\<rparr>) = app_typed bd a" "app_typed bd (a\<lparr>hb_fast := a6\<rparr>) = app_typed bd a"
  "app_typed bd (a\<lparr>a_calls := a7\<rparr>) = app_typed bd a" "app_typed bd (a\<lparr>transport_is_2g4 := a8\<rparr>) = app_typed bd a"
  "app_typed bd (a\<lparr>openboot_entry_pending := a9\<rparr>) = app_typed bd a"
  by (simp_all add: app_typed_def)

lemma app_typed_parts:
  "app_typed bd a \<Longrightarrow> rf_typed r \<Longrightarrow> app_typed bd (a\<lparr>a_rf := r\<rparr>)"
  "app_typed bd a \<Longrightarrow> kbd_typed (KBD_HOST_WAKE bd) (FREQ_RTC bd) k \<Longrightarrow> app_typed bd (a\<lparr>a_kbd := k\<rparr>)"
  "app_typed bd a \<Longrightarrow> rx_wf u \<Longrightarrow> p_ready (rx_parser u) \<Longrightarrow> app_typed bd (a\<lparr>a_rx := u\<rparr>)"
  "app_typed bd a \<Longrightarrow> n \<le> 1 \<Longrightarrow> app_typed bd (a\<lparr>ob_state := n\<rparr>)"
  "app_typed bd a \<Longrightarrow> n \<le> 1 \<Longrightarrow> app_typed bd (a\<lparr>ps_state := n\<rparr>)"
  by (simp_all add: app_typed_def)

lemma app_typed_kbd: "app_typed bd a \<Longrightarrow> kbd_typed (KBD_HOST_WAKE bd) (FREQ_RTC bd) (a_kbd a)"
  by (simp add: app_typed_def)

lemma typed_frame_rf:
  "rf_typed (a_rf a) \<Longrightarrow> (cmd = 0xA1 \<Longrightarrow> length (the payload) = 8) \<Longrightarrow> rf_typed (frame_rf bd cmd sub payload a)"
  by (simp add: frame_rf_def a6_rf_def typed_queue typed_main_calls)

lemma typed_handle:
  assumes "app_typed bd a" and "cmd = 0xA1 \<Longrightarrow> length (the payload) = 8"
    and "handle_uart_frame bd t1 t2 cmd sub payload len a = Some a'"
  shows "app_typed bd a'"
proof -
  have "kbd_typed (KBD_HOST_WAKE bd) (FREQ_RTC bd) (a_kbd a')"
    using kbd_frames.frame_keeps [OF _ assms(3)] assms(1) by (simp add: app_typed_def)
  with assms(1) frame_fields [OF assms(3)] typed_frame_rf [of a cmd payload bd sub] assms(2) show ?thesis
    by (simp add: app_typed_def)
qed

interpretation typed: frame_client bd True "app_typed bd" for bd
proof
  show "app_typed bd (a\<lparr>a_kbd := (a_kbd a)\<lparr>host_wake := HostWake_OnAck (host_wake (a_kbd a))\<rparr>\<rparr>)"
    if "app_typed bd a" for a :: "'a app"
    by (intro app_typed_parts that kbd_typed_ack app_typed_kbd)
qed (auto intro: typed_handle intro!: app_typed_parts simp: kbd_typed_tx app_typed_kbd)

text \<open>The parser is between frames whenever the loop looks.\<close>

lemma ready_poll: "p_ready (rx_parser u) \<Longrightarrow> p_ready (rx_parser (fst (KeyboardUart_Poll e u w)))"
proof (induction e u w rule: KeyboardUart_Poll.induct)
  case (1 e u w)
  have "p_ready (rx_parser (poll_hole u))"
    using 1(3) by (simp add: poll_hole_def p_ready_def reset_parser_def p_wf_def)
  moreover have "p_ready (rx_parser (rx_pop (fst (poll_feed e u w))))"
    using feed_refines [OF 1(3), of e _ w] by (simp add: rx_pop_def poll_feed_def Let_def)
  ultimately show ?case using 1 by (subst KeyboardUart_Poll.simps) (simp add: Let_def)
qed

lemma irq_parser: "rx_parser (UART1_IRQHandler ls oe bs u) = rx_parser u"
proof -
  have "rx_parser (fold isr_byte bs v) = rx_parser v" for v
    by (induction bs arbitrary: v) (simp_all add: isr_byte_def Let_def)
  then show ?thesis by (simp add: UART1_IRQHandler_def Let_def)
qed

lemma low_power_parser: "rx_parser (fst (snd (CH59x_LowPower pf hwk env rf ob k time rx p))) = rx_parser rx"
proof -
  have "rx_parser (fst (snd (sleep_attempt pf env time u q))) = rx_parser u" for u q
    by (simp add: sleep_attempt_def case_prod_beta Let_def irq_parser)
  moreover have "rx_parser (fst (snd (pwr_holdoff_expired pf now u q))) = rx_parser u" for now u q
    by (simp add: pwr_holdoff_expired_def KeyboardUart_TakeRxActivity_def Let_def)
  ultimately show ?thesis by (simp add: CH59x_LowPower_def case_prod_beta Let_def)
qed

section \<open>Every step keeps the types\<close>

lemma typed_rf_step:
  assumes "app_typed bd a" and "op_typed op" and "rf_step bd op a = Some a'"
  shows "app_typed bd a'"
proof -
  have "kbd_typed (KBD_HOST_WAKE bd) (FREQ_RTC bd) (a_kbd a')"
    by (rule kbd_frames.rf_step_keeps [OF app_typed_kbd [OF assms(1)] assms(3)])
  moreover have "rf_typed (rf_exec (EEPROM bd) op (a_rf a))"
    using assms(1,2) by (simp add: app_typed_def typed_exec)
  ultimately show ?thesis
    using assms(1) app_typed_parts(1,2) rf_step_fields [OF assms(3)] by metis
qed

lemma typed_poll: "app_typed bd a \<Longrightarrow> uart_poll bd rtc a = Some a' \<Longrightarrow> app_typed bd a'"
proof -
  assume a: "app_typed bd a" and e: "uart_poll bd rtc a = Some a'"
  have "length (rx_buf (rx_parser (a_rx a))) = 24" using a by (simp add: app_typed_def p_ready_def p_wf_def)
  with typed.uart_poll_keeps [OF a e] obtain b where b: "app_typed bd b" "a' = b\<lparr>a_rx := a_rx a'\<rparr>" by blast
  have "a_rx a' = fst (KeyboardUart_Poll (app_uart_env bd rtc) (a_rx a) (Some (a, 0)))"
    using e by (auto simp: uart_poll_def case_prod_beta)
  with a have "rx_wf (a_rx a')" "p_ready (rx_parser (a_rx a'))"
    by (simp_all add: app_typed_def poll_rx_wf ready_poll)
  with app_typed_parts(3) [OF b(1)] b(2) show ?thesis by metis
qed

lemma typed_clock: "app_typed bd (fst (clock_now bd raw a)) = app_typed bd a"
  by (simp add: clock_now_def case_prod_beta)

lemma typed_uart_service: "app_typed bd a \<Longrightarrow> uart_service bd raw a = Some a' \<Longrightarrow> app_typed bd a'"
  by (auto simp: uart_service_def case_prod_beta typed_clock split: if_splits
      intro!: app_typed_parts dest: kbd_typed_service [OF app_typed_kbd])

lemma typed_services:
  assumes "app_typed bd a"
  shows "app_typed bd (OpenBoot_Service bd env a)" and "app_typed bd (Power_Service bd env a)"
    and "app_typed bd (led_lost_step bd a)" and "app_typed bd (tmos_idle bd time ienv a)"
    and "app_typed bd (idle_step bd wenv a)" and "app_typed bd (heartbeat_follow_rf_state bd a)"
    and "app_typed bd (loop_end a)" and "app_typed bd (TMR3_IRQHandler a)"
proof -
  have rf: "rf_typed (RF_Disconnect (RF_FlushBondSave (EEPROM bd) (a_rf a)))" "rf_typed (RF_LedResync (a_rf a))"
    using assms by (simp_all add: app_typed_def typed_main_calls)
  show "app_typed bd (OpenBoot_Service bd env a)" "app_typed bd (Power_Service bd env a)"
    using assms rf by (auto simp: OpenBoot_Service_def Power_Service_def enter_openboot_def acall_def case_prod_beta
        Let_def typed_clock intro!: app_typed_parts)
  show "app_typed bd (led_lost_step bd a)"
    using assms rf by (auto simp: led_lost_step_def case_prod_beta Let_def intro!: app_typed_parts kbd_typed_led_lost
        app_typed_kbd)
  have rx: "rx_wf (a_rx a)" "p_ready (rx_parser (a_rx a))" using assms by (simp_all add: app_typed_def)
  show "app_typed bd (tmos_idle bd time ienv a)"
    using assms rx by (auto simp: tmos_idle_def case_prod_beta rx_low_power low_power_parser intro!: app_typed_parts)
  show "app_typed bd (idle_step bd wenv a)"
    using assms rx by (auto simp: idle_step_def idle_arm_and_drain_def idle_sleep_once_def idle_disarm_def app_diag_def
        acall_def Let_def rx_wf_irq irq_parser intro!: app_typed_parts)
  show "app_typed bd (heartbeat_follow_rf_state bd a)" "app_typed bd (loop_end a)" "app_typed bd (TMR3_IRQHandler a)"
    using assms by (simp_all add: heartbeat_follow_rf_state_def heartbeat_set_def loop_end_def app_diag_def
        TMR3_IRQHandler_def acall_def Let_def)
qed

lemma op_typed_ok: "app_ok (Link op) a \<Longrightarrow> op_typed op"
  by (cases op) simp_all

lemma typed_app_exec:
  assumes "app_typed bd a" and "app_ok op a" and "app_exec bd op a = Some a'"
  shows "app_typed bd a'"
proof (cases op)
  case (Uart_Irq ls oe bs)
  have "rx_wf (a_rx a)" "p_ready (rx_parser (a_rx a))" using assms(1) by (simp_all add: app_typed_def)
  with assms Uart_Irq show ?thesis by (auto simp: rx_wf_irq irq_parser intro!: app_typed_parts)
next
  case (Link x)
  with assms op_typed_ok typed_rf_step show ?thesis by (metis app_exec.simps(1))
qed (use assms in \<open>auto simp: typed_services intro: typed_poll typed_uart_service\<close>)

lemma typed_app_boot:
  assumes "cfg_typed cfg" and "app_boot cfg bd st d tx fl = Some a"
  shows "app_typed bd a"
proof -
  let ?k = "KeyboardUart_Init (KBD_HOST_WAKE bd) (FREQ_RTC bd) (a_kbd (app_bss d tx fl))"
  obtain b where b: "main_init cfg bd True st (app_bss d tx fl) = Some b"
    and e: "(if bit_posted RF_EVT_START (calls (a_rf b))
      then rf_step bd (Event RF_EVT_START \<lparr>cfg_status = 0, tx_status = 0, rtc_first = 0, rtc_second = 0\<rparr>) b
      else Some b) = Some a"
    using assms(2) by (auto simp: app_boot_def bind_eq_Some_conv)
  have k: "kbd_typed (KBD_HOST_WAKE bd) (FREQ_RTC bd) ?k"
    using chwake_init [of "FREQ_RTC bd" "a_kbd (app_bss d tx fl)"]
    by (auto simp: kbd_typed_def app_bss_def KeyboardUart_Init_def hw_wf_Init hw_config_init)
  have "kbd_typed (KBD_HOST_WAKE bd) (FREQ_RTC bd) (a_kbd b)"
    using b k by (auto simp: main_init_def Let_def bind_eq_Some_conv heartbeat_init_def heartbeat_set_def
        watchdog_init_def acall_def split: if_splits dest!: kbd_frames.send_keeps(1) [rotated])
  moreover have "rx_wf uart_rx_init" by (simp add: rx_wf_def uart_rx_init_def)
  ultimately have "app_typed bd b"
    using main_init_fields [OF b] typed_init [OF assms(1), of "EEPROM bd" True fl]
    by (simp add: app_typed_def)
  with e typed_rf_step [of bd b "Event RF_EVT_START \<lparr>cfg_status = 0, tx_status = 0, rtc_first = 0, rtc_second = 0\<rparr>" a]
  show ?thesis by (auto split: if_splits simp del: rf_evt_defs)
qed

lemma typed_reach: "app_reach cfg bd a \<Longrightarrow> cfg_typed cfg \<Longrightarrow> app_typed bd a"
proof (induction rule: app_reach.induct)
  case (app_reach_boot st d tx fl a)
  then show ?case by (rule typed_app_boot [rotated])
next
  case (app_reach_step a op a')
  show ?case by (rule typed_app_exec) (use app_reach_step in blast)+
qed

text \<open>
  C13: The state of the program is well-typed in every state it reaches, with an identity of six bytes: the
  arrays of the link task have their lengths and its hop index, rest stage and channel their ranges, every
  channel it ever tuned and every packet it ever sent is one of its own eight channels and at most ten
  bytes, a queued report has eight bytes in a ring that never overruns its sixteen slots, the receive
  ring never overruns its 64, the parser is between frames with its buffer of 24, and in a host-wake
  build the frame queue is well-formed and CHWAKE follows the machine.
\<close>

theorem program_typed:
  assumes "app_reach cfg bd a" and "cfg_typed cfg"
  shows "rf_typed (a_rf a) \<and> rx_wf (a_rx a) \<and> p_ready (rx_parser (a_rx a))
       \<and> (KBD_HOST_WAKE bd \<longrightarrow> hw_wf (host_wake (a_kbd a)) \<and> chwake_ok (a_kbd a))
       \<and> ob_state a \<le> 1 \<and> ps_state a \<le> 1"
  using typed_reach [OF assms] by (simp add: app_typed_def kbd_typed_def)

end
