(* ===== verification/Main_Props.thy ===== *)
theory Main_Props
  imports Main_Reach
begin

text \<open>
  The properties of the composed program: what the link, the power module and the services guarantee
  together, in every reachable state and across the passes of the main loop.
\<close>

section \<open>Steps and passes\<close>

lemma calls_kept:
  "a_calls (tmos_idle bd time env a) = a_calls a" "a_calls (led_lost_step bd a) = a_calls a"
  "a_calls (Power_Service bd senv a) = a_calls a"
  by (simp_all add: tmos_idle_def led_lost_step_def Power_Service_def case_prod_beta Let_def)

lemma left_kept:
  "left_for_openboot (loop_end a) = left_for_openboot a"
  "left_for_openboot (heartbeat_follow_rf_state bd a) = left_for_openboot a"
  "left_for_openboot (TMR3_IRQHandler a) = left_for_openboot a"
  "left_for_openboot (idle_step bd wenv a) = left_for_openboot a"
  by (simp_all add: left_for_openboot_def loop_end_def app_diag_def acall_def heartbeat_follow_rf_state_def
      heartbeat_set_def TMR3_IRQHandler_def idle_step_def idle_arm_and_drain_def idle_sleep_once_def
      idle_disarm_def Let_def)

lemma left_exec:
  assumes "app_exec bd op a = Some a'" and "\<forall>env. op \<noteq> Ob_Service env"
  shows "left_for_openboot a' = left_for_openboot a"
proof (cases op)
  case (Link x)
  then obtain r k where "a' = a\<lparr>a_rf := r, a_kbd := k\<rparr>" using assms(1) rf_step_fields [of bd x a a'] by auto
  then show ?thesis by (simp add: left_for_openboot_def)
next
  case (Uart_Poll rtc)
  have "frame_client bd False (\<lambda>b. a_calls b = a_calls a)"
    by unfold_locales (auto dest!: frame_fields)
  from frame_client.uart_poll_keeps [OF this, of a rtc a'] Uart_Poll assms(1)
  obtain b where "a_calls b = a_calls a" "a' = b\<lparr>a_rx := a_rx a'\<rparr>" by auto
  then have "a_calls a' = a_calls a" by (metis app.select_convs(14) app.surjective app.update_convs(3))
  then show ?thesis by (simp add: left_for_openboot_def)
next
  case (Uart_Service raw)
  then show ?thesis using assms(1) by (auto simp: uart_service_def left_for_openboot_def case_prod_beta split: if_splits)
next
  case (Ob_Service env)
  with assms(2) show ?thesis by blast
next
  case (Ps_Service env)
  with assms(1) show ?thesis by (auto simp: left_for_openboot_def calls_kept)
qed (use assms(1) in \<open>auto simp: left_kept\<close>, auto simp: left_for_openboot_def calls_kept)

lemma reach_run: "app_reach cfg bd a \<Longrightarrow> app_run bd ops a = Some a' \<Longrightarrow> app_reach cfg bd a'"
proof (induction ops arbitrary: a)
  case (Cons op ops)
  then obtain b where "app_ok op a" "app_exec bd op a = Some b" "app_run bd ops b = Some a'"
    by (auto simp: bind_eq_Some_conv split: if_splits)
  with Cons show ?case using app_reach_step by blast
qed simp

lemma reach_ok_step:
  assumes "app_reach cfg bd a" and "app_exec bd op a = Some a'" and "\<not> left_for_openboot a"
    and "\<not> left_for_openboot a \<Longrightarrow> app_ok op a"
  shows "app_reach cfg bd a'"
  using assms app_reach_step by blast

lemma reach_some: "app_reach cfg bd a \<Longrightarrow> app_run bd ops a \<noteq> None \<Longrightarrow> app_reach cfg bd (the (app_run bd ops a))"
  using reach_run by (metis option.exhaust_sel)

section \<open>Properties of the program\<close>

lemma reach_pass_step:
  assumes "app_reach cfg bd a \<and> \<not> left_for_openboot a" and "app_exec bd op a = Some a'"
    and "\<not> left_for_openboot a \<Longrightarrow> app_ok op a" and "\<forall>env. op \<noteq> Ob_Service env"
  shows "app_reach cfg bd a' \<and> \<not> left_for_openboot a'"
  using assms app_reach_step left_exec [OF assms(2,4)] by blast

text \<open>
  C1: The composition is sound: a pass of the main loop takes reachable states to reachable states whatever
  TMOS, the radio and the interrupts do before it, and in every such state the link task is in a state of
  its own model.  In particular its one assumption about its callers, that a bond is only cleared in
  IDLE, is met by both commands that clear one.
\<close>

theorem main_loop_sound:
  assumes "app_reach cfg bd a" and "\<not> left_for_openboot a" and "Main_Circulation bd pe a = Some a'"
    and "\<forall>env. Ob_Service env \<notin> set (pe_tmos pe)"
  shows "app_reach cfg bd a' \<and> rf_reach cfg (EEPROM bd) (a_rf a')"
proof -
  let ?ok = "\<lambda>a. app_reach cfg bd a \<and> \<not> left_for_openboot a"
  obtain b c d e where p: "app_run bd (pe_tmos pe) a = Some b" "rf_step bd (Tick (pe_tick pe)) b = Some c"
      "uart_poll bd (pe_rtc pe) c = Some d" "uart_service bd (pe_raw pe) d = Some e"
    and r: "(let f = OpenBoot_Service bd (pe_ob pe) (led_lost_step bd e) in
             if left_for_openboot f then f
             else idle_step bd (pe_wfe pe) (heartbeat_follow_rf_state bd (loop_end (Power_Service bd (pe_ps pe) f)))) = a'"
    using assms(3) by (auto simp: Main_Circulation_def Let_def bind_eq_Some_conv split: if_splits)
  have run: "?ok x \<Longrightarrow> app_run bd ops x = Some y \<Longrightarrow> \<forall>env. Ob_Service env \<notin> set ops \<Longrightarrow> ?ok y" for ops x y
  proof (induction ops arbitrary: x)
    case (Cons op ops)
    then obtain z where z: "app_ok op x" "app_exec bd op x = Some z" "app_run bd ops z = Some y"
      by (auto simp: bind_eq_Some_conv split: if_splits)
    have "?ok z" by (rule reach_pass_step [OF Cons.prems(1) z(2) z(1)]) (use Cons.prems(3) in auto)
    then show ?case by (rule Cons.IH [OF _ z(3)]) (use Cons.prems(3) in auto)
  qed simp
  have b: "?ok b" using run [OF _ p(1) assms(4)] assms(1,2) by blast
  have c: "?ok c" by (rule reach_pass_step [OF b, of "Link (Tick (pe_tick pe))"]) (simp_all add: p(2))
  have d: "?ok d" by (rule reach_pass_step [OF c, of "Uart_Poll (pe_rtc pe)"]) (simp_all add: p(3))
  have e: "?ok e" by (rule reach_pass_step [OF d, of "Uart_Service (pe_raw pe)"]) (simp_all add: p(4))
  have l: "?ok (led_lost_step bd e)" by (rule reach_pass_step [OF e, of Led_Lost]) simp_all
  let ?f = "OpenBoot_Service bd (pe_ob pe) (led_lost_step bd e)"
  have f: "app_reach cfg bd ?f"
    by (rule app_reach_step [of cfg bd "led_lost_step bd e" "Ob_Service (pe_ob pe)"]) (use l in simp_all)
  have "app_reach cfg bd a'"
  proof (cases "left_for_openboot ?f")
    case True
    with r f show ?thesis by (simp add: Let_def)
  next
    case False
    with f have "?ok ?f" by simp
    then have "?ok (Power_Service bd (pe_ps pe) ?f)" by (rule reach_pass_step [of _ _ _ "Ps_Service (pe_ps pe)"]) simp_all
    then have "?ok (loop_end (Power_Service bd (pe_ps pe) ?f))" by (rule reach_pass_step [of _ _ _ Loop_End]) simp_all
    then have "?ok (heartbeat_follow_rf_state bd (loop_end (Power_Service bd (pe_ps pe) ?f)))"
      by (rule reach_pass_step [of _ _ _ Heartbeat]) simp_all
    then have "?ok (idle_step bd (pe_wfe pe) (heartbeat_follow_rf_state bd (loop_end (Power_Service bd (pe_ps pe) ?f))))"
      by (rule reach_pass_step [of _ _ _ "Idle (pe_wfe pe)"]) simp_all
    with r False show ?thesis by (simp add: Let_def)
  qed
  with inv_reach [of cfg bd a'] show ?thesis by (simp add: app_inv_def)
qed

lemma reach_radio_off:
  assumes "app_reach cfg bd a" and "RF_CanDeepSleep (a_rf a)"
  shows "radio_off (calls (a_rf a))"
proof -
  have "rf_reach cfg (EEPROM bd) (a_rf a)" using inv_reach [OF assms(1)] by (simp add: app_inv_def)
  from radio_reach [OF this] assms(2) show ?thesis
    by (auto simp: radio_inv_def RF_CanDeepSleep_def split: if_splits)
qed

text \<open>
  C2: The whole program sleeps safely: when TMOS idles in a reachable state, a deep sleep is entered only
  with the radio off, no bootloader entry pending, no frame queued for the host or waiting for its ACK,
  no received byte unread, and on the host's word: its explicit request in IDLE, or the auto-sleep it
  armed and a silence of the holdoff.  Every sleep so far was entered with both wake sources armed and
  interrupts on, and between operations the wake sources are off and interrupts are on again.
\<close>

theorem program_sleeps_safely:
  assumes "app_reach cfg bd a" and "app_ok (Tmos_Idle time env) a"
  defines "a' \<equiv> tmos_idle bd time env a"
  shows "(sleeps (pwr_calls (a_pwr a')) \<noteq> sleeps (pwr_calls (a_pwr a)) \<longrightarrow>
            radio_off (calls (a_rf a)) \<and> \<not> openboot_entry_pending a
            \<and> KeyboardUart_HostWakeIdle (KBD_HOST_WAKE bd) (a_kbd a)
            \<and> rx_items (a_rx a) = [] \<and> idle_late env = []
            \<and> (pwr_explicit_request (a_pwr a) \<and> rf_state (a_rf a) = RF_STATE_IDLE
               \<or> autosleep (a_sleep a) \<and> host_silent (PLATFORM bd) (idle_now env) (a_rx a) (a_pwr a)))
       \<and> sleeps_armed (pwr_calls (a_pwr a')) \<and> wakes_off (pwr_calls (a_pwr a'))
       \<and> latest irq_switch (pwr_calls (a_pwr a')) \<noteq> Some False"
proof -
  let ?c = "CH59x_LowPower (PLATFORM bd) (KBD_HOST_WAKE bd) env (a_rf a) (openboot_entry_pending a) (a_kbd a) time
              (a_rx a) (a_pwr a)"
  have a': "a_pwr a' = snd (snd ?c)" by (simp add: a'_def tmos_idle_def OpenBoot_EntryPending_def case_prod_beta)
  have i: "app_inv cfg bd a" "app_inv cfg bd a'"
    using inv_reach [OF assms(1)] inv_tmos_idle [OF _ assms(2)] by (simp_all add: a'_def)
  have allowed: "sleep_allowed (PLATFORM bd) (KBD_HOST_WAKE bd) env (a_rf a) (openboot_entry_pending a) (a_kbd a)
      (a_rx a) (a_pwr a) \<and> idle_late env = []"
    if "sleeps (pwr_calls (a_pwr a')) \<noteq> sleeps (pwr_calls (a_pwr a))"
  proof (rule conjI)
    show al: "sleep_allowed (PLATFORM bd) (KBD_HOST_WAKE bd) env (a_rf a) (openboot_entry_pending a) (a_kbd a)
      (a_rx a) (a_pwr a)"
      using that low_power_refused a' by fastforce
    let ?rx = "take_activity (a_pwr a) (a_rx a)"
    have "rx_wf ?rx" using rx_reach [OF assms(1)] by (simp add: take_activity_def rx_wf_def)
    moreover have "KeyboardUart_RxQuiet (UART1_IRQHandler False False (idle_late env) ?rx)"
      using that low_power_allowed [OF al, of time] sleep_until_sleeps
      by (auto simp: a' attempt_eq end_holdoff_def sleep_clear_def split: if_splits)
    ultimately show "idle_late env = []" using attempt_rx_quiet by blast
  qed
  have sleep: "radio_off (calls (a_rf a)) \<and> \<not> openboot_entry_pending a
      \<and> KeyboardUart_HostWakeIdle (KBD_HOST_WAKE bd) (a_kbd a) \<and> rx_items (a_rx a) = [] \<and> idle_late env = []
      \<and> (pwr_explicit_request (a_pwr a) \<and> rf_state (a_rf a) = RF_STATE_IDLE
         \<or> autosleep (a_sleep a) \<and> host_silent (PLATFORM bd) (idle_now env) (a_rx a) (a_pwr a))"
    if s: "sleeps (pwr_calls (a_pwr a')) \<noteq> sleeps (pwr_calls (a_pwr a))"
  proof -
    note al = allowed [OF s]
    then have "RF_CanDeepSleep (a_rf a)"
      by (auto simp: sleep_allowed_def RF_GetState_def RF_CanDeepSleep_def split: if_splits)
    from reach_radio_off [OF assms(1) this] al show ?thesis
      using i(1) by (simp add: sleep_allowed_def KeyboardUart_TxIdle_def KeyboardUart_RxQuiet_def rx_items_empty
          RF_GetState_def app_inv_def split: if_splits)
  qed
  moreover have "pwr_ok (a_pwr a')" using i(2) by (simp add: app_inv_def)
  ultimately show ?thesis by (simp add: pwr_ok_def)
qed

text \<open>
  C9: An explicit sleep stays possible until it is withdrawn: in every reachable state in which the request
  is armed the link is IDLE with the radio off, no bond waits to be written and no bootloader entry is
  pending, so of the gates of the idle callback only the UART can still hold it up.
\<close>

theorem explicit_sleep_ready:
  assumes "app_reach cfg bd a" and "pwr_explicit_request (a_pwr a)"
  shows "rf_state (a_rf a) = RF_STATE_IDLE \<and> radio_off (calls (a_rf a)) \<and> \<not> bond_save_pending (a_rf a)
       \<and> \<not> openboot_entry_pending a
       \<and> (sleep_allowed (PLATFORM bd) (KBD_HOST_WAKE bd) env (a_rf a) (openboot_entry_pending a) (a_kbd a) (a_rx a)
            (a_pwr a) \<longleftrightarrow>
          KeyboardUart_TxIdle (KBD_HOST_WAKE bd) (idle_tfc env) (idle_all_emp env) (a_kbd a)
          \<and> KeyboardUart_RxQuiet (a_rx a))"
proof -
  have i: "rf_state (a_rf a) = RF_STATE_IDLE \<and> \<not> bond_save_pending (a_rf a) \<and> \<not> openboot_entry_pending a"
    using inv_reach [OF assms(1)] assms(2) by (simp add: app_inv_def)
  then have "radio_off (calls (a_rf a))"
    by (intro reach_radio_off [OF assms(1)]) (simp add: RF_CanDeepSleep_def)
  with i assms(2) show ?thesis by (simp add: sleep_allowed_def RF_GetState_def)
qed

text \<open>
  C7: The last meaningful command wins: a state-changing frame (report, name, transport, pairing, unpairing or
  update) leaves no sleep pending and withdraws a request already handed to the power module; no frame
  arms that request itself, a sleep becomes pending only by an A6 54 after the A6 56 negotiation and
  with no update pending, the power module mirrors the reducer's auto-sleep flag, and every frame
  restarts the holdoff.
\<close>

theorem last_command_wins:
  assumes "handle_uart_frame bd t1 t2 cmd sub payload len a = Some a'"
  shows "(SleepProtocol_IsStateChanging cmd sub \<longrightarrow>
            \<not> sleep_pending (a_sleep a') \<and> \<not> pwr_explicit_request (a_pwr a'))
       \<and> (pwr_explicit_request (a_pwr a') \<longrightarrow> pwr_explicit_request (a_pwr a))
       \<and> (sleep_pending (a_sleep a') \<and> \<not> sleep_pending (a_sleep a) \<longrightarrow>
            cmd = 0xA6 \<and> sub = 0x54 \<and> unlocked (a_sleep a) \<and> \<not> openboot_entry_pending a)
       \<and> pwr_autosleep (a_pwr a') = autosleep (a_sleep a')
       \<and> pwr_holdoff_active (a_pwr a') \<and> pwr_holdoff_start (a_pwr a') = t2"
proof -
  have sl: "a_sleep a' = fst (SleepProtocol_OnFrame cmd sub (openboot_entry_pending a) (a_sleep a))"
    using frame_fields [OF assms] by blast
  obtain d where "a_pwr a' = (frame_pwr t1 t2 cmd sub a)\<lparr>pwr_diag := d\<rparr>" using frame_fields [OF assms] by blast
  moreover have "sleep_pending (a_sleep a') \<longleftrightarrow>
      (sleep_pending (a_sleep a) \<and> \<not> clears_pending (Frame cmd sub (openboot_entry_pending a)))
      \<or> (asks_sleep (Frame cmd sub (openboot_entry_pending a)) \<and> unlocked (a_sleep a))"
    using sleep_apply_flags(3) [of "Frame cmd sub (openboot_entry_pending a)" "a_sleep a"] by (simp add: sl)
  moreover have "SleepProtocol_IsStateChanging cmd sub \<Longrightarrow> clears_pending (Frame cmd sub ob) \<and> \<not> asks_sleep (Frame cmd sub ob)"
    for ob by (auto simp: clears_pending_def asks_sleep_def SleepProtocol_IsStateChanging_def)
  ultimately show ?thesis by (auto simp: frame_pwr_fields sl asks_sleep_def)
qed

lemma shutdown_rf:
  assumes "a' = OpenBoot_Service bd env a \<or> a' = Power_Service bd env a" and "a_rf a' \<noteq> a_rf a"
  shows "a_rf a' = RF_Disconnect (RF_FlushBondSave (EEPROM bd) (a_rf a))"
  using assms
  by (elim disjE) (simp_all add: OpenBoot_Service_def Power_Service_def enter_openboot_def acall_def case_prod_beta
      Let_def split: if_splits)

lemma power_request:
  assumes "\<not> pwr_explicit_request (a_pwr a)" and "pwr_explicit_request (a_pwr (Power_Service bd env a))"
  shows "sleep_pending (a_sleep a) \<and> \<not> openboot_entry_pending a
    \<and> KeyboardUart_TxIdle (KBD_HOST_WAKE bd) (svc_tfc env) (svc_all_emp env) (a_kbd a)
    \<and> a_rf (Power_Service bd env a) = RF_Disconnect (RF_FlushBondSave (EEPROM bd) (a_rf a))"
  using assms by (simp add: Power_Service_def case_prod_beta Let_def split: if_splits)

text \<open>
  C8: Neither sleep nor update loses a bond: when the bootloader service or the sleep service shuts the link
  down, the link is IDLE with the radio off, and a bond that was still waiting to be written (the host
  asked right after a fresh pairing) has been written and loads back as it was; without one the flash is
  untouched.  The sleep service arms the request only with a sleep pending, no update pending and
  everything sent and acknowledged.
\<close>

theorem shutdown_keeps_bond:
  assumes "a' = OpenBoot_Service bd env a \<or> a' = Power_Service bd env a" and "a_rf a' \<noteq> a_rf a"
    and "eeprom_ok (EEPROM bd) content" and "stored_session_aa (bond (a_rf a)) \<noteq> 0"
    and "stored_session_aa (bond (a_rf a)) \<noteq> RF_DEFAULT_ACCESS_ADDR"
    and "has_bond (bond (a_rf a))" and "length (stored_dongle_mac (bond (a_rf a))) = 6"
  shows "rf_state (a_rf a') = RF_STATE_IDLE \<and> radio_off (calls (a_rf a'))
       \<and> (bond_save_pending (a_rf a) \<longrightarrow>
            rf_load_bond_from_flash (EEPROM bd) (flash (a_rf a')) b0 = (bond (a_rf a), True))
       \<and> (\<not> bond_save_pending (a_rf a) \<longrightarrow> flash (a_rf a') = flash (a_rf a))
       \<and> (\<not> pwr_explicit_request (a_pwr a) \<and> pwr_explicit_request (a_pwr (Power_Service bd env a)) \<longrightarrow>
            sleep_pending (a_sleep a) \<and> \<not> openboot_entry_pending a
            \<and> KeyboardUart_TxIdle (KBD_HOST_WAKE bd) (svc_tfc env) (svc_all_emp env) (a_kbd a))"
proof -
  let ?r = "RF_FlushBondSave (EEPROM bd) (a_rf a)"
  have r: "a_rf a' = RF_Disconnect ?r" by (rule shutdown_rf [OF assms(1,2)])
  have f: "flash (RF_Disconnect s) = flash s" "radio_off (calls (RF_Disconnect s))" for s :: "'a rf_t"
    by (simp_all add: RF_Disconnect_def rest_cancel_def rf_call_defs Let_def)
  show ?thesis
    using bond_reload [OF assms(3,6,7,4,5), of "flash (a_rf a)" b0] power_request [of a bd env] disconnect_idle
    by (auto simp: r f RF_FlushBondSave_def)
qed

section \<open>The update\<close>

text \<open>With the update latched, every step keeps the latch, the service's place and the sleeps.\<close>

definition update_frame :: "'f app \<Rightarrow> 'f app \<Rightarrow> bool" where
  "update_frame a b \<longleftrightarrow> openboot_entry_pending b \<and> ob_state b = ob_state a \<and> ob_start b = ob_start a
     \<and> sleeps (pwr_calls (a_pwr b)) = sleeps (pwr_calls (a_pwr a))"

lemma update_frame_refl: "openboot_entry_pending a \<Longrightarrow> update_frame a a"
  by (simp add: update_frame_def)

lemma update_poll:
  assumes "openboot_entry_pending a" and "uart_poll bd rtc a = Some a'"
  shows "update_frame a a'"
proof -
  have "frame_client bd False (update_frame a)"
  proof
    fix t1 t2 cmd sub payload len and b c :: "'a app"
    assume b: "update_frame a b" and c: "handle_uart_frame bd t1 t2 cmd sub payload len b = Some c"
    note f = frame_fields [OF c]
    obtain d where "a_pwr c = (frame_pwr t1 t2 cmd sub b)\<lparr>pwr_diag := d\<rparr>" using f by blast
    then have "pwr_calls (a_pwr c) = pwr_calls (a_pwr b)" by (simp add: frame_pwr_fields)
    with b f show "update_frame a c" by (simp add: update_frame_def)
  qed (simp_all add: update_frame_def)
  from frame_client.uart_poll_keeps [OF this update_frame_refl [OF assms(1)] assms(2)]
  obtain b where b: "update_frame a b" "a' = b\<lparr>a_rx := a_rx a'\<rparr>" by blast
  have "update_frame a (b\<lparr>a_rx := a_rx a'\<rparr>)" using b(1) by (simp add: update_frame_def)
  then show ?thesis using b(2) by simp
qed

lemma update_idle:
  assumes "openboot_entry_pending a"
  shows "update_frame a (tmos_idle bd time env a)"
proof -
  have "\<not> sleep_allowed (PLATFORM bd) (KBD_HOST_WAKE bd) env (a_rf a) (openboot_entry_pending a) (a_kbd a) (a_rx a) (a_pwr a)"
    using assms by (simp add: sleep_allowed_def)
  from low_power_refused [OF this] assms show ?thesis
    by (simp add: update_frame_def tmos_idle_def OpenBoot_EntryPending_def case_prod_beta)
qed

lemma update_power: "openboot_entry_pending a \<Longrightarrow> update_frame a (Power_Service bd env a)"
  by (simp add: update_frame_def Power_Service_def case_prod_beta Let_def)

lemma update_steps:
  assumes "openboot_entry_pending a"
  shows "update_frame a (led_lost_step bd a)" "update_frame a (loop_end a)"
    "update_frame a (heartbeat_follow_rf_state bd a)" "update_frame a (TMR3_IRQHandler a)"
    "update_frame a (idle_step bd wenv a)"
  using assms
  by (simp_all add: update_frame_def led_lost_step_def loop_end_def app_diag_def acall_def heartbeat_follow_rf_state_def
      heartbeat_set_def TMR3_IRQHandler_def idle_step_def idle_arm_and_drain_def idle_sleep_once_def idle_disarm_def
      idle_wanted_def case_prod_beta Let_def)

lemma update_service:
  assumes "openboot_entry_pending a" and "uart_service bd raw a = Some a'"
  shows "update_frame a a'"
  using assms by (auto simp: uart_service_def update_frame_def case_prod_beta split: if_splits)

lemma update_exec:
  assumes p: "openboot_entry_pending a" and e: "app_exec bd op a = Some a'" and op: "\<forall>env. op \<noteq> Ob_Service env"
  shows "update_frame a a'"
proof (cases op)
  case (Link x)
  with e have "rf_step bd x a = Some a'" by simp
  from rf_step_fields [OF this] obtain r k where "a' = a\<lparr>a_rf := r, a_kbd := k\<rparr>" by blast
  with p show ?thesis by (simp add: update_frame_def)
next
  case (Uart_Irq ls oe bs)
  with p e show ?thesis by (auto simp: update_frame_def)
next
  case (Uart_Poll rtc)
  with p e update_poll show ?thesis by (simp only: app_exec.simps)
next
  case (Uart_Service raw)
  with p e update_service show ?thesis by (simp only: app_exec.simps)
next
  case (Ob_Service env)
  with op show ?thesis by blast
qed (use e p in \<open>auto simp only: app_exec.simps option.inject intro: update_idle update_power update_steps\<close>)

text \<open>
  C5: The update wins over sleep: once the host has asked for the bootloader (A6 81), no step of any kind,
  whatever commands follow, drops the request, arms an explicit sleep or enters a deep sleep.
\<close>

theorem update_wins:
  assumes "app_reach cfg bd a" and "openboot_entry_pending a" and "app_ok op a" and "app_exec bd op a = Some a'"
  shows "openboot_entry_pending a' \<and> \<not> pwr_explicit_request (a_pwr a')
       \<and> sleeps (pwr_calls (a_pwr a')) = sleeps (pwr_calls (a_pwr a))"
proof -
  have "openboot_entry_pending a' \<and> sleeps (pwr_calls (a_pwr a')) = sleeps (pwr_calls (a_pwr a))"
  proof (cases "\<exists>env. op = Ob_Service env")
    case True
    with assms(2,4) show ?thesis
      by (auto simp: OpenBoot_Service_def enter_openboot_def acall_def case_prod_beta Let_def)
  next
    case False
    then show ?thesis using update_exec [OF assms(2,4)] by (simp add: update_frame_def)
  qed
  moreover have "app_inv cfg bd a'" by (rule inv_reach [OF app_reach_step [OF assms(1,3,4)]])
  ultimately show ?thesis by (auto simp: app_inv_def)
qed

lemma openboot_kept:
  assumes "ob_state a \<noteq> 0"
  shows "ob_state (OpenBoot_Service bd env a) = ob_state a" "ob_start (OpenBoot_Service bd env a) = ob_start a"
    "openboot_entry_pending (OpenBoot_Service bd env a) = openboot_entry_pending a"
  using assms by (simp_all add: OpenBoot_Service_def enter_openboot_def acall_def case_prod_beta Let_def)

lemma update_run:
  "openboot_entry_pending a \<Longrightarrow> ob_state a \<noteq> 0 \<Longrightarrow> app_run bd ops a = Some b \<Longrightarrow>
    openboot_entry_pending b \<and> ob_state b \<noteq> 0 \<and> ob_start b = ob_start a"
proof (induction ops arbitrary: a)
  case (Cons op ops)
  then obtain c where c: "app_exec bd op a = Some c" "app_run bd ops c = Some b"
    by (auto simp: bind_eq_Some_conv split: if_splits)
  have "openboot_entry_pending c \<and> ob_state c \<noteq> 0 \<and> ob_start c = ob_start a"
  proof (cases "\<exists>env. op = Ob_Service env")
    case True
    with Cons.prems(1,2) c(1) show ?thesis by (auto simp: openboot_kept)
  next
    case False
    then show ?thesis using update_exec [OF Cons.prems(1) c(1)] Cons.prems(2) by (simp add: update_frame_def)
  qed
  with Cons.IH [OF _ _ c(2)] show ?case by simp
qed simp

text \<open>
  C3: The update is reached: the first service call after the host asked for it stops the link (IDLE, radio
  off), and whatever the program does after that, the first later call that finds the transmit FIFO
  drained, or 20 ms gone on the module's clock, leaves for the bootloader.  A host that never drains its
  side cannot hold the update up.
\<close>

theorem update_reached:
  assumes "openboot_entry_pending a" and "ob_state a = 0" and "app_run bd ops (OpenBoot_Service bd env0 a) = Some b"
    and "KeyboardUart_FifoIdle (svc_tfc env) (svc_all_emp env)
       \<or> ticks_us bd 20000 \<le> snd (clock_now bd (svc_raw env) b) - snd (clock_now bd (svc_raw env0) a)"
  shows "rf_state (a_rf (OpenBoot_Service bd env0 a)) = RF_STATE_IDLE
       \<and> radio_off (calls (a_rf (OpenBoot_Service bd env0 a)))
       \<and> left_for_openboot (OpenBoot_Service bd env b)"
proof -
  let ?a = "OpenBoot_Service bd env0 a"
  have now: "snd (clock_now bd raw (a\<lparr>a_rf := r\<rparr>)) = snd (clock_now bd raw a)" for raw r
    by (simp add: clock_now_def case_prod_beta)
  have rf: "a_rf ?a = RF_Disconnect (RF_FlushBondSave (EEPROM bd) (a_rf a))"
    using assms(1,2) by (simp add: OpenBoot_Service_def case_prod_beta Let_def)
  have st: "openboot_entry_pending ?a" "ob_state ?a \<noteq> 0" "ob_start ?a = snd (clock_now bd (svc_raw env0) a)"
    using assms(1,2) by (simp_all add: OpenBoot_Service_def case_prod_beta Let_def now)
  from update_run [OF st(1,2) assms(3)] st(3) assms(4) have "left_for_openboot (OpenBoot_Service bd env b)"
    by (auto simp: OpenBoot_Service_def enter_openboot_def acall_def left_for_openboot_def case_prod_beta Let_def)
  moreover have "radio_off (calls (RF_Disconnect s))" for s :: "'a rf_t"
    by (simp add: RF_Disconnect_def rest_cancel_def rf_call_defs Let_def)
  ultimately show ?thesis by (simp add: rf disconnect_idle)
qed

section \<open>What the host is told\<close>

text \<open>The status bytes of an A6 command, in order, and the frames that carry what it answers: status frames,
  or the battery level, which the board reports as full.\<close>

definition host_replies :: "bool \<Rightarrow> u8 \<Rightarrow> 'f app \<Rightarrow> u8 list" where
  "host_replies hwk sub a =
     (if sub = 0x11 then [0x34, 0x36]
      else if sub = 0x30 then [0x34, if RF_IdentityValid (a_rf a) \<and> RF_HasBond (a_rf a) then 0x35 else 0x36]
      else if sub \<in> {0x31, 0x32, 0x33} then [0x34, 0x36, 0x23]
      else if sub = 0x51 \<and> transport_is_2g4 a then
        (if \<not> RF_IdentityValid (a_rf a) then [0x36]
         else if RF_GetState (a_rf a) = RF_STATE_CONNECTED then [0x32] else [0x31, 0x23])
      else if sub = 0x52 then [0x33]
      else if sub = 0x56 then [0x37]
      else if sub = 0x58 \<and> hwk then [0x38]
      else if sub = 0x63 then (if RF_IdentityValid (a_rf a) then [0x31, 0x23] else [0x36])
      else [])"

definition host_frames :: "bool \<Rightarrow> u8 \<Rightarrow> 'f app \<Rightarrow> (u8 \<times> u8) list" where
  "host_frames hwk sub a = (if sub = 0x53 then [(0x5C, 100)] else map (\<lambda>b. (0x5B, b)) (host_replies hwk sub a))"

fun frames_sent :: "'f board \<Rightarrow> (u8 \<times> u8) list \<Rightarrow> kbd_uart \<Rightarrow> kbd_uart option" where
  "frames_sent bd [] k = Some k"
| "frames_sent bd ((c, v) # fs) k =
     Option.bind (send_host_frame (KBD_HOST_WAKE bd) (UART_FIFO_SIZE bd) (FREQ_RTC bd) c v k) (frames_sent bd fs)"

lemma frames_queued:
  assumes "frames_sent bd fs k = Some k'" and "KBD_HOST_WAKE bd" and "hw_ring_wf (host_wake k)"
  shows "hw_queue (host_wake k') = take 8 (hw_queue (host_wake k) @ fs)"
  using assms
proof (induction bd fs k rule: frames_sent.induct)
  case (1 bd k)
  then show ?case by (simp add: hw_ring_wf_def)
next
  case (2 bd c v fs k)
  let ?h = "fst (HostWake_Enqueue c v (host_wake k))"
  have wf: "hw_ring_wf ?h" using 2(4) by (rule hw_ring_wf_enqueue)
  have sent: "frames_sent bd fs (k\<lparr>host_wake := ?h\<rparr>) = Some k'"
    using 2(2,3) by (simp add: send_host_frame_def)
  have "hw_queue (host_wake k') = take 8 (hw_queue ?h @ fs)"
    using 2(1) [OF _ sent 2(3)] 2(3) wf by (simp add: send_host_frame_def)
  also have "hw_queue ?h = take 8 (hw_queue (host_wake k) @ [(c, v)])"
    using 2(4) by (auto simp: hw_queue_enqueue list_put_def keep_old_def hw_ring_wf_def)
  finally show ?case using 2(4) by (cases "unat (hw_count (host_wake k)) < 8") (simp_all add: hw_ring_wf_def)
qed

lemma select_result: "snd (RF_Select2G4 s) = (keyboard_mac_valid s \<and> has_bond (bond s))"
  by (simp add: RF_Select2G4_def rf_rest_defs Let_def)

lemma pairing_result: "snd (RF_EnterPairing s) = (keyboard_mac_valid s \<and> rf_state s \<noteq> RF_STATE_CONNECTED)"
  by (simp add: RF_EnterPairing_def Let_def)

lemma a6_kbd:
  assumes "a6_command bd sub a = Some a'" and "sub \<notin> {0x56, 0x71}"
  shows "frames_sent bd (host_frames (KBD_HOST_WAKE bd) sub a) (a_kbd a) = Some (a_kbd a')"
proof (cases "sub \<in> {0x11, 0x30, 0x31, 0x32, 0x33, 0x51, 0x52, 0x53, 0x63, 0x58, 0x72, 0x81}")
  case True
  then show ?thesis
    using assms(1) unfolding insert_iff empty_iff
    by (elim disjE) (auto simp: a6_command_def host_frames_def host_replies_def Let_def bind_eq_Some_conv
        case_prod_beta select_result pairing_result RF_HasBond_def RF_IdentityValid_def RF_GetState_def
        send_status_def send_battery_def KeyboardUart_SendStatus_def KeyboardUart_SendBattery_def split: if_splits)
next
  case False
  with assms show ?thesis
    by (simp add: a6_command_def host_frames_def host_replies_def split: if_splits)
qed

lemma a6_dump:
  assumes "a6_command bd 0x71 a = Some a'"
  shows "\<exists>d tx. DiagDump_Send (UART_FIFO_SIZE bd) (FREQ_RTC bd) (rf_state_byte (RF_GetState (a_rf a)))
             (pwr_diag (a_pwr a)) (k_tx (a_kbd a)) = Some (d, tx) \<and> a_kbd a' = (a_kbd a)\<lparr>k_tx := tx\<rparr>"
  using assms by (auto simp: a6_command_def)

text \<open>What runs before the command sends nothing, but for A6 56, which the negotiation answers.\<close>

lemma frame_sleep_kbd:
  assumes "frame_sleep bd t1 t2 0xA6 sub a = Some b"
  shows "sub \<noteq> 0x56 \<Longrightarrow> a_kbd b = a_kbd a"
    "sub = 0x56 \<Longrightarrow> frames_sent bd [(0x5B, 0x37)] (a_kbd a) = Some (a_kbd b)"
    "pwr_diag (a_pwr b) = pwr_diag (a_pwr a)"
proof -
  have "snd (SleepProtocol_OnFrame 0xA6 sub ob st) \<noteq> SLEEP_PROTO_SEND_READY" if "sub \<noteq> 0x56" for ob st
    using that by (simp add: SleepProtocol_OnFrame_def sleep_consts Let_def)
  then show "a_kbd b = a_kbd a" if "sub \<noteq> 0x56"
    using assms that by (auto simp: frame_sleep_def case_prod_beta Let_def split: sleep_proto_action_t.splits)
  have "snd (SleepProtocol_OnFrame 0xA6 0x56 ob st) = SLEEP_PROTO_SEND_READY" for ob st
    by (simp add: SleepProtocol_OnFrame_def sleep_consts)
  then show "frames_sent bd [(0x5B, 0x37)] (a_kbd a) = Some (a_kbd b)" if "sub = 0x56"
    using assms that
    by (auto simp: frame_sleep_def case_prod_beta Let_def bind_eq_Some_conv send_status_def
        KeyboardUart_SendStatus_def SLEEP_PROTO_STATUS_READY_def)
  have "a_pwr b = frame_pwr t1 t2 0xA6 sub a" 
    using arg_cong [OF frame_sleep_fields [OF assms], of a_pwr] by simp
  then show "pwr_diag (a_pwr b) = pwr_diag (a_pwr a)"
    by (simp add: frame_pwr_def PowerSleep_NoteActivity_def PowerSleep_SetAutosleep_def
        PowerSleep_CancelExplicit_def pwr_note_activity_def Let_def)
qed

lemma frame_kbd:
  assumes "handle_uart_frame bd t1 t2 0xA6 sub payload len a = Some a'"
  shows "sub \<noteq> 0x71 \<Longrightarrow> frames_sent bd (host_frames (KBD_HOST_WAKE bd) sub a) (a_kbd a) = Some (a_kbd a')"
    "sub = 0x71 \<Longrightarrow> \<exists>d tx. DiagDump_Send (UART_FIFO_SIZE bd) (FREQ_RTC bd) (rf_state_byte (RF_GetState (a_rf a)))
             (pwr_diag (a_pwr a)) (k_tx (a_kbd a)) = Some (d, tx) \<and> a_kbd a' = (a_kbd a)\<lparr>k_tx := tx\<rparr>"
proof -
  obtain b where b: "frame_sleep bd t1 t2 0xA6 sub a = Some b" "a6_command bd sub b = Some a'"
    using assms(1) by (auto simp: handle_uart_frame_def bind_eq_Some_conv)
  obtain sp k p where "b = a\<lparr>a_sleep := sp, a_kbd := k, a_pwr := p\<rparr>" using frame_sleep_fields [OF b(1)] by blast
  then have ab: "a_rf b = a_rf a" "transport_is_2g4 b = transport_is_2g4 a" by simp_all
  then have same: "host_frames hwk sub b = host_frames hwk sub a" for hwk
    by (simp add: host_frames_def host_replies_def)
  show "frames_sent bd (host_frames (KBD_HOST_WAKE bd) sub a) (a_kbd a) = Some (a_kbd a')" if "sub \<noteq> 0x71"
  proof (cases "sub = 0x56")
    case True
    with b(2) have "a' = b" by (simp add: a6_command_def)
    with True frame_sleep_kbd(2) [OF b(1)] show ?thesis by (simp add: host_frames_def host_replies_def)
  next
    case False
    with a6_kbd [OF b(2)] that frame_sleep_kbd(1) [OF b(1)] show ?thesis by (simp add: same)
  qed
  show "\<exists>d tx. DiagDump_Send (UART_FIFO_SIZE bd) (FREQ_RTC bd) (rf_state_byte (RF_GetState (a_rf a)))
             (pwr_diag (a_pwr a)) (k_tx (a_kbd a)) = Some (d, tx) \<and> a_kbd a' = (a_kbd a)\<lparr>k_tx := tx\<rparr>"
    if "sub = 0x71"
    using a6_dump [of bd b a'] b(2) that frame_sleep_kbd(1,3) [OF b(1)] by (simp add: ab)
qed

lemma frame_queue:
  assumes "handle_uart_frame bd t1 t2 0xA6 sub payload len a = Some a'" and "KBD_HOST_WAKE bd"
    and "hw_wf (host_wake (a_kbd a))"
  shows "hw_queue (host_wake (a_kbd a')) = take 8 (hw_queue (host_wake (a_kbd a)) @ host_frames True sub a)"
proof (cases "sub = 0x71")
  case True
  then have "host_wake (a_kbd a') = host_wake (a_kbd a)" using frame_kbd(2) [OF assms(1)] by auto
  then show ?thesis using assms(3) True by (simp add: host_frames_def host_replies_def hw_wf_def hw_ring_wf_def)
next
  case False
  show ?thesis using frames_queued [OF frame_kbd(1) [OF assms(1) False] assms(2)] assms(2,3) by (simp add: hw_wf_def)
qed

lemma pairing_truth:
  "keyboard_mac_valid s \<Longrightarrow> rf_state s \<noteq> RF_STATE_CONNECTED \<Longrightarrow>
    rf_state (fst (RF_EnterPairing s)) = RF_STATE_PAIRING
    \<and> pair_flavor (fst (RF_EnterPairing s)) = PAIR_FLAVOR_FRESH
    \<and> armed RF_EVT_PAIR_TIMEOUT (calls (fst (RF_EnterPairing s)))
    \<and> armed RF_EVT_PAIR_BCAST (calls (fst (RF_EnterPairing s)))"
  by (simp add: RF_EnterPairing_def rf_rest_defs Let_def)

lemma select_truth:
  "keyboard_mac_valid s \<Longrightarrow> has_bond (bond s) \<Longrightarrow>
    has_bond (bond (fst (RF_Select2G4 s)))
    \<and> (rf_state (fst (RF_Select2G4 s)) = RF_STATE_CONNECTED
       \<or> rf_state (fst (RF_Select2G4 s)) = RF_STATE_PAIRING
         \<and> pair_flavor (fst (RF_Select2G4 s)) = PAIR_FLAVOR_BONDED
         \<and> armed RF_EVT_PAIR_BCAST (calls (fst (RF_Select2G4 s))))"
  by (simp add: RF_Select2G4_def rf_rest_defs Let_def)

lemmas reply_defs = a6_rf_def host_replies_def RF_IdentityValid_def RF_GetState_def RF_HasBond_def

lemma clear_truth:
  "rf_state (RF_ClearBond ee (RF_Disconnect s)) = RF_STATE_IDLE"
  "\<not> has_bond (bond (RF_ClearBond ee (RF_Disconnect s)))"
  "keyboard_mac_valid (RF_ClearBond ee (RF_Disconnect s)) = keyboard_mac_valid s"
  by (simp_all add: RF_ClearBond_def RF_Disconnect_def rest_cancel_def rf_call_defs Let_def rf_clear_bond_ram_def)

text \<open>
  C6: The host is told the truth.  Every A6 command but the dump request (71) hands exactly its answer,
  frame by frame and in order (\<open>host_frames\<close>), to the sending layer; the dump request hands it nothing
  and only writes the dump to the line.  In a host-wake build the answer is therefore appended to the
  queue, cut off where the eight entries are full.  And what the status frames say holds when they are
  handed over.  PAIRING (31): a fresh pairing is on the air and its timeout runs.  CONNECTED (32): the link was up and
  was not touched.  DISCONNECTED (33): the link is down and the bond gone.  BONDED (35): there is a bond,
  and the link is up or being searched for.  NOT BONDED (36): the link is down, or there is no bond or no
  identity.
\<close>

theorem replies_truthful:
  assumes "handle_uart_frame bd t1 t2 0xA6 sub payload len a = Some a'"
  defines "frames \<equiv> host_frames (KBD_HOST_WAKE bd) sub a"
    and "told \<equiv> set (host_replies (KBD_HOST_WAKE bd) sub a)"
  shows "(sub \<noteq> 0x71 \<longrightarrow> frames_sent bd frames (a_kbd a) = Some (a_kbd a'))
       \<and> (sub = 0x71 \<longrightarrow> (\<exists>d tx. DiagDump_Send (UART_FIFO_SIZE bd) (FREQ_RTC bd)
              (rf_state_byte (RF_GetState (a_rf a))) (pwr_diag (a_pwr a)) (k_tx (a_kbd a)) = Some (d, tx)
            \<and> a_kbd a' = (a_kbd a)\<lparr>k_tx := tx\<rparr>))
       \<and> (KBD_HOST_WAKE bd \<and> hw_wf (host_wake (a_kbd a)) \<longrightarrow>
            hw_queue (host_wake (a_kbd a')) = take 8 (hw_queue (host_wake (a_kbd a)) @ frames))
       \<and> (0x31 \<in> told \<longrightarrow> rf_state (a_rf a') = RF_STATE_PAIRING \<and> pair_flavor (a_rf a') = PAIR_FLAVOR_FRESH
            \<and> armed RF_EVT_PAIR_BCAST (calls (a_rf a')) \<and> armed RF_EVT_PAIR_TIMEOUT (calls (a_rf a')))
       \<and> (0x32 \<in> told \<longrightarrow> rf_state (a_rf a') = RF_STATE_CONNECTED \<and> a_rf a' = a_rf a)
       \<and> (0x33 \<in> told \<longrightarrow> rf_state (a_rf a') = RF_STATE_IDLE \<and> \<not> has_bond (bond (a_rf a')))
       \<and> (0x35 \<in> told \<longrightarrow> has_bond (bond (a_rf a'))
            \<and> (rf_state (a_rf a') = RF_STATE_CONNECTED
               \<or> rf_state (a_rf a') = RF_STATE_PAIRING \<and> pair_flavor (a_rf a') = PAIR_FLAVOR_BONDED
                 \<and> armed RF_EVT_PAIR_BCAST (calls (a_rf a'))))
       \<and> (0x36 \<in> told \<longrightarrow> rf_state (a_rf a') = RF_STATE_IDLE \<or> \<not> RF_HasBond (a_rf a)
            \<or> \<not> RF_IdentityValid (a_rf a'))"
proof -
  have rf: "a_rf a' = a6_rf bd sub a" using frame_fields [OF assms(1)] by (simp add: frame_rf_def)
  have drop: "rf_state (RF_DropQueueUnlessReselected (RF_Disconnect s)) = RF_STATE_IDLE" for s :: "'a rf_t"
    using disconnect_idle(1) [of s] by (simp add: RF_DropQueueUnlessReselected_def rf_call_defs)
  have sel: "keyboard_mac_valid (fst (RF_Select2G4 s)) = keyboard_mac_valid s" for s :: "'a rf_t"
    by (simp add: RF_Select2G4_def rf_rest_defs Let_def)
  have ent: "fst (RF_EnterPairing s) = s" if "rf_state s = RF_STATE_CONNECTED" for s :: "'a rf_t"
    using that by (simp add: RF_EnterPairing_def)
  have sent: "sub \<noteq> 0x71 \<longrightarrow> frames_sent bd frames (a_kbd a) = Some (a_kbd a')"
    "sub = 0x71 \<longrightarrow> (\<exists>d tx. DiagDump_Send (UART_FIFO_SIZE bd) (FREQ_RTC bd)
          (rf_state_byte (RF_GetState (a_rf a))) (pwr_diag (a_pwr a)) (k_tx (a_kbd a)) = Some (d, tx)
        \<and> a_kbd a' = (a_kbd a)\<lparr>k_tx := tx\<rparr>)"
    "KBD_HOST_WAKE bd \<and> hw_wf (host_wake (a_kbd a)) \<longrightarrow>
        hw_queue (host_wake (a_kbd a')) = take 8 (hw_queue (host_wake (a_kbd a)) @ frames)"
    using frame_kbd [OF assms(1)] frame_queue [OF assms(1)] by (simp_all add: frames_def)
  note facts = pairing_truth [of "a_rf a"] select_truth [of "a_rf a"]
    pairing_truth [of "RF_ClearBond (EEPROM bd) (RF_Disconnect (a_rf a))"] ent [of "a_rf a"]
  show ?thesis
  proof (intro conjI; (rule sent)?)
    show "0x31 \<in> told \<longrightarrow> rf_state (a_rf a') = RF_STATE_PAIRING \<and> pair_flavor (a_rf a') = PAIR_FLAVOR_FRESH
        \<and> armed RF_EVT_PAIR_BCAST (calls (a_rf a')) \<and> armed RF_EVT_PAIR_TIMEOUT (calls (a_rf a'))"
      using facts unfolding told_def rf
      by (auto simp: reply_defs clear_truth)
    show "0x32 \<in> told \<longrightarrow> rf_state (a_rf a') = RF_STATE_CONNECTED \<and> a_rf a' = a_rf a"
      using facts unfolding told_def rf
      by (auto simp: reply_defs)
    show "0x33 \<in> told \<longrightarrow> rf_state (a_rf a') = RF_STATE_IDLE \<and> \<not> has_bond (bond (a_rf a'))"
      unfolding told_def rf
      by (auto simp: reply_defs clear_truth)
    show "0x35 \<in> told \<longrightarrow> has_bond (bond (a_rf a'))
            \<and> (rf_state (a_rf a') = RF_STATE_CONNECTED
               \<or> rf_state (a_rf a') = RF_STATE_PAIRING \<and> pair_flavor (a_rf a') = PAIR_FLAVOR_BONDED
                 \<and> armed RF_EVT_PAIR_BCAST (calls (a_rf a')))"
      using facts unfolding told_def rf
      by (auto simp: reply_defs)
    show "0x36 \<in> told \<longrightarrow> rf_state (a_rf a') = RF_STATE_IDLE \<or> \<not> RF_HasBond (a_rf a)
            \<or> \<not> RF_IdentityValid (a_rf a')"
      unfolding told_def rf
      by (auto simp: reply_defs drop sel clear_truth)
  qed
qed

section \<open>The shallow idle\<close>

text \<open>The real waits of a log: the flash is switched off right before each.\<close>

definition waits :: "app_call list \<Rightarrow> nat" where
  "waits l = count_list l Flash_Off"

lemma idle_waits:
  "waits (a_calls (idle_step bd env a)) \<noteq> waits (a_calls a) \<Longrightarrow>
    idle_wanted bd a \<and> KeyboardUart_RxQuiet (UART1_IRQHandler False False (wfe_late env) (a_rx a))
    \<and> wfe_rfc env = 0 \<and> \<not> wfe_tmr3 env"
  by (auto simp: waits_def idle_step_def idle_arm_and_drain_def idle_sleep_once_def idle_disarm_def app_diag_def
      acall_def Let_def split: if_splits)

lemma hb_follow_wanted:
  "hb_fast (heartbeat_follow_rf_state bd a) = (rf_state (a_rf a) = RF_STATE_RESTING \<and> rest_stage (a_rf a) = 1)"
  by (simp add: heartbeat_follow_rf_state_def heartbeat_set_def acall_def Let_def RF_GetState_def RF_RestProbing_def)

lemma hb_follow_frame:
  "a_rf (heartbeat_follow_rf_state bd a) = a_rf a" "a_rx (heartbeat_follow_rf_state bd a) = a_rx a"
  "a_kbd (heartbeat_follow_rf_state bd a) = a_kbd a" "a_sleep (heartbeat_follow_rf_state bd a) = a_sleep a"
  "a_pwr (heartbeat_follow_rf_state bd a) = a_pwr a"
  "openboot_entry_pending (heartbeat_follow_rf_state bd a) = openboot_entry_pending a"
  by (simp_all add: heartbeat_follow_rf_state_def heartbeat_set_def acall_def Let_def)

lemma idle_period: "hb_period (a_calls (idle_step bd env a)) = hb_period (a_calls a)"
  by (simp add: idle_step_def idle_arm_and_drain_def idle_sleep_once_def idle_disarm_def app_diag_def acall_def Let_def)

text \<open>
  C11: The shallow idle never sleeps through work: at the end of a pass the core waits only in IDLE or RESTING
  with the radio off, no update and no deep sleep asked for or owed, nothing queued for the host, no
  byte received and unread (none that came during the checks, none in the FIFO) and the heartbeat not
  already due; and the heartbeat that bounds the wait then runs at 4 ms while probes are scheduled and
  at 200 ms otherwise.
\<close>

theorem idle_waits_safely:
  assumes "app_reach cfg bd a"
    and a1_def: "a1 = heartbeat_follow_rf_state bd a" and a2_def: "a2 = idle_step bd env a1"
    and woke: "waits (a_calls a2) \<noteq> waits (a_calls a1)"
  shows "(rf_state (a_rf a) = RF_STATE_IDLE \<or> rf_state (a_rf a) = RF_STATE_RESTING) \<and> radio_off (calls (a_rf a))
       \<and> \<not> openboot_entry_pending a \<and> \<not> sleep_pending (a_sleep a) \<and> \<not> pwr_explicit_request (a_pwr a)
       \<and> KeyboardUart_HostWakeIdle (KBD_HOST_WAKE bd) (a_kbd a)
       \<and> rx_items (a_rx a) = [] \<and> wfe_late env = [] \<and> wfe_rfc env = 0 \<and> \<not> wfe_tmr3 env
       \<and> hb_period (a_calls a2) =
           Some (if rf_state (a_rf a) = RF_STATE_RESTING \<and> rest_stage (a_rf a) = 1
                 then SYS_CLOCK bd div 250 else SYS_CLOCK bd div 5)"
proof -
  from idle_waits [OF woke [unfolded a2_def]]
  have w: "idle_wanted bd a1" "KeyboardUart_RxQuiet (UART1_IRQHandler False False (wfe_late env) (a_rx a1))"
    "wfe_rfc env = 0" "\<not> wfe_tmr3 env" by simp_all
  have rx: "a_rx a1 = a_rx a" by (simp add: a1_def hb_follow_frame)
  have q: "wfe_late env = [] \<and> KeyboardUart_RxQuiet (a_rx a)"
    using attempt_rx_quiet [OF rx_reach [OF assms(1)]] w(2) by (simp add: rx)
  have st: "rf_state (a_rf a) = RF_STATE_IDLE \<or> rf_state (a_rf a) = RF_STATE_RESTING"
    using w(1) by (auto simp: idle_wanted_def a1_def hb_follow_frame RF_GetState_def)
  then have off: "radio_off (calls (a_rf a))"
    by (intro reach_radio_off [OF assms(1)]) (auto simp: RF_CanDeepSleep_def)
  have "app_inv cfg bd a1" unfolding a1_def by (rule inv_heartbeat [OF inv_reach [OF assms(1)]])
  then have "hb_period (a_calls a2) = Some (if hb_fast a1 then SYS_CLOCK bd div 250 else SYS_CLOCK bd div 5)"
    by (simp add: app_inv_def a2_def idle_period)
  then show ?thesis
    using w(1,3,4) q st off
    by (simp add: a1_def hb_follow_wanted idle_wanted_def hb_follow_frame PowerSleep_SleepPending_def
        KeyboardUart_RxQuiet_def rx_items_empty)
qed

end
