(* ===== verification/Main_Sleep.thy ===== *)
theory Main_Sleep
  imports Main_Types Main_Props Host_Wake_World
begin

text \<open>
  How long a sleep request waits: the sleep service resolves it at the latest when its bound has passed, and
  that bound is long enough for everything the module may still have to say to a host that never answers.
\<close>

section \<open>Draining from any state\<close>

text \<open>
  After one step the guard and the outstanding frame are never overdue; a quarantine that a late step began
  may be, until the next step.
\<close>

definition on_time :: "bool \<Rightarrow> nat \<Rightarrow> u32 \<Rightarrow> u32 \<Rightarrow> nat \<Rightarrow> hw_spec \<Rightarrow> bool" where
  "on_time quarantine d G T t s \<longleftrightarrow>
     (let waited = unat (of_nat t - sp_since s) in
      case sp_phase s of
        P_Low \<Rightarrow> True
      | P_Guard \<Rightarrow> waited \<le> unat G
      | P_Out f sl c a \<Rightarrow> waited \<le> unat T
      | P_Quarantine \<Rightarrow> quarantine \<longrightarrow> waited \<le> 2 * unat T + d)"

lemma on_time_pick: "on_time q d G T t (fst (spec_pick (of_nat t) s))"
  by (cases rule: spec_pick_cases [of s "of_nat t"]) (simp_all add: on_time_def)

lemma on_time_first: "on_time False d G T t (fst (spec_step G T M (of_nat t) s))"
proof (cases rule: spec_step_cases [of s G T M "of_nat t"])
  case (pick s0)
  then show ?thesis by (simp add: on_time_pick)
qed (auto simp: on_time_def spec_waits_def Let_def word_less_nat_alt split: hw_phase.splits)

lemma on_time_second:
  assumes "on_time False d G T t s" and dt: "t \<le> t'" "t' \<le> t + d" and big: "2 * (unat T + d) < 2 ^ 32"
  shows "on_time True d G T t' (fst (spec_step G T M (of_nat t') s))"
proof (cases rule: spec_step_cases [of s G T M "of_nat t'"])
  case wait
  have "unat (2 * T) = 2 * unat T" using big by (simp add: unat_word_ariths)
  with wait show ?thesis
    by (auto simp: on_time_def spec_waits_def Let_def word_less_nat_alt split: hw_phase.splits)
next
  case (hold f sl c a)
  have "unat (of_nat t' - sp_since s) \<le> unat (of_nat t - sp_since s) + d"
  proof -
    have "(of_nat t' :: u32) - sp_since s = (of_nat t - sp_since s) + of_nat (t' - t)" using dt(1) by (simp add: of_nat_diff)
    moreover have "unat (x + y) \<le> unat x + unat y" for x y :: u32 by (simp add: unat_word_ariths)
    ultimately have "unat (of_nat t' - sp_since s) \<le> unat (of_nat t - sp_since s) + unat (of_nat (t' - t) :: u32)"
      by (simp only:)
    also have "unat (of_nat (t' - t) :: u32) \<le> t' - t" by (simp add: unat_of_nat)
    finally show ?thesis using dt by linarith
  qed
  with hold assms(1) show ?thesis by (auto simp: on_time_def Let_def)
next
  case (pick s0)
  then show ?thesis by (simp add: on_time_pick)
qed (auto simp: on_time_def Let_def)

lemma frames_le: "hw_wf hw \<Longrightarrow> sp_frames (hw_abs hw) \<le> 9"
  by (simp add: sp_frames_def hw_abs_def hw_wf_def hw_ring_wf_def)

text \<open>What is left of an outstanding frame costs no more than a whole one.\<close>

lemma out_cost: "1 \<le> c \<Longrightarrow> c \<le> m \<Longrightarrow> (m - c) * n + 2 * n \<le> m * n + (n :: nat)"
proof -
  assume c: "1 \<le> c" "c \<le> m"
  then have "(m - c) * n + 2 * n \<le> (m - 1) * n + 2 * n" by (intro add_mono mult_right_mono) simp_all
  also have "\<dots> = m * n + n" using c by (cases m) simp_all
  finally show ?thesis .
qed

lemma on_time_deadline:
  assumes wf: "hw_wf hw" and t: "2 ^ 32 \<le> t"
    and ot: "on_time True d (guard_ticks hw) (ack_timeout_ticks hw) t (hw_abs hw)"
  shows "sw_deadline d (guard_ticks hw) (ack_timeout_ticks hw) (max_attempts hw)
    (t + unat (guard_ticks hw) + 2 * d + 10 * frame_cost d (ack_timeout_ticks hw) (max_attempts hw)) t (hw_abs hw)"
proof -
  let ?s = "hw_abs hw" and ?C = "frame_cost d (ack_timeout_ticks hw) (max_attempts hw)"
  let ?T = "unat (ack_timeout_ticks hw) + d" and ?M = "unat (max_attempts hw)"
  define b where "b = t - unat (of_nat t - sp_since ?s)"
  have w: "unat (of_nat t - sp_since ?s) < 2 ^ 32" using unat_lt_u32 [of "of_nat t - sp_since ?s"] by simp
  then have b: "b \<le> t" "t - b = unat (of_nat t - sp_since ?s)" using t by (simp_all add: b_def)
  have since: "sp_since ?s = of_nat b" using w t by (simp add: b_def of_nat_diff)
  have f: "sp_frames ?s * ?C \<le> 9 * ?C" "(sp_frames ?s - k) * ?C \<le> 9 * ?C" for k
    using frames_le [OF wf] by (intro mult_right_mono; simp)+
  have C: "?C = ?M * ?T + ?T" by (simp add: frame_cost_def add_mult_distrib)
  have M: "1 \<le> ?M" using wf by (simp add: hw_wf_def word_le_nat_alt)
  then have T: "?T \<le> ?M * ?T" by simp
  have ph: "hw_phase_wf hw" using wf by (simp add: hw_wf_def)
  show ?thesis
  proof (cases "hw_state hw")
    case HOST_WAKE_STATE_IDLE
    then have "sp_phase ?s = P_Low" by (simp add: hw_abs_def)
    with frames_le [OF wf] show ?thesis by (simp add: sw_deadline_def)
  next
    case HOST_WAKE_STATE_GUARD
    then have p: "sp_phase ?s = P_Guard" "spec_pending ?s" using ph by (simp add: hw_abs_def, simp add: hw_phase_wf_def)
    then have "t \<le> b + unat (guard_ticks hw)" using ot b by (simp add: on_time_def Let_def)
    with b f(1) show ?thesis
      unfolding sw_deadline_def p(1) hw_phase.case by (intro conjI exI [of _ b] p(2) since b(1)) linarith+
  next
    case HOST_WAKE_STATE_WAIT_ACK
    then obtain fr sl c a where p: "sp_phase ?s = P_Out fr sl c a" and c: "c = unat (hw_attempts hw)" "sl = sending_latest hw"
      by (simp add: hw_abs_def)
    have wfp: "1 \<le> hw_attempts hw \<and> hw_attempts hw \<le> max_attempts hw \<and> (\<not> sending_latest hw \<longrightarrow> hw_count hw \<noteq> 0)"
      using ph HOST_WAKE_STATE_WAIT_ACK by (simp add: hw_phase_wf_def)
    then have c': "1 \<le> c" "c \<le> ?M" by (simp_all add: c word_le_nat_alt)
    have q: "sl \<or> sp_queue ?s \<noteq> []"
      using wfp by (auto simp: c hw_abs_def hw_queue_Nil_iff)
    have "(?M - c) * ?T + 2 * ?T \<le> ?C" unfolding C by (rule out_cost [OF c'])
    moreover have "t \<le> b + unat (ack_timeout_ticks hw)" using ot p b by (simp add: on_time_def Let_def)
    ultimately show ?thesis
      using b f(2) [of "if sl then 0 else 1"] unfolding sw_deadline_def p hw_phase.case
      by (intro conjI exI [of _ b] c' q since b(1)) linarith+
  next
    case HOST_WAKE_STATE_QUARANTINE
    then have p: "sp_phase ?s = P_Quarantine" by (simp add: hw_abs_def)
    then have "t \<le> b + 2 * unat (ack_timeout_ticks hw) + d" using ot b by (simp add: on_time_def Let_def)
    moreover have "x \<le> y \<Longrightarrow> 2 * x \<le> y + x" for x y :: nat by simp
    then have "2 * ?T \<le> ?C" unfolding C using T by blast
    ultimately show ?thesis
      using b f(1) unfolding sw_deadline_def p hw_phase.case by (intro conjI exI [of _ b] since b(1)) linarith+
  qed
qed

text \<open>Draining from any well-formed state, however late the machine was when the rounds begin.\<close>

lemma of_nat_wrap: "(of_nat (u + 2 ^ 32) :: u32) = of_nat u"
proof -
  have "(of_nat (2 ^ 32) :: u32) = 0" unfolding word_of_nat_eq_0_iff by simp
  then show ?thesis by (simp only: of_nat_add add_0_right)
qed

lemma rounds_shift: "hw_rounds rs (t + 2 ^ 32) hw = hw_rounds rs t hw"
proof (induction rs arbitrary: t hw)
  case (Cons r rs)
  have "t + 2 ^ 32 + dt = t + dt + 2 ^ 32" for dt :: nat by simp
  then show ?case by (cases r) (simp only: hw_rounds.simps Cons.IH of_nat_wrap)
qed simp

text \<open>One round, on the abstract machine.\<close>

definition hw_round :: "bool \<Rightarrow> nat \<Rightarrow> host_wake_t \<Rightarrow> host_wake_t" where
  "hw_round ack t hw = fst (HostWake_Step (of_nat t) (if ack then HostWake_OnAck hw else hw))"

lemma hw_rounds_round: "hw_rounds ((ack, dt) # rs) t hw = hw_rounds rs (t + dt) (hw_round ack (t + dt) hw)"
  by (simp add: hw_round_def)

lemma ack_on_time: "on_time q d G T t (hw_abs (HostWake_OnAck hw)) = on_time q d G T t (hw_abs hw)"
  by (simp add: on_time_def HostWake_OnAck_def hw_abs_def Let_def split: host_wake_state.split)

lemma round_wf: "hw_wf hw \<Longrightarrow> hw_wf (hw_round ack t hw)"
  by (simp add: hw_round_def hw_wf_step hw_wf_ack)

lemma round_config:
  "guard_ticks (hw_round ack t hw) = guard_ticks hw" "ack_timeout_ticks (hw_round ack t hw) = ack_timeout_ticks hw"
  "max_attempts (hw_round ack t hw) = max_attempts hw"
  using hw_apply_config [of Ack hw] hw_apply_config [of "Step (of_nat t)" "if ack then HostWake_OnAck hw else hw"]
  by (simp_all add: hw_round_def)

lemma round_abs:
  assumes "hw_wf hw"
  shows "hw_abs (hw_round ack t hw) = fst (spec_step (guard_ticks hw) (ack_timeout_ticks hw) (max_attempts hw) (of_nat t)
    (hw_abs (if ack then HostWake_OnAck hw else hw)))"
proof -
  have "hw_wf (if ack then HostWake_OnAck hw else hw)" using assms by (simp add: hw_wf_ack)
  from abs_step [OF this, of "of_nat t"] show ?thesis
    using hw_apply_config [of Ack hw] by (simp add: hw_round_def split: if_splits)
qed

lemma drains_from_anywhere:
  assumes wf: "hw_wf hw" and gaps: "\<forall>r \<in> set rs. snd r \<le> d"
    and big: "unat (guard_ticks hw) + d < 2 ^ 32" "2 * (unat (ack_timeout_ticks hw) + d) < 2 ^ 32"
    and long: "unat (guard_ticks hw) + 4 * d
         + 10 * ((unat (max_attempts hw) + 1) * (unat (ack_timeout_ticks hw) + d)) < sum_list (map snd rs)"
  shows "HostWake_Idle (hw_rounds rs t hw)"
proof -
  let ?G = "guard_ticks hw" and ?T = "ack_timeout_ticks hw" and ?M = "max_attempts hw"
  have rs0: "rs \<noteq> []" using long by auto
  then obtain r1 rs1 where r1: "rs = r1 # rs1" by (cases rs) auto
  then have "rs1 \<noteq> []" using long gaps by auto
  then obtain r2 rs2 where rs: "rs = r1 # r2 # rs2" using r1 by (cases rs1) auto
  define t1 t2 where "t1 = t + 2 ^ 32 + snd r1" and "t2 = t1 + snd r2"
  define h1 h2 where "h1 = hw_round (fst r1) t1 hw" and "h2 = hw_round (fst r2) t2 h1"
  have run: "hw_rounds rs t hw = hw_rounds rs2 t2 h2"
    using hw_rounds_round [of "fst r1" "snd r1" "r2 # rs2" "t + 2 ^ 32" hw] hw_rounds_round [of "fst r2" "snd r2" rs2 t1 h1]
    by (simp only: rs rounds_shift [of _ t hw, symmetric] t1_def t2_def h1_def h2_def prod.collapse)
  have wf1: "hw_wf h1" and wf2: "hw_wf h2" using wf by (simp_all add: h1_def h2_def round_wf)
  have c1: "guard_ticks h1 = ?G" "ack_timeout_ticks h1 = ?T" "max_attempts h1 = ?M"
    and c2: "guard_ticks h2 = ?G" "ack_timeout_ticks h2 = ?T" "max_attempts h2 = ?M"
    by (simp_all add: h1_def h2_def round_config)
  have "on_time False d ?G ?T t1 (hw_abs h1)"
    by (simp only: h1_def round_abs [OF wf] on_time_first)
  then have "on_time False d ?G ?T t1 (hw_abs (if fst r2 then HostWake_OnAck h1 else h1))" by (simp add: ack_on_time)
  moreover have "t1 \<le> t2" "t2 \<le> t1 + d" using gaps by (simp_all add: t2_def rs)
  ultimately have "on_time True d ?G ?T t2 (hw_abs h2)"
    unfolding h2_def round_abs [OF wf1] c1 by (rule on_time_second [OF _ _ _ big(2)])
  then have "sw_deadline d ?G ?T ?M (t2 + unat ?G + 2 * d + 10 * frame_cost d ?T ?M) t2 (hw_abs h2)"
    using on_time_deadline [OF wf2, of t2 d] by (simp add: c2 t2_def t1_def)
  from hw_rounds_deadline [OF wf2, unfolded c2, OF this _ big] gaps
  have dl: "sw_deadline d ?G ?T ?M (t2 + unat ?G + 2 * d + 10 * frame_cost d ?T ?M)
      (t2 + sum_list (map snd rs2)) (hw_abs (hw_rounds rs2 t2 h2))" by (simp add: rs)
  have "snd r1 + snd r2 \<le> 2 * d" using gaps by (simp add: rs)
  then have "t2 + unat ?G + 2 * d + 10 * frame_cost d ?T ?M < t2 + sum_list (map snd rs2)"
    using long by (simp add: rs frame_cost_def)
  from deadline_over [OF dl this] show ?thesis
    by (cases "hw_state (hw_rounds rs2 t2 h2)") (auto simp: run HostWake_Idle_def, auto simp: hw_abs_def)
qed

section \<open>The sleep service\<close>

text \<open>Everything but the sleep service itself leaves its place alone.\<close>

definition service_frame :: "'f app \<Rightarrow> 'f app \<Rightarrow> bool" where
  "service_frame a b \<longleftrightarrow> ps_state b = ps_state a \<and> ps_start b = ps_start a"

lemma service_kept:
  assumes e: "app_exec bd op a = Some a'" and op: "\<forall>env. op \<noteq> Ps_Service env"
  shows "service_frame a a'"
proof (cases op)
  case (Link x)
  with e have "rf_step bd x a = Some a'" by simp
  from rf_step_fields [OF this] obtain r k where "a' = a\<lparr>a_rf := r, a_kbd := k\<rparr>" by blast
  then show ?thesis by (simp add: service_frame_def)
next
  case (Uart_Poll rtc)
  have "frame_client bd False (service_frame a)"
    by unfold_locales (auto simp: service_frame_def dest!: frame_fields)
  from frame_client.uart_poll_keeps [OF this, of a rtc a'] e Uart_Poll
  obtain b where b: "service_frame a b" "a' = b\<lparr>a_rx := a_rx a'\<rparr>" by (auto simp: service_frame_def)
  have "service_frame a (b\<lparr>a_rx := a_rx a'\<rparr>)" using b(1) by (simp add: service_frame_def)
  with b(2) show ?thesis by simp
next
  case (Uart_Service raw)
  with e show ?thesis by (auto simp: uart_service_def service_frame_def case_prod_beta split: if_splits)
qed (use e op in \<open>auto simp: service_frame_def tmos_idle_def led_lost_step_def OpenBoot_Service_def enter_openboot_def
    loop_end_def app_diag_def acall_def heartbeat_follow_rf_state_def heartbeat_set_def TMR3_IRQHandler_def idle_step_def
    idle_arm_and_drain_def idle_sleep_once_def idle_disarm_def case_prod_beta Let_def\<close>)

text \<open>A run through which the service keeps waiting.\<close>

fun keeps_waiting :: "'f board \<Rightarrow> app_op list \<Rightarrow> 'f app \<Rightarrow> bool" where
  "keeps_waiting bd [] a = (ps_state a \<noteq> 0)"
| "keeps_waiting bd (op # ops) a =
     (ps_state a \<noteq> 0 \<and> (case app_exec bd op a of None \<Rightarrow> False | Some b \<Rightarrow> keeps_waiting bd ops b))"

lemma waiting_start:
  "keeps_waiting bd ops a \<Longrightarrow> app_run bd ops a = Some b \<Longrightarrow> ps_start b = ps_start a \<and> ps_state b \<noteq> 0"
proof (induction ops arbitrary: a)
  case (Cons op ops)
  then obtain c where c: "app_exec bd op a = Some c" "app_run bd ops c = Some b" "keeps_waiting bd ops c" "ps_state a \<noteq> 0"
    by (auto simp: bind_eq_Some_conv split: if_splits)
  have "ps_start c = ps_start a"
  proof (cases "\<exists>env. op = Ps_Service env")
    case True
    with c(1,4) show ?thesis by (auto simp: Power_Service_def case_prod_beta Let_def)
  next
    case False
    with service_kept [OF c(1)] show ?thesis by (simp add: service_frame_def)
  qed
  with Cons.IH [OF c(3,2)] show ?case by simp
qed simp

definition sleep_bound :: "'f board \<Rightarrow> u32" where
  "sleep_bound bd = ticks_us bd (20000 + KBD_HOST_WAKE_BACKLOG_MAX_US (KBD_HOST_WAKE bd))"

text \<open>
  C4: A sleep request is resolved in bounded time: from the service call that begins to wait for the host
  frames to go out, whatever happens in between, the first later call that finds everything sent and
  acknowledged, or the bound passed on the module's clock, ends the wait.  The explicit sleep is then
  armed exactly when everything was sent and the host has neither withdrawn the request nor asked for an
  update, and with it the link is stopped; otherwise it is dropped and nothing else changes.
\<close>

theorem sleep_request_resolved:
  assumes "sleep_pending (a_sleep a)" and "\<not> openboot_entry_pending a" and "ps_state a = 0"
    and "app_run bd ops (Power_Service bd env0 a) = Some b" and "keeps_waiting bd ops (Power_Service bd env0 a)"
    and "KeyboardUart_TxIdle (KBD_HOST_WAKE bd) (svc_tfc env) (svc_all_emp env) (a_kbd b)
       \<or> sleep_bound bd \<le> snd (clock_now bd (svc_raw env) b) - snd (clock_now bd (svc_raw env0) a)"
  defines "b' \<equiv> Power_Service bd env b"
    and "arms \<equiv> sleep_pending (a_sleep b) \<and> \<not> openboot_entry_pending b
           \<and> KeyboardUart_TxIdle (KBD_HOST_WAKE bd) (svc_tfc env) (svc_all_emp env) (a_kbd b)"
  shows "ps_state b' = 0 \<and> \<not> sleep_pending (a_sleep b')
       \<and> (arms \<longrightarrow> pwr_explicit_request (a_pwr b') \<and> rf_state (a_rf b') = RF_STATE_IDLE \<and> radio_off (calls (a_rf b')))
       \<and> (\<not> arms \<longrightarrow> a_pwr b' = a_pwr b \<and> a_rf b' = a_rf b)"
proof -
  have "ps_start (Power_Service bd env0 a) = snd (clock_now bd (svc_raw env0) a)"
    using assms(1-3) by (simp add: Power_Service_def case_prod_beta Let_def)
  with waiting_start [OF assms(5,4)]
  have st: "ps_start b = snd (clock_now bd (svc_raw env0) a)" "ps_state b \<noteq> 0" by simp_all
  have "radio_off (calls (RF_Disconnect s))" for s :: "'a rf_t"
    by (simp add: RF_Disconnect_def rest_cancel_def rf_call_defs Let_def)
  then show ?thesis
    using st assms(6)
    by (auto simp: b'_def arms_def Power_Service_def sleep_bound_def PowerSleep_RequestExplicit_def disconnect_idle
        case_prod_beta Let_def not_less)
qed

text \<open>
  C10: The bound is long enough: with the RTC at either rate of the SDK, whatever is queued for a host that
  never answers, and however late the machine was, passes of the main loop at most 20 ticks (0.6 ms)
  apart empty the queue, the LED slot and the wire, quarantines included, within the sleep service's
  bound, if nothing new is queued meanwhile: a dead host cannot make the service give up.
\<close>

theorem sleep_bound_covers_backlog:
  assumes "app_reach cfg bd a" and "cfg_typed cfg" and "KBD_HOST_WAKE bd" and "FREQ_RTC bd \<in> {32000, 32768}"
    and "\<forall>r \<in> set rs. snd r \<le> 20" and "unat (sleep_bound bd) \<le> sum_list (map snd rs)"
  shows "HostWake_Idle (hw_rounds rs t (host_wake (a_kbd a)))"
proof -
  let ?hw = "host_wake (a_kbd a)"
  have "app_typed bd a" by (rule typed_reach [OF assms(1,2)])
  then have wf: "hw_wf ?hw" and c: "hw_config (FREQ_RTC bd) ?hw"
    using assms(3) by (simp_all add: app_typed_def kbd_typed_def)
  note n = RTC_CLOCK_TICKS_US_def KBD_HOST_WAKE_GUARD_US_def KBD_HOST_WAKE_ACK_TIMEOUT_US_def KBD_HOST_WAKE_ATTEMPTS_def
  have k: "unat (guard_ticks ?hw) \<le> 34 \<and> unat (ack_timeout_ticks ?hw) \<le> 657 \<and> unat (max_attempts ?hw) = 3
    \<and> unat (guard_ticks ?hw) + 80 + 40 * (unat (ack_timeout_ticks ?hw) + 20) < unat (sleep_bound bd)"
  proof (cases "FREQ_RTC bd = 32000")
    case True
    then show ?thesis
      using c assms(3) by (simp add: hw_config_def sleep_bound_def ticks_us_def KBD_HOST_WAKE_BACKLOG_MAX_US_def
          KBD_HOST_WAKE_FRAME_MAX_US_def HOST_WAKE_QUEUE_SIZE_def n)
  next
    case False
    with assms(4) have "FREQ_RTC bd = 32768" by simp
    then show ?thesis
      using c assms(3) by (simp add: hw_config_def sleep_bound_def ticks_us_def KBD_HOST_WAKE_BACKLOG_MAX_US_def
          KBD_HOST_WAKE_FRAME_MAX_US_def HOST_WAKE_QUEUE_SIZE_def n)
  qed
  show ?thesis
    by (rule drains_from_anywhere [OF wf assms(5)]) (use k assms(6) in auto)
qed

end
