(* ===== verification/Board_Init.thy ===== *)
theory Board_Init
  imports Main_Loop
begin

text \<open>
  The bring-up of the board: \<open>main\<close> of \<^verbatim>\<open>firmware/src/main.c\<close> and the hardware half of \<open>KeyboardUart_Init\<close>
  of \<^verbatim>\<open>firmware/src/keyboard_uart.c\<close>.  Both are straight-line sequences of calls into the vendor SDK, so
  they are modelled as the sequence of these calls, in the order of the code and with its build switches;
  the state the program's own components set up on the way is that of \<open>main_init\<close>.  What the calls do to one
  pin (direction, pull-up, output latch) is read off the sequence, as the SDK documents them.
\<close>

section \<open>The calls\<close>

datatype pin_mode = GPIO_ModeIN_Floating | GPIO_ModeIN_PU | GPIO_ModeOut_PP_5mA

datatype boot_call =
    BOOT_PHASE u8
  | PWR_DCDCCfg bool
  | SetSysClock_PLL_60MHz
  | GPIOA_ModeCfg u32 pin_mode
  | GPIOB_ModeCfg u32 pin_mode
  | GPIOA_SetBits u32
  | GPIOB_SetBits u32
  | GPIOB_ResetBits u32
  | GPIOPinRemap_UART1 bool
  | UART1_DefInit
  | UART1_BaudRateCfg u32
  | UART1_CLR_RXFIFO
  | UART1_CLR_TXFIFO
  | UART1_ByteTrigCfg_1
  | UART1_INTCfg_Enable
  | PFIC_EnableIRQ_UART1
  | SetFrameCallback
  | SysTick_CTLR u32
  | SysTick_SR u32
  | PFIC_ClearPendingIRQ_SysTick
  | CH59x_BLEInit
  | HAL_Init
  | PWR_PeriphClkCfg_Disable u16
  | RF_RoleInit

text \<open>The names of pins and clocks are the SDK's (\<open>bTXD1_alt\<close> and \<open>bRXD1_alt\<close> are its \<^verbatim>\<open>bTXD1_\<close> and \<^verbatim>\<open>bRXD1_\<close>).\<close>

record pin_map =
  GPIO_Pin_All :: u32
  bTXD1 :: u32
  bRXD1 :: u32
  bTXD1_alt :: u32
  bRXD1_alt :: u32

datatype slp_clk = TMR0 | TMR1 | TMR2 | TMR3 | UART0 | UART1 | UART2 | UART3 | SPI0 | PWMX | USB | I2C | LCD | BLE

text \<open>The build switches and the SDK's constants: \<open>BIT_SLP_CLK\<close> is the bit of a clock in the register, for I2C and
  LCD that of the register's second byte, which the code shifts there.\<close>

record boot_cfg =
  KBD_UART1_REMAP :: bool
  KBD_DCDC_ENABLE :: bool
  PINS :: pin_map
  BIT_SLP_CLK :: "slp_clk \<Rightarrow> u16"

definition KBD_CHWAKE_PIN :: "pin_map \<Rightarrow> u32" where
  "KBD_CHWAKE_PIN p = bTXD1_alt p"

definition KeyboardUart_Init_hw :: "boot_cfg \<Rightarrow> bool \<Rightarrow> boot_call list" where
  "KeyboardUart_Init_hw cfg hwk =
     (let p = PINS cfg in
      (if KBD_UART1_REMAP cfg then
         [GPIOPinRemap_UART1 True,
          GPIOB_SetBits (bTXD1_alt p),
          GPIOB_ModeCfg (bTXD1_alt p) GPIO_ModeOut_PP_5mA,
          GPIOB_ModeCfg (bRXD1_alt p) GPIO_ModeIN_PU]
       else
         (if hwk then
            [GPIOB_ResetBits (KBD_CHWAKE_PIN p),
             GPIOB_ModeCfg (KBD_CHWAKE_PIN p) GPIO_ModeOut_PP_5mA]
          else [GPIOB_ModeCfg (bTXD1_alt p) GPIO_ModeIN_Floating]) @
         [GPIOA_SetBits (bTXD1 p),
          GPIOA_ModeCfg (bTXD1 p) GPIO_ModeOut_PP_5mA,
          GPIOA_ModeCfg (bRXD1 p) GPIO_ModeIN_PU,
          GPIOPinRemap_UART1 False]) @
      [UART1_DefInit,
       UART1_BaudRateCfg 115200,
       UART1_CLR_RXFIFO,
       UART1_CLR_TXFIFO,
       UART1_ByteTrigCfg_1,
       UART1_INTCfg_Enable,
       PFIC_EnableIRQ_UART1])"

definition gated_clocks :: "boot_cfg \<Rightarrow> u16" where
  "gated_clocks cfg =
     (let b = BIT_SLP_CLK cfg in
      b TMR1 OR b TMR2 OR b UART0 OR b UART2 OR b UART3 OR b SPI0 OR b PWMX OR b USB
        OR push_bit 8 (b I2C OR b LCD))"

definition main_hw :: "boot_cfg \<Rightarrow> bool \<Rightarrow> boot_call list" where
  "main_hw cfg hwk =
     (let p = PINS cfg in
      [BOOT_PHASE 0xA0] @
      (if KBD_DCDC_ENABLE cfg then [PWR_DCDCCfg True] else []) @
      [SetSysClock_PLL_60MHz,
       BOOT_PHASE 0xA1,
       GPIOA_ModeCfg (GPIO_Pin_All p) GPIO_ModeIN_PU,
       GPIOB_ModeCfg (GPIO_Pin_All p AND NOT (bTXD1_alt p)) GPIO_ModeIN_PU] @
      KeyboardUart_Init_hw cfg hwk @
      [SetFrameCallback,
       BOOT_PHASE 0xA2,
       SysTick_CTLR 0,
       SysTick_SR 0,
       PFIC_ClearPendingIRQ_SysTick,
       CH59x_BLEInit,
       BOOT_PHASE 0xA3,
       HAL_Init,
       BOOT_PHASE 0xA4,
       PWR_PeriphClkCfg_Disable (gated_clocks cfg),
       RF_RoleInit,
       BOOT_PHASE 0xA5])"

text \<open>\<open>main\<close> up to its loop: the setup, then the components, and the sentinel of the last phase.  The result is
  \<open>None\<close> where \<open>main_init\<close> is: the code stops there, and the sentinel keeps the phase it reached.\<close>

definition main_boot ::
  "boot_cfg \<Rightarrow> rf_config \<Rightarrow> 'f board \<Rightarrow> bool \<Rightarrow> u8 \<Rightarrow> 'f app \<Rightarrow> boot_call list \<times> 'f app option" where
  "main_boot bc cfg bd registered reset_status a =
     (let hw = main_hw bc (KBD_HOST_WAKE bd)
      in if \<not> registered then (hw, None)
         else (case main_init cfg bd registered reset_status a of
                 None \<Rightarrow> (hw @ [BOOT_PHASE 0xA6], None)
               | Some a \<Rightarrow> (hw @ [BOOT_PHASE 0xA6, BOOT_PHASE 0xA7], Some a)))"

section \<open>What the calls do to a pin\<close>

text \<open>A pin as the calls so far left it: the last mode it was given and the last value written to its output
  latch, \<open>None\<close> while the reset state stands.  A view holds pin \<open>i\<close> of port A, pin \<open>j\<close> of port B, and whether
  UART1 is on its remapped pins.\<close>

record pin_view =
  a_mode :: "pin_mode option"
  a_latch :: "bool option"
  b_mode :: "pin_mode option"
  b_latch :: "bool option"
  remapped :: "bool option"

fun pin_step :: "nat \<Rightarrow> nat \<Rightarrow> boot_call \<Rightarrow> pin_view \<Rightarrow> pin_view" where
  "pin_step i j (GPIOA_ModeCfg m md) v = (if bit m i then v\<lparr>a_mode := Some md\<rparr> else v)"
| "pin_step i j (GPIOB_ModeCfg m md) v = (if bit m j then v\<lparr>b_mode := Some md\<rparr> else v)"
| "pin_step i j (GPIOA_SetBits m) v = (if bit m i then v\<lparr>a_latch := Some True\<rparr> else v)"
| "pin_step i j (GPIOB_SetBits m) v = (if bit m j then v\<lparr>b_latch := Some True\<rparr> else v)"
| "pin_step i j (GPIOB_ResetBits m) v = (if bit m j then v\<lparr>b_latch := Some False\<rparr> else v)"
| "pin_step i j (GPIOPinRemap_UART1 on) v = v\<lparr>remapped := Some on\<rparr>"
| "pin_step i j _ v = v"

definition pin_reset :: pin_view where
  "pin_reset = \<lparr>a_mode = None, a_latch = None, b_mode = None, b_latch = None, remapped = None\<rparr>"

definition pins_after :: "nat \<Rightarrow> nat \<Rightarrow> boot_call list \<Rightarrow> pin_view" where
  "pins_after i j cs = fold (pin_step i j) cs pin_reset"

text \<open>A condition that holds at every moment of a sequence of calls.\<close>

fun stays :: "(pin_view \<Rightarrow> bool) \<Rightarrow> nat \<Rightarrow> nat \<Rightarrow> boot_call list \<Rightarrow> pin_view \<Rightarrow> bool" where
  "stays P i j [] v = P v"
| "stays P i j (c # cs) v = (P v \<and> stays P i j cs (pin_step i j c v))"

lemma stays_append:
  "stays P i j (cs @ ds) v \<longleftrightarrow> stays P i j cs v \<and> stays P i j ds (fold (pin_step i j) cs v)"
  by (induction cs arbitrary: v) (auto, cases ds, auto)

lemma stays_take: "stays P i j cs v \<Longrightarrow> P (fold (pin_step i j) (take k cs) v)"
proof (induction cs arbitrary: v k)
  case (Cons c cs)
  then show ?case by (cases k) auto
qed simp

definition driven :: "bool \<Rightarrow> pin_mode option \<Rightarrow> bool option \<Rightarrow> bool" where
  "driven level mode latch \<longleftrightarrow> mode = Some GPIO_ModeOut_PP_5mA \<and> latch = Some level"

text \<open>What the SDK says of the masks: the pins of one port are different pins.\<close>

definition pin_map_ok :: "pin_map \<Rightarrow> bool" where
  "pin_map_ok p \<longleftrightarrow> bTXD1 p AND bRXD1 p = 0 \<and> bTXD1_alt p AND bRXD1_alt p = 0
     \<and> (bTXD1 p OR bRXD1 p OR bTXD1_alt p OR bRXD1_alt p) AND NOT (GPIO_Pin_All p) = 0"

lemma pin_bits:
  assumes "pin_map_ok p"
  shows "bit (bTXD1 p) i \<Longrightarrow> \<not> bit (bRXD1 p) i" and "bit (bTXD1_alt p) i \<Longrightarrow> \<not> bit (bRXD1_alt p) i"
    and "bit (bTXD1 p) i \<Longrightarrow> bit (GPIO_Pin_All p) i" and "bit (bRXD1 p) i \<Longrightarrow> bit (GPIO_Pin_All p) i"
    and "bit (bTXD1_alt p) i \<Longrightarrow> bit (GPIO_Pin_All p) i" and "bit (bRXD1_alt p) i \<Longrightarrow> bit (GPIO_Pin_All p) i"
proof -
  have z: "x AND y = 0 \<Longrightarrow> bit x i \<Longrightarrow> bit y i \<Longrightarrow> False" for x y :: u32
    by (metis bit_and_iff bit_0_eq bot_apply bot_bool_def)
  show "bit (bTXD1 p) i \<Longrightarrow> \<not> bit (bRXD1 p) i" "bit (bTXD1_alt p) i \<Longrightarrow> \<not> bit (bRXD1_alt p) i"
    using assms z by (auto simp: pin_map_ok_def)
  have c: "bit x i \<Longrightarrow> bit (GPIO_Pin_All p) i"
    if "(bTXD1 p OR bRXD1 p OR bTXD1_alt p OR bRXD1_alt p) AND NOT (GPIO_Pin_All p) = 0"
      and "x \<in> {bTXD1 p, bRXD1 p, bTXD1_alt p, bRXD1_alt p}" for x
  proof (rule ccontr)
    assume "bit x i" and n: "\<not> bit (GPIO_Pin_All p) i"
    moreover from \<open>bit x i\<close> have "i < 32" using bit_imp_le_length [of x i] by simp
    ultimately show False
      using that z [OF that(1)] by (auto simp: bit_simps)
  qed
  show "bit (bTXD1 p) i \<Longrightarrow> bit (GPIO_Pin_All p) i" "bit (bRXD1 p) i \<Longrightarrow> bit (GPIO_Pin_All p) i"
    "bit (bTXD1_alt p) i \<Longrightarrow> bit (GPIO_Pin_All p) i" "bit (bRXD1_alt p) i \<Longrightarrow> bit (GPIO_Pin_All p) i"
    using assms c by (auto simp: pin_map_ok_def)
qed

lemma bit_park: "j < 32 \<Longrightarrow> bit (x AND NOT y) j \<longleftrightarrow> bit x j \<and> \<not> bit y j" for x y :: u32
  by (auto simp: bit_simps)

lemmas hw_defs = main_hw_def KeyboardUart_Init_hw_def KBD_CHWAKE_PIN_def Let_def driven_def

text \<open>The pin the host reads as CHWAKE: never pulled up, driven only where host wake is built, and low then.\<close>

lemma chwake_quiet:
  assumes "pin_map_ok (PINS bc)" and "\<not> KBD_UART1_REMAP bc" and "bit (bTXD1_alt (PINS bc)) j"
  shows "stays (\<lambda>v. b_mode v \<noteq> Some GPIO_ModeIN_PU
      \<and> (b_mode v = Some GPIO_ModeOut_PP_5mA \<longrightarrow> hwk \<and> driven False (b_mode v) (b_latch v))) i j (main_hw bc hwk) pin_reset"
proof -
  have "j < 32" using bit_imp_le_length [OF assms(3)] by simp
  with assms pin_bits [OF assms(1), of j] show ?thesis
    by (cases hwk; cases "KBD_DCDC_ENABLE bc") (simp_all add: hw_defs pin_reset_def bit_park)
qed

text \<open>The pin that transmits: an output only once its latch is high, so the host sees no start bit.\<close>

lemma tx_idle_remap:
  assumes "pin_map_ok (PINS bc)" and "KBD_UART1_REMAP bc" and "bit (bTXD1_alt (PINS bc)) j"
  shows "stays (\<lambda>v. b_mode v = Some GPIO_ModeOut_PP_5mA \<longrightarrow> driven True (b_mode v) (b_latch v)) i j (main_hw bc hwk) pin_reset"
proof -
  have "j < 32" using bit_imp_le_length [OF assms(3)] by simp
  with assms pin_bits [OF assms(1), of j] show ?thesis
    by (cases "KBD_DCDC_ENABLE bc") (simp_all add: hw_defs pin_reset_def bit_park)
qed

lemma tx_idle_default:
  assumes "pin_map_ok (PINS bc)" and "\<not> KBD_UART1_REMAP bc" and "bit (bTXD1 (PINS bc)) i"
  shows "stays (\<lambda>v. (a_mode v = Some GPIO_ModeOut_PP_5mA \<or> remapped v = Some False)
      \<longrightarrow> driven True (a_mode v) (a_latch v)) i j (main_hw bc hwk) pin_reset"
  using assms pin_bits [OF assms(1), of i]
  by (cases hwk; cases "KBD_DCDC_ENABLE bc") (simp_all add: hw_defs pin_reset_def)

text \<open>Where the setup leaves every pin of the two ports.\<close>

definition final_a :: "boot_cfg \<Rightarrow> nat \<Rightarrow> pin_mode" where
  "final_a bc i =
     (if bit (bTXD1 (PINS bc)) i \<and> \<not> KBD_UART1_REMAP bc then GPIO_ModeOut_PP_5mA else GPIO_ModeIN_PU)"

definition final_b :: "boot_cfg \<Rightarrow> bool \<Rightarrow> nat \<Rightarrow> pin_mode" where
  "final_b bc hwk j =
     (if bit (bTXD1_alt (PINS bc)) j
      then (if KBD_UART1_REMAP bc \<or> hwk then GPIO_ModeOut_PP_5mA else GPIO_ModeIN_Floating) else GPIO_ModeIN_PU)"

lemma pins_final:
  assumes "pin_map_ok (PINS bc)" and "bit (GPIO_Pin_All (PINS bc)) i" and "bit (GPIO_Pin_All (PINS bc)) j"
  shows "a_mode (pins_after i j (main_hw bc hwk)) = Some (final_a bc i)"
    and "b_mode (pins_after i j (main_hw bc hwk)) = Some (final_b bc hwk j)"
    and "remapped (pins_after i j (main_hw bc hwk)) = Some (KBD_UART1_REMAP bc)"
proof -
  have j: "j < 32" using bit_imp_le_length [OF assms(3)] by simp
  note b = assms pin_bits [OF assms(1), of i] pin_bits [OF assms(1), of j] bit_park [OF j]
  note d = hw_defs pins_after_def pin_reset_def
  show "a_mode (pins_after i j (main_hw bc hwk)) = Some (final_a bc i)"
    using b by (cases hwk; cases "KBD_DCDC_ENABLE bc"; cases "KBD_UART1_REMAP bc") (simp_all add: d final_a_def)
  show "b_mode (pins_after i j (main_hw bc hwk)) = Some (final_b bc hwk j)"
    using b by (cases hwk; cases "KBD_DCDC_ENABLE bc"; cases "KBD_UART1_REMAP bc") (simp_all add: d final_b_def)
  show "remapped (pins_after i j (main_hw bc hwk)) = Some (KBD_UART1_REMAP bc)"
    by (cases hwk; cases "KBD_DCDC_ENABLE bc"; cases "KBD_UART1_REMAP bc") (simp_all add: d)
qed

text \<open>The two models of \<open>KeyboardUart_Init\<close> agree on CHWAKE: the level the transmit path starts from is the one
  the pin has.\<close>

lemma chwake_agrees:
  assumes "pin_map_ok (PINS bc)" and "\<not> KBD_UART1_REMAP bc" and "bit (bTXD1_alt (PINS bc)) j"
  shows "driven (chwake_level (KeyboardUart_Init True Q k))
           (b_mode (pins_after i j (main_hw bc True))) (b_latch (pins_after i j (main_hw bc True)))"
proof -
  have "j < 32" using bit_imp_le_length [OF assms(3)] by simp
  with assms pin_bits [OF assms(1), of j] show ?thesis
    by (cases "KBD_DCDC_ENABLE bc") (simp_all add: hw_defs pins_after_def pin_reset_def bit_park KeyboardUart_Init_def)
qed

text \<open>The program starts where \<open>main\<close> enters its loop: the state \<open>app_boot\<close> begins with is the one \<open>main_boot\<close> leaves.\<close>

lemma boot_from_main:
  "app_boot cfg bd reset_status d tx fl =
     Option.bind (snd (main_boot bc cfg bd True reset_status (app_bss d tx fl)))
       (\<lambda>a. if bit_posted RF_EVT_START (calls (a_rf a))
            then rf_step bd (Event RF_EVT_START \<lparr>cfg_status = 0, tx_status = 0, rtc_first = 0, rtc_second = 0\<rparr>) a
            else Some a)"
  by (simp add: app_boot_def main_boot_def Let_def split: option.split)

text \<open>The clocks that are stopped: none of a peripheral the firmware uses.\<close>

definition used_clock :: "slp_clk \<Rightarrow> bool" where
  "used_clock c \<longleftrightarrow> c \<in> {TMR0, TMR3, UART1, BLE}"

lemma gates_only_unused:
  assumes "\<forall>c d. c \<noteq> d \<longrightarrow> clk c AND clk d = 0" and "used_clock c"
    and "clk = (\<lambda>c. if c = I2C \<or> c = LCD then push_bit 8 (BIT_SLP_CLK bc c) else BIT_SLP_CLK bc c)"
  shows "gated_clocks bc AND clk c = 0"
proof -
  have d: "clk d AND clk c = 0" if "\<not> used_clock d" for d using assms(1,2) that by metis
  have g: "gated_clocks bc = clk TMR1 OR clk TMR2 OR clk UART0 OR clk UART2 OR clk UART3 OR clk SPI0 OR clk PWMX
      OR clk USB OR clk I2C OR clk LCD"
    by (simp add: gated_clocks_def assms(3) Let_def push_bit_or ac_simps)
  show ?thesis unfolding g by (simp add: bit.conj_disj_distrib2 d used_clock_def)
qed

section \<open>Properties\<close>

lemma boot_calls:
  "\<exists>ps. fst (main_boot bc cfg bd reg rs a) = main_hw bc (KBD_HOST_WAKE bd) @ ps \<and> (\<forall>c \<in> set ps. \<exists>n. c = BOOT_PHASE n)"
  by (auto simp: main_boot_def Let_def split: option.splits)

lemma phases_keep: "\<forall>c \<in> set ps. \<exists>n. c = BOOT_PHASE n \<Longrightarrow> fold (pin_step i j) ps v = v"
  by (induction ps arbitrary: v) auto

lemma stays_phases: "\<forall>c \<in> set ps. \<exists>n. c = BOOT_PHASE n \<Longrightarrow> P v \<Longrightarrow> stays P i j ps v"
  by (induction ps) auto

lemma stays_boot:
  assumes "stays P i j (main_hw bc (KBD_HOST_WAKE bd)) pin_reset"
  shows "P (pins_after i j (take k (fst (main_boot bc cfg bd reg rs a))))"
proof -
  obtain ps where ps: "fst (main_boot bc cfg bd reg rs a) = main_hw bc (KBD_HOST_WAKE bd) @ ps"
    "\<forall>c \<in> set ps. \<exists>n. c = BOOT_PHASE n"
    using boot_calls by blast
  have "P (fold (pin_step i j) (main_hw bc (KBD_HOST_WAKE bd)) pin_reset)"
    using stays_take [OF assms, of "length (main_hw bc (KBD_HOST_WAKE bd))"] by simp
  then have "stays P i j (fst (main_boot bc cfg bd reg rs a)) pin_reset"
    using assms ps by (simp add: stays_append stays_phases)
  then show ?thesis unfolding pins_after_def by (rule stays_take)
qed

lemma boot_final: "pins_after i j (fst (main_boot bc cfg bd reg rs a)) = pins_after i j (main_hw bc (KBD_HOST_WAKE bd))"
  using boot_calls [of bc cfg bd reg rs a] by (auto simp: pins_after_def phases_keep)

text \<open>
  C12: The board comes up without a glitch on the host's lines.  At every moment of \<open>main\<close>, reset to loop: the
  pin UART1 transmits on is an output only with its latch high, and the UART is not switched to its default
  pins before that; on the board where PB13 is the host's CHWAKE it is never pulled up, and driven only by a
  host-wake build, low.  At the end every pin of both ports is a pulled-up input, except those the UART and
  CHWAKE use, and an unused CHWAKE, which floats.
\<close>
theorem boot_pins_safe:
  fixes bd :: "'f board" and cfg :: rf_config and registered :: bool and reset_status :: u8 and a :: "'f app"
  assumes "pin_map_ok (PINS bc)" and "bit (bTXD1 (PINS bc)) i" and "bit (bTXD1_alt (PINS bc)) j"
  defines "did \<equiv> fst (main_boot bc cfg bd registered reset_status a)"
  shows "(let v = pins_after i j (take k did) in
            if KBD_UART1_REMAP bc then b_mode v = Some GPIO_ModeOut_PP_5mA \<longrightarrow> driven True (b_mode v) (b_latch v)
            else (a_mode v = Some GPIO_ModeOut_PP_5mA \<or> remapped v = Some False \<longrightarrow> driven True (a_mode v) (a_latch v))
               \<and> b_mode v \<noteq> Some GPIO_ModeIN_PU
               \<and> (b_mode v = Some GPIO_ModeOut_PP_5mA \<longrightarrow> KBD_HOST_WAKE bd \<and> driven False (b_mode v) (b_latch v)))
       \<and> (bit (GPIO_Pin_All (PINS bc)) m \<and> bit (GPIO_Pin_All (PINS bc)) n \<longrightarrow>
            a_mode (pins_after m n did) = Some (final_a bc m)
            \<and> b_mode (pins_after m n did) = Some (final_b bc (KBD_HOST_WAKE bd) n)
            \<and> remapped (pins_after m n did) = Some (KBD_UART1_REMAP bc))"
proof (cases "KBD_UART1_REMAP bc")
  case True
  note stays_boot [OF tx_idle_remap [OF assms(1) True assms(3)], where i = i and k = k and bd = bd and cfg = cfg and reg = registered and rs = reset_status and a = a]
  with True pins_final [OF assms(1), of m n "KBD_HOST_WAKE bd"] show ?thesis
    by (simp add: did_def boot_final)
next
  case False
  note stays_boot [OF tx_idle_default [OF assms(1) False assms(2)], where j = j and k = k and bd = bd and cfg = cfg and reg = registered and rs = reset_status and a = a]
    stays_boot [OF chwake_quiet [OF assms(1) False assms(3)], where i = i and k = k and bd = bd and cfg = cfg and reg = registered and rs = reset_status and a = a]
  with False pins_final [OF assms(1), of m n "KBD_HOST_WAKE bd"] show ?thesis
    by (simp add: did_def boot_final Let_def)
qed

end
