(* ===== verification/Main_Demos.thy ===== *)
theory Main_Demos
  imports Main_Sleep Board_Init
begin

text \<open>
  The properties of the composed program at work: concrete runs of a keyboard with a stored bond, from boot
  on.  Each run is evaluated once, with everything the witnesses need of it.
\<close>

section \<open>Boot\<close>

definition demo_board :: "u8 list board" where
  "demo_board = \<lparr>KBD_HOST_WAKE = True, UART_FIFO_SIZE = 8, FREQ_RTC = 32768, EEPROM = page_eeprom,
     PLATFORM = demo_platform, SYS_CLOCK = 60000000\<rparr>"

definition demo_tx :: uart_tx where
  "demo_tx = \<lparr>thr = [], tfc_reads = replicate 40 0, rtc_reads = []\<rparr>"

definition demo_svc :: svc_env where
  "demo_svc = \<lparr>svc_tfc = 0, svc_all_emp = True, svc_raw = 4000\<rparr>"

definition demo_wfe :: wfe_env where
  "demo_wfe = \<lparr>wfe_late = [], wfe_rfc = 0, wfe_tmr3 = False\<rparr>"

definition demo_rx :: "u32 \<Rightarrow> u8 list \<Rightarrow> app_op list" where
  "demo_rx t bs = [Uart_Irq False False bs, Uart_Poll (\<lambda>i. t)]"

definition demo_pass :: "app_op list \<Rightarrow> pass_env" where
  "demo_pass ops = \<lparr>pe_tmos = ops, pe_tick = demo_env 0, pe_rtc = (\<lambda>i. 100), pe_raw = 100, pe_ob = demo_svc,
     pe_ps = demo_svc, pe_wfe = demo_wfe\<rparr>"

definition demo_app :: "u8 list app" where
  "demo_app = the (app_boot demo_cfg demo_board 0 demo_diag demo_tx demo_page)"

lemma demo_board_fields: "EEPROM demo_board = page_eeprom" "KBD_HOST_WAKE demo_board"
  by (simp_all add: demo_board_def)

lemma demo_boot_run:
  "let r = app_boot demo_cfg demo_board 0 demo_diag demo_tx demo_page; a = the r;
       m = Main_Circulation demo_board (demo_pass (map Link demo_connect @ demo_rx 90 [0xA6, 0x52, 0xF8])) a
   in r \<noteq> None \<and> \<not> left_for_openboot a
      \<and> m \<noteq> None \<and> rf_state (a_rf (the m)) = RF_STATE_IDLE \<and> \<not> has_bond (bond (a_rf (the m)))
      \<and> handle_uart_frame demo_board 20 21 0xA6 0x63 None 0 a \<noteq> None
      \<and> handle_uart_frame demo_board 20 21 0xA6 0x53 None 0 a \<noteq> None
      \<and> host_replies True 0x63 a = [0x31, 0x23]
      \<and> hw_queue (host_wake (a_kbd a)) = [(0x5B, 0x34), (0x5B, 0x35)] \<and> hw_wf (host_wake (a_kbd a))"
  by code_simp

lemma demo_app_reach: "app_reach demo_cfg demo_board demo_app"
proof -
  have "app_boot demo_cfg demo_board 0 demo_diag demo_tx demo_page \<noteq> None"
    using demo_boot_run unfolding Let_def by blast
  then have "app_boot demo_cfg demo_board 0 demo_diag demo_tx demo_page = Some demo_app"
    by (auto simp: demo_app_def)
  then show ?thesis by (rule app_reach_boot)
qed

theorem main_loop_sound_witness:
  "let a = the (Main_Circulation demo_board (demo_pass (map Link demo_connect @ demo_rx 90 [0xA6, 0x52, 0xF8])) demo_app)
   in rf_reach demo_cfg page_eeprom (a_rf a) \<and> rf_state (a_rf a) = RF_STATE_IDLE \<and> \<not> has_bond (bond (a_rf a))"
proof -
  let ?pe = "demo_pass (map Link demo_connect @ demo_rx 90 [0xA6, 0x52, 0xF8])"
  let ?r = "Main_Circulation demo_board ?pe demo_app"
  have r: "?r \<noteq> None" "rf_state (a_rf (the ?r)) = RF_STATE_IDLE" "\<not> has_bond (bond (a_rf (the ?r)))"
    and l: "\<not> left_for_openboot demo_app"
    using demo_boot_run unfolding Let_def demo_app_def by blast+
  have "?r = Some (the ?r)" using r(1) by simp
  moreover have "\<forall>env. Ob_Service env \<notin> set (pe_tmos ?pe)" by (auto simp: demo_pass_def demo_rx_def)
  ultimately have "rf_reach demo_cfg (EEPROM demo_board) (a_rf (the ?r))"
    by (rule main_loop_sound [OF demo_app_reach l, THEN conjunct2])
  with r show ?thesis by (simp add: Let_def demo_board_fields)
qed

theorem replies_truthful_witness:
  "let a' = the (handle_uart_frame demo_board 20 21 0xA6 0x63 None 0 demo_app);
       b = the (handle_uart_frame demo_board 20 21 0xA6 0x53 None 0 demo_app)
   in hw_queue (host_wake (a_kbd a')) = [(0x5B, 0x34), (0x5B, 0x35), (0x5B, 0x31), (0x5B, 0x23)]
      \<and> rf_state (a_rf a') = RF_STATE_PAIRING \<and> pair_flavor (a_rf a') = PAIR_FLAVOR_FRESH
      \<and> hw_queue (host_wake (a_kbd b)) = [(0x5B, 0x34), (0x5B, 0x35), (0x5C, 100)]"
proof -
  let ?r = "handle_uart_frame demo_board 20 21 0xA6 0x63 None 0 demo_app"
  let ?b = "handle_uart_frame demo_board 20 21 0xA6 0x53 None 0 demo_app"
  have n: "?r \<noteq> None" "?b \<noteq> None" and h: "host_replies True 0x63 demo_app = [0x31, 0x23]"
    and q: "hw_queue (host_wake (a_kbd demo_app)) = [(0x5B, 0x34), (0x5B, 0x35)]"
      "hw_wf (host_wake (a_kbd demo_app))"
    using demo_boot_run unfolding Let_def demo_app_def by blast+
  have r: "?r = Some (the ?r)" "?b = Some (the ?b)" using n by simp_all
  from replies_truthful [OF r(1)] replies_truthful [OF r(2)] h q demo_board_fields(2) show ?thesis
    by (simp add: Let_def host_frames_def)
qed

section \<open>A host that negotiates, acknowledges the answers and asks the module to sleep\<close>

definition demo_acks :: "u32 \<Rightarrow> app_op list" where
  "demo_acks t =
     [Uart_Service t, Uart_Service (t + 100)] @ demo_rx (t + 150) [0x61, 0x0D, 0x0A] @ [Uart_Service (t + 200)]
       @ demo_rx (t + 250) [0x61, 0x0D, 0x0A] @ [Uart_Service (t + 300)]
       @ demo_rx (t + 350) [0x61, 0x0D, 0x0A] @ [Uart_Service (t + 400)]"

definition demo_ask :: "app_op list" where
  "demo_ask = demo_rx 1000 [0xA6, 0x56, 0xFC] @ demo_rx 1010 [0xA6, 0x54, 0xFA] @ demo_acks 1100
     @ [Ps_Service demo_svc, Ps_Service demo_svc]"

definition demo_requested :: "u8 list app" where
  "demo_requested = the (app_run demo_board demo_ask demo_app)"

lemma demo_requested_run:
  "let r = app_run demo_board demo_ask demo_app; a = the r
   in r \<noteq> None \<and> pwr_explicit_request (a_pwr a) \<and> app_ok (Tmos_Idle 9000 demo_idle) a
      \<and> sleeps (pwr_calls (a_pwr a)) = []
      \<and> sleeps (pwr_calls (a_pwr (tmos_idle demo_board 9000 demo_idle a))) = [Some 8955]
      \<and> handle_uart_frame demo_board 20 21 0xA6 0x30 None 0 a \<noteq> None"
  by code_simp

lemma demo_requested_reach: "app_reach demo_cfg demo_board demo_requested"
  unfolding demo_requested_def
  by (rule reach_some [OF demo_app_reach]) (use demo_requested_run in \<open>unfold Let_def, blast\<close>)

theorem program_sleeps_safely_witness:
  "let a' = tmos_idle demo_board 9000 demo_idle demo_requested
   in sleeps (pwr_calls (a_pwr a')) = [Some 8955] \<and> wakes_off (pwr_calls (a_pwr a'))
      \<and> radio_off (calls (a_rf demo_requested))"
proof -
  have ok: "app_ok (Tmos_Idle 9000 demo_idle) demo_requested"
    and s: "sleeps (pwr_calls (a_pwr (tmos_idle demo_board 9000 demo_idle demo_requested))) = [Some 8955]"
      "sleeps (pwr_calls (a_pwr demo_requested)) = []"
    using demo_requested_run unfolding Let_def demo_requested_def by blast+
  from program_sleeps_safely [OF demo_requested_reach ok] s show ?thesis by (simp add: Let_def)
qed

theorem explicit_sleep_ready_witness:
  "pwr_explicit_request (a_pwr demo_requested) \<and> radio_off (calls (a_rf demo_requested))"
proof -
  have "pwr_explicit_request (a_pwr demo_requested)"
    using demo_requested_run unfolding Let_def demo_requested_def by blast
  with explicit_sleep_ready [OF demo_requested_reach] show ?thesis by blast
qed

text \<open>The same host, with the service looking in before the answers have gone out.\<close>

definition demo_asking :: "u8 list app" where
  "demo_asking = the (app_run demo_board (demo_rx 1000 [0xA6, 0x56, 0xFC] @ demo_rx 1010 [0xA6, 0x54, 0xFA]) demo_app)"

lemma demo_asking_run:
  "let a = the (app_run demo_board (demo_rx 1000 [0xA6, 0x56, 0xFC] @ demo_rx 1010 [0xA6, 0x54, 0xFA]) demo_app);
       w = Power_Service demo_board demo_svc a; r = app_run demo_board (demo_acks 1100) w; b = the r
   in sleep_pending (a_sleep a) \<and> \<not> openboot_entry_pending a \<and> ps_state a = 0 \<and> r \<noteq> None
      \<and> keeps_waiting demo_board (demo_acks 1100) w
      \<and> KeyboardUart_TxIdle (KBD_HOST_WAKE demo_board) (svc_tfc demo_svc) (svc_all_emp demo_svc) (a_kbd b)
      \<and> sleep_pending (a_sleep b) \<and> \<not> openboot_entry_pending b"
  by code_simp

theorem sleep_request_resolved_witness:
  "let b = the (app_run demo_board (demo_acks 1100) (Power_Service demo_board demo_svc demo_asking));
       b' = Power_Service demo_board demo_svc b
   in pwr_explicit_request (a_pwr b') \<and> rf_state (a_rf b') = RF_STATE_IDLE \<and> ps_state b' = 0"
proof -
  let ?r = "app_run demo_board (demo_acks 1100) (Power_Service demo_board demo_svc demo_asking)"
  have f: "sleep_pending (a_sleep demo_asking)" "\<not> openboot_entry_pending demo_asking" "ps_state demo_asking = 0"
    and r: "?r \<noteq> None" and w: "keeps_waiting demo_board (demo_acks 1100) (Power_Service demo_board demo_svc demo_asking)"
    and t: "KeyboardUart_TxIdle (KBD_HOST_WAKE demo_board) (svc_tfc demo_svc) (svc_all_emp demo_svc) (a_kbd (the ?r))"
      "sleep_pending (a_sleep (the ?r))" "\<not> openboot_entry_pending (the ?r)"
    using demo_asking_run unfolding Let_def demo_asking_def by blast+
  have "?r = Some (the ?r)" using r by simp
  from sleep_request_resolved [OF f this w disjI1 [OF t(1)]] t show ?thesis by (simp add: Let_def)
qed

theorem sleep_bound_covers_backlog_witness:
  "HostWake_Idle (hw_rounds (replicate 1400 (False, 20)) 7 (host_wake (a_kbd demo_app)))"
proof -
  have "cfg_typed demo_cfg" "KBD_HOST_WAKE demo_board" "FREQ_RTC demo_board \<in> {32000, 32768}"
    and b: "unat (sleep_bound demo_board) = 27199" by code_simp+
  moreover have "unat (sleep_bound demo_board) \<le> sum_list (map snd (replicate 1400 (False, 20)))"
    unfolding b by (simp add: sum_list_replicate)
  ultimately show ?thesis by (intro sleep_bound_covers_backlog [OF demo_app_reach]) simp_all
qed

theorem last_command_wins_witness:
  "let a' = the (handle_uart_frame demo_board 20 21 0xA6 0x30 None 0 demo_requested)
   in pwr_explicit_request (a_pwr demo_requested) \<and> \<not> pwr_explicit_request (a_pwr a')
      \<and> pwr_holdoff_start (a_pwr a') = 21"
proof -
  let ?r = "handle_uart_frame demo_board 20 21 0xA6 0x30 None 0 demo_requested"
  have r: "?r \<noteq> None" "pwr_explicit_request (a_pwr demo_requested)"
    using demo_requested_run unfolding Let_def demo_requested_def by blast+
  then have "?r = Some (the ?r)" by simp
  from last_command_wins [OF this] r(2) show ?thesis by (simp add: Let_def SleepProtocol_IsStateChanging_def)
qed

section \<open>A keyboard that has just connected, and whose host asks for an update\<close>

definition demo_fresh :: "u8 list app" where
  "demo_fresh = the (app_run demo_board (map Link demo_connect @ demo_rx 1020 [0xA6, 0x81, 0x27]) demo_app)"

definition demo_late :: svc_env where
  "demo_late = \<lparr>svc_tfc = 8, svc_all_emp = False, svc_raw = 4800\<rparr>"

lemma demo_fresh_run:
  "let r = app_run demo_board (map Link demo_connect @ demo_rx 1020 [0xA6, 0x81, 0x27]) demo_app; f = the r;
       a = OpenBoot_Service demo_board demo_svc f; b = app_run demo_board [Uart_Service 4100] a
   in r \<noteq> None \<and> bond_save_pending (a_rf f) \<and> rf_state (a_rf f) = RF_STATE_CONNECTED
      \<and> stored_session_aa (bond (a_rf f)) = 0x12345678 \<and> has_bond (bond (a_rf f))
      \<and> length (stored_dongle_mac (bond (a_rf f))) = 6 \<and> openboot_entry_pending f \<and> ob_state f = 0
      \<and> app_ok (Ps_Service demo_svc) f \<and> rf_state (a_rf a) = RF_STATE_IDLE
      \<and> b \<noteq> None
      \<and> ticks_us demo_board 20000
         \<le> snd (clock_now demo_board (svc_raw demo_late) (the b)) - snd (clock_now demo_board (svc_raw demo_svc) f)"
  by code_simp

lemma demo_fresh_facts:
  "app_run demo_board (map Link demo_connect @ demo_rx 1020 [0xA6, 0x81, 0x27]) demo_app \<noteq> None"
  "bond_save_pending (a_rf demo_fresh)" "rf_state (a_rf demo_fresh) = RF_STATE_CONNECTED"
  "stored_session_aa (bond (a_rf demo_fresh)) = 0x12345678" "has_bond (bond (a_rf demo_fresh))"
  "length (stored_dongle_mac (bond (a_rf demo_fresh))) = 6" "openboot_entry_pending demo_fresh"
  "ob_state demo_fresh = 0" "app_ok (Ps_Service demo_svc) demo_fresh"
  "rf_state (a_rf (OpenBoot_Service demo_board demo_svc demo_fresh)) = RF_STATE_IDLE"
  using demo_fresh_run unfolding Let_def demo_fresh_def by blast+

lemma demo_fresh_reach: "app_reach demo_cfg demo_board demo_fresh"
  unfolding demo_fresh_def by (rule reach_some [OF demo_app_reach demo_fresh_facts(1)])

theorem program_typed_witness:
  "rf_typed (a_rf demo_fresh) \<and> hw_wf (host_wake (a_kbd demo_fresh)) \<and> ob_state demo_fresh \<le> 1"
proof -
  have "cfg_typed demo_cfg" by code_simp
  from program_typed [OF demo_fresh_reach this] show ?thesis by (simp add: demo_board_fields)
qed

theorem shutdown_keeps_bond_witness:
  "let a' = OpenBoot_Service demo_board demo_svc demo_fresh
   in bond_save_pending (a_rf demo_fresh) \<and> rf_state (a_rf a') = RF_STATE_IDLE
      \<and> rf_load_bond_from_flash page_eeprom (flash (a_rf a')) (bond (rf_bss ([] :: u8 list)))
         = (bond (a_rf demo_fresh), True)"
proof -
  let ?a = "OpenBoot_Service demo_board demo_svc demo_fresh"
  note s = demo_fresh_facts(2-6,10)
  then have ne: "a_rf ?a \<noteq> a_rf demo_fresh" by auto
  have ok: "eeprom_ok (EEPROM demo_board) (\<lambda>p. take 24 (p @ replicate 24 0))"
    unfolding demo_board_fields by (rule page_eeprom_ok)
  from shutdown_keeps_bond [OF disjI1 [OF refl] ne ok, of "bond (rf_bss ([] :: u8 list))"] s
  show ?thesis by (simp add: Let_def RF_DEFAULT_ACCESS_ADDR_def demo_board_fields)
qed

theorem update_wins_witness:
  "let a' = the (app_exec demo_board (Ps_Service demo_svc) demo_fresh)
   in openboot_entry_pending a' \<and> \<not> pwr_explicit_request (a_pwr a')"
proof -
  have "app_exec demo_board (Ps_Service demo_svc) demo_fresh = Some (Power_Service demo_board demo_svc demo_fresh)"
    by simp
  from update_wins [OF demo_fresh_reach demo_fresh_facts(7,9) this] show ?thesis by (simp add: Let_def)
qed

theorem update_reached_witness:
  "let a = OpenBoot_Service demo_board demo_svc demo_fresh; b = the (app_run demo_board [Uart_Service 4100] a)
   in left_for_openboot (OpenBoot_Service demo_board demo_late b)"
proof -
  let ?r = "app_run demo_board [Uart_Service 4100] (OpenBoot_Service demo_board demo_svc demo_fresh)"
  have r: "?r \<noteq> None"
    "ticks_us demo_board 20000 \<le> snd (clock_now demo_board (svc_raw demo_late) (the ?r))
       - snd (clock_now demo_board (svc_raw demo_svc) demo_fresh)"
    using demo_fresh_run unfolding Let_def demo_fresh_def by blast+
  then have "?r = Some (the ?r)" by simp
  from update_reached [OF demo_fresh_facts(7,8) this disjI2 [OF r(2)]] show ?thesis by (simp add: Let_def)
qed

section \<open>A keyboard that has gone to rest\<close>

definition demo_resting :: "u8 list app" where
  "demo_resting = the (app_run demo_board
     (map Link (demo_connect @ demo_rest) @ demo_acks 3000 @ demo_acks 3450) demo_app)"

lemma demo_resting_run:
  "let r = app_run demo_board (map Link (demo_connect @ demo_rest) @ demo_acks 3000 @ demo_acks 3450) demo_app;
       a = the r; h = heartbeat_follow_rf_state demo_board a
   in r \<noteq> None \<and> waits (a_calls (idle_step demo_board demo_wfe h)) \<noteq> waits (a_calls h)
      \<and> rf_state (a_rf a) = RF_STATE_RESTING \<and> rest_stage (a_rf a) = 1"
  by code_simp

theorem idle_waits_safely_witness:
  "let a = idle_step demo_board demo_wfe (heartbeat_follow_rf_state demo_board demo_resting)
   in rf_state (a_rf demo_resting) = RF_STATE_RESTING \<and> hb_period (a_calls a) = Some 240000"
proof -
  have r: "app_reach demo_cfg demo_board demo_resting"
    unfolding demo_resting_def
    by (rule reach_some [OF demo_app_reach]) (use demo_resting_run in \<open>unfold Let_def, blast\<close>)
  have w: "waits (a_calls (idle_step demo_board demo_wfe (heartbeat_follow_rf_state demo_board demo_resting)))
      \<noteq> waits (a_calls (heartbeat_follow_rf_state demo_board demo_resting))"
    and s: "rf_state (a_rf demo_resting) = RF_STATE_RESTING" "rest_stage (a_rf demo_resting) = 1"
    using demo_resting_run unfolding Let_def demo_resting_def by blast+
  have "SYS_CLOCK demo_board div 250 = 240000" by code_simp
  with idle_waits_safely [OF r refl refl w] s show ?thesis by (simp add: Let_def)
qed

section \<open>The pins\<close>

definition demo_boot_cfg :: boot_cfg where
  "demo_boot_cfg = \<lparr>KBD_UART1_REMAP = False, KBD_DCDC_ENABLE = True,
     PINS = \<lparr>GPIO_Pin_All = 0xFFFFFFFF, bTXD1 = 0x200, bRXD1 = 0x100, bTXD1_alt = 0x2000, bRXD1_alt = 0x1000\<rparr>,
     BIT_SLP_CLK = (\<lambda>c. 0)\<rparr>"

lemma demo_boot_pins:
  "pin_map_ok (PINS demo_boot_cfg)" "bit (bTXD1 (PINS demo_boot_cfg)) 9" "bit (bTXD1_alt (PINS demo_boot_cfg)) 13"
  "bit (GPIO_Pin_All (PINS demo_boot_cfg)) 3" "final_b demo_boot_cfg True 3 = GPIO_ModeIN_PU"
  by code_simp+

theorem boot_pins_safe_witness:
  "b_mode (pins_after 9 13 (take 7 (fst (main_boot demo_boot_cfg demo_cfg demo_board True 0
      (app_bss demo_diag demo_tx demo_page))))) \<noteq> Some GPIO_ModeIN_PU
   \<and> b_mode (pins_after 3 3 (fst (main_boot demo_boot_cfg demo_cfg demo_board True 0
      (app_bss demo_diag demo_tx demo_page)))) = Some GPIO_ModeIN_PU"
proof -
  have r: "\<not> KBD_UART1_REMAP demo_boot_cfg" by (simp add: demo_boot_cfg_def)
  show ?thesis
    using boot_pins_safe [OF demo_boot_pins(1-3), of 7 demo_cfg demo_board True 0 "app_bss demo_diag demo_tx demo_page" 3 3]
      r demo_boot_pins(4,5) demo_board_fields(2)
    by (simp add: Let_def)
qed

end
