(* ===== verification/Spec2Isabelle.thy ===== *)
theory Spec2Isabelle
  imports Rtc_Time Host_Wake_World Sleep_Protocol Uart_Polled Keyboard_Uart Diag_Frame Rf_Counters Rf_Reports Main_Demos
begin

text \<open>
  A verification library of the firmware of the OpenController keyboard module, a CH592 that sits between a
  keyboard's controller (the host, on a UART) and a 2.4 GHz dongle.  All paths are below \<^verbatim>\<open>firmware/src/\<close>.

  \<^bold>\<open>The program.\<close>  The host sends frames over the UART: reports of the keys (A1), commands (A6), its name (A9) and
  acknowledgements (61).  The interrupt puts the bytes in a ring, the poll of the main loop parses them, and
  the frame callback of \<^verbatim>\<open>main.c\<close> acknowledges and dispatches them: reports to the link task of \<^verbatim>\<open>rf_task.c\<close>, commands
  to the link, to the sleep protocol, to the bootloader service.  The link task pairs with a dongle, follows its
  channel hop, answers its polls with the queued reports, rests when the keyboard is idle, and stores the bond.
  What the module says to the host is queued behind the CHWAKE line (\<^verbatim>\<open>host_wake.c\<close>) on boards whose host sleeps.
  The idle callback of the scheduler (\<^verbatim>\<open>power_sleep.c\<close>) puts the chip into deep sleep.

  \<^bold>\<open>Theories and code.\<close>
  \<^item> \<open>OC_Prelude\<close>: integer types, the collections of rewrite rules, facts on lists and words.  \<open>Bounded_Queue\<close>: the
    contract of the three bounded FIFOs as locales (\<open>bounded_queue\<close>, extended by what a full queue does:
    \<open>dropping_queue\<close>, \<open>coalescing_queue\<close>), interpreted in \<open>Host_Wake\<close>, \<open>Uart_Ring\<close> and \<open>Hid_Fifo\<close> on the code's own operations.
  \<^item> \<open>Rtc_Time\<close>: \<^verbatim>\<open>rtc_clock.c\<close> and the counter helpers of the other files, on 32-bit words with the counter's modulus.
  \<^item> \<open>Host_Wake\<close>, \<open>Host_Wake_World\<close>: \<^verbatim>\<open>host_wake.c\<close>; an abstract machine over frame queues, the simulation, and the
    machine in time with an observer of line and wire.
  \<^item> \<open>Sleep_Protocol\<close>: \<^verbatim>\<open>sleep_protocol.c\<close>, the reducer of the sleep commands.
  \<^item> \<open>Uart_Parser\<close>, \<open>Uart_Ring\<close>, \<open>Uart_Polled\<close>, \<open>Keyboard_Uart\<close>: \<^verbatim>\<open>keyboard_uart.c\<close>: parser with its resynchronisation, ring
    and interrupt, the polled build, the bounded sends and the CHWAKE queue in front of them.
  \<^item> \<open>Diag_Frame\<close>: \<^verbatim>\<open>diag_frame.c\<close>, \<^verbatim>\<open>diag_dump.c\<close>.
  \<^item> \<open>Le_Bytes\<close>, \<open>Bond\<close>, \<open>Hid_Fifo\<close>, \<open>Rf_Hop\<close>: the bond record in flash, the report ring and the hop of \<^verbatim>\<open>rf_task.c\<close>.
    \<open>Rf_Task\<close>: its static variables as the record \<open>rf_t\<close> and every handler, event, callback and call of the main loop.
    \<open>Rf_World\<close>, \<open>Rf_Reach\<close>, \<open>Rf_Radio\<close>, \<open>Rf_Reports\<close>, \<open>Rf_Types\<close>: the task in its environment, the states it reaches, and
    their invariants.  \<open>Rf_Diag\<close>, \<open>Rf_Counters\<close>: the counters and the trace the task leaves for a debugger and the dump.
  \<^item> \<open>Power_Sleep\<close>: \<^verbatim>\<open>power_sleep.c\<close>.  \<open>Main_Loop\<close>: \<^verbatim>\<open>main.c\<close>, with the whole program as the record \<open>app\<close>.  \<open>Board_Init\<close>: \<open>main\<close> up
    to its loop and the pins.  \<open>Main_Reach\<close>, \<open>Main_Types\<close>, \<open>Main_Props\<close>, \<open>Main_Sleep\<close>: what holds of the composed program in
    every reachable state.  The frame callback is entered through contracts (\<open>uart_client\<close>, \<open>frame_client\<close>, \<open>kbd_client\<close>),
    interpreted for each invariant the callback keeps.  \<open>Main_Demos\<close>: concrete runs from boot on.

  \<^bold>\<open>How the code is read.\<close>  A C struct or the statics of a file are a record; a flag that only holds 0 or 1 is a
  bool; every other integer is a word of its width.  A function takes and returns the state it changes.  What
  the hardware or the vendor's library answers (counter readings, register values, statuses) is an argument,
  collected in the records \<open>rf_env\<close>, \<open>svc_env\<close>, \<open>sleep_env\<close>, \<open>wfe_env\<close>; what the code tells them (radio calls, timer
  and register writes) is recorded in the state as a list of calls, newest first (\<open>calls\<close>, \<open>pwr_calls\<close>, \<open>a_calls\<close>;
  in \<open>Board_Init\<close> oldest first).  The flash is a value of the type \<open>'f\<close> behind the functions of \<open>eeprom\<close>, with the
  documented effect of erase, write and read as a named hypothesis, which \<open>page_eeprom\<close> meets.

  \<^bold>\<open>The build.\<close>  The shipped switches: \<open>KBD_REST\<close>, \<open>KBD_DEEP_SLEEP\<close>, \<open>KBD_IDLE_WFI\<close>, \<open>WATCHDOG_ENABLE\<close> and the UART dump on, the
  stock experiments at their defaults.  \<open>KBD_HOST_WAKE\<close>, the factory MAC, the UART remap and the DC-DC switch differ
  between boards and are fields of the board's configuration.

  \<^bold>\<open>What the environment may do.\<close>  TMOS delivers an event only if it was posted, or its timer started and not
  stopped since; the end of a silent probe (640 ticks after its start) comes before the cadence started with it
  (1616 ticks), which only a stall beyond the watchdog could swap, while a probe that a key woke re-arms its end and
  does meet the cadence; the start event is the first delivery after boot.  Interrupts
  and callbacks fall between any two steps; a handler is one step, except in \<open>Uart_Ring\<close>, where the phases of the
  poll are interleaved with the interrupt.  Nothing is assumed of the bytes of the host or the frames of the
  dongle beyond the lengths the library guarantees.

  \<^bold>\<open>Loops.\<close>  The parser, its resynchronisation, the counter reductions and the poll terminate and are total
  functions.  The wait of a send for room in the FIFO reads the FIFO level and the clock from a list; \<open>None\<close> is the
  end of that list while it still waits, and \<open>uart_send_bounded\<close> shows that readings that advance past the bound
  always suffice.  A pass of the main loop is \<open>None\<close> only when such a send is, or when the scheduler is given a
  delivery it may not make.

  \<^bold>\<open>What is shown.\<close>  For the program: a pass of the main loop stays within the reachable states and the link
  task within its own model; a deep sleep is entered only with the radio off, nothing pending and both wake
  sources armed; an update is reached in bounded time, a sleep request resolved within a bound that covers the
  whole backlog; the last command of the host wins; replies say what is the case; a bond is not lost by a
  shutdown; the idle wait is left in time.  For the link: supervision and rest never lose their timers, reports
  leave the queue only by an acknowledgement, a discard or coalescing, a response goes out on its poll's channel,
  a closed listen window is opened again only by a beacon, a catch or a new search.
  For the parts: the trace and the counters agree with what happened; round trips of parser, bond and dump; rejection of torn and corrupt bonds; the simulation,
  fairness and liveness of the host wake machine; the hop and its servo; the clock; the pins at boot.

  \<^bold>\<open>Not modelled.\<close>  The vendor's SDK, TMOS, the radio library, the bootloader and the startup and fault assembly
  are not in the repository or not C; their calls are arguments or recorded.  \<^verbatim>\<open>kbd_image_id.c\<close> is a constant of the
  image without behaviour.  Compiled out of the shipped build and left out: the bench hook of \<^verbatim>\<open>power_sleep.c\<close>, the
  forensic stages of the idle callback, the seeded bond and the other \<open>STOCK\<close> experiments.  The diagnostic counters
  of \<^verbatim>\<open>rf_task.c\<close> are modelled beside the task, which never reads them, and the dump formats a snapshot whose values
  are its argument.  The order of individual volatile accesses within one handler is not modelled.
\<close>

end
